theory Spec2Isabelle
  imports Complex_Main "HOL-Library.Word"
begin

section \<open>Model constants (ocr_inference.h)\<close>

definition IMAGE_SIZE :: int where "IMAGE_SIZE = 224"
definition MAX_SEQUENCE_LENGTH :: int where "MAX_SEQUENCE_LENGTH = 300"
definition VOCAB_SIZE :: int where "VOCAB_SIZE = 6144"
definition HIDDEN_SIZE :: int where "HIDDEN_SIZE = 768"
definition START_TOKEN_ID :: int where "START_TOKEN_ID = 2"
definition END_TOKEN_ID :: int where "END_TOKEN_ID = 3"
definition PAD_TOKEN_ID :: int where "PAD_TOKEN_ID = 0"

section \<open>Thread count for CPU compilation\<close>

text \<open>
  \<^verbatim>\<open>GetOptimalThreadCount\<close>: \<^verbatim>\<open>hw_threads\<close> is the \<^verbatim>\<open>unsigned int\<close> returned by
  \<^verbatim>\<open>std::thread::hardware_concurrency()\<close>, taken as a parameter; \<^verbatim>\<open>std::min\<close> on
  unsigned values is the unsigned order of words, and the cast to \<^verbatim>\<open>int\<close> reads the
  32 bits as two's complement.
\<close>

definition GetOptimalThreadCount :: "32 word \<Rightarrow> int" where
  "GetOptimalThreadCount hw_threads =
     (if hw_threads = 0 then 2 else sint (min hw_threads 4))"

section \<open>Floats, undefined behaviour and vectors\<close>

text \<open>
  The engine only stores, copies and compares \<^verbatim>\<open>float\<close> values. A float is a NaN, an
  infinity or a finite real; \<open>fgt\<close> is the C++ comparison \<^verbatim>\<open>a > b\<close>, false as soon as
  one side is a NaN.
\<close>

datatype cfloat = NaN | NegInf | Fin real | PosInf

fun fgt :: "cfloat \<Rightarrow> cfloat \<Rightarrow> bool" where
  "fgt NaN _ = False"
| "fgt _ NaN = False"
| "fgt NegInf _ = False"
| "fgt (Fin a) NegInf = True"
| "fgt (Fin a) (Fin b) = (b < a)"
| "fgt (Fin a) PosInf = False"
| "fgt PosInf PosInf = False"
| "fgt PosInf _ = True"

text \<open>
  C++ gives no meaning to a read or write outside an array, to \<^verbatim>\<open>->\<close> on an empty
  \<^verbatim>\<open>unique_ptr\<close> or \<^verbatim>\<open>optional\<close>. The model makes each such place a \<open>fault\<close>
  result, so that a theorem about a returned value also says that no such place was reached.
\<close>

datatype fault = OutOfBounds | NullDereference

definition read_at :: "'a list \<Rightarrow> int \<Rightarrow> fault + 'a" where
  "read_at xs i = (if 0 \<le> i \<and> i < int (length xs) then Inr (xs ! nat i) else Inl OutOfBounds)"

definition write_at :: "'a list \<Rightarrow> int \<Rightarrow> 'a \<Rightarrow> fault + 'a list" where
  "write_at xs i v =
     (if 0 \<le> i \<and> i < int (length xs) then Inr (xs[nat i := v]) else Inl OutOfBounds)"

text \<open>\<^verbatim>\<open>absl::MakeConstSpan(p, n)\<close>: the first \<open>n\<close> elements of the array at \<open>p\<close>.\<close>

definition span_of :: "'a list \<Rightarrow> int \<Rightarrow> fault + 'a list" where
  "span_of xs n =
     (if 0 \<le> n \<and> n \<le> int (length xs) then Inr (take (nat n) xs) else Inl OutOfBounds)"

text \<open>
  Sequencing: the first fault ends the computation. \<open>deref\<close> is \<^verbatim>\<open>->\<close> on a
  \<^verbatim>\<open>unique_ptr\<close> or an \<^verbatim>\<open>optional\<close>.
\<close>

definition andthen :: "fault + 'a \<Rightarrow> ('a \<Rightarrow> fault + 'c) \<Rightarrow> fault + 'c" where
  "andthen m f = (case m of Inl e \<Rightarrow> Inl e | Inr x \<Rightarrow> f x)"

definition deref :: "'a option \<Rightarrow> fault + 'a" where
  "deref p = (case p of None \<Rightarrow> Inl NullDereference | Some x \<Rightarrow> Inr x)"

text \<open>
  A read of a tensor buffer into a span of the vector \<open>old\<close> overwrites the span's elements
  with the values delivered; the vector keeps its size.
\<close>

definition span_store :: "'a list \<Rightarrow> 'a list \<Rightarrow> 'a list" where
  "span_store old ys = take (length old) ys @ drop (length ys) old"

text \<open>\<^verbatim>\<open>std::vector::resize(n, 0.0f)\<close>.\<close>

definition resize :: "nat \<Rightarrow> cfloat list \<Rightarrow> cfloat list" where
  "resize n xs = take n xs @ replicate (n - length xs) (Fin 0)"

section \<open>The LiteRT runtime and the platform, as parameters\<close>

text \<open>
  LiteRT, the asset manager and the dynamic loader are not part of the repository. They
  are a record of operations over a runtime state \<open>'b\<close> that the engine cannot see; every
  operation returns the new runtime state with its result, \<open>None\<close> or \<open>False\<close> standing
  for an \<^verbatim>\<open>Expected\<close> without a value. Handles are numbered.
\<close>

datatype environment = Environment nat
datatype compiled_model = CompiledModel nat
datatype tensor_buffer = TensorBuffer nat

record AAsset =
  asset_handle :: nat
  asset_length :: nat
  asset_floats :: "cfloat list"

datatype accelerator = kGpu | kCpu

record litert_options =
  hardware_accelerators :: "accelerator option"
  gpu_precision_fp16 :: bool
  cpu_num_threads :: "int option"

datatype alloc_site = LiteRtObjects_alloc | working_memory_alloc

record 'b litert_api =
  Environment_Create :: "'b \<Rightarrow> string option \<Rightarrow> 'b \<times> environment option"
  dlopen :: "'b \<Rightarrow> string \<Rightarrow> bool"
  Options_Create :: "'b \<Rightarrow> 'b \<times> bool"
  SetHardwareAccelerators :: "'b \<Rightarrow> accelerator \<Rightarrow> 'b \<times> bool"
  GetGpuOptions :: "'b \<Rightarrow> bool"
  GetCpuOptions :: "'b \<Rightarrow> bool"
  CompiledModel_Create ::
    "'b \<Rightarrow> environment \<Rightarrow> AAsset \<Rightarrow> litert_options \<Rightarrow> 'b \<times> compiled_model option"
  IsFullyAccelerated :: "'b \<Rightarrow> compiled_model \<Rightarrow> bool option"
  CreateInputBuffers :: "'b \<Rightarrow> compiled_model \<Rightarrow> 'b \<times> tensor_buffer list option"
  CreateOutputBuffers :: "'b \<Rightarrow> compiled_model \<Rightarrow> 'b \<times> tensor_buffer list option"
  TensorBuffer_Size :: "'b \<Rightarrow> tensor_buffer \<Rightarrow> nat option"
  TensorBuffer_Write :: "'b \<Rightarrow> tensor_buffer \<Rightarrow> cfloat list \<Rightarrow> 'b \<times> bool"
  TensorBuffer_Read :: "'b \<Rightarrow> tensor_buffer \<Rightarrow> nat \<Rightarrow> 'b \<times> cfloat list option"
  CompiledModel_Run ::
    "'b \<Rightarrow> compiled_model \<Rightarrow> tensor_buffer list \<Rightarrow> tensor_buffer list \<Rightarrow> 'b \<times> bool"
  hardware_concurrency :: "'b \<Rightarrow> 32 word"
  bad_alloc :: "'b \<Rightarrow> alloc_site \<Rightarrow> bool"

text \<open>
  What the engine does to the world outside its own object is recorded as events, in
  order: calls that create an environment and every release of a resource.
\<close>

datatype event =
    SharedEnvCreate
  | CpuEnvCreate
  | ReleaseSystemPages nat
  | TensorBufferDestroyed tensor_buffer
  | CompiledModelDestroyed compiled_model
  | EnvironmentDestroyed environment
  | AAsset_close nat
  | SleepMs nat

text \<open>
  The process around the engine: the global \<^verbatim>\<open>g_persist_env\<close>, the runtime state and
  the events so far. \<^verbatim>\<open>g_env_mutex\<close> serialises the accesses; calls are modelled one at
  a time.
\<close>

record 'b process =
  g_persist_env :: "environment option"
  backend :: 'b
  events :: "event list"

section \<open>The engine object\<close>

record LiteRtObjects =
  cpu_env :: "environment option"
  compiled_encoder :: "compiled_model option"
  compiled_decoder :: "compiled_model option"
  encoder_input_buffers :: "tensor_buffer list"
  encoder_output_buffers :: "tensor_buffer list"
  decoder_input_buffers :: "tensor_buffer list"
  decoder_output_buffers :: "tensor_buffer list"
  encoder_hidden_states :: "cfloat list"
  decoder_logits :: "cfloat list"
  using_gpu :: bool
  encoder_using_gpu :: bool
  decoder_using_gpu :: bool

definition new_LiteRtObjects :: LiteRtObjects where
  "new_LiteRtObjects =
     \<lparr>cpu_env = None, compiled_encoder = None, compiled_decoder = None,
      encoder_input_buffers = [], encoder_output_buffers = [],
      decoder_input_buffers = [], decoder_output_buffers = [],
      encoder_hidden_states = [], decoder_logits = [],
      using_gpu = False, encoder_using_gpu = False, decoder_using_gpu = False\<rparr>"

record OcrInference =
  litert :: "LiteRtObjects option"
  encoder_asset :: "AAsset option"
  decoder_asset :: "AAsset option"
  embeddings_asset :: "AAsset option"
  embeddings_data :: "cfloat list"
  embedding_count :: nat
  embeddings_input :: "cfloat list"
  attention_mask :: "cfloat list"
  initialized :: bool
  encoder_output_size :: nat
  decoder_output_size :: nat

text \<open>The engine as the constructor leaves it.\<close>

definition new_OcrInference :: OcrInference where
  "new_OcrInference =
     \<lparr>litert = None, encoder_asset = None, decoder_asset = None, embeddings_asset = None,
      embeddings_data = [], embedding_count = 0, embeddings_input = [], attention_mask = [],
      initialized = False, encoder_output_size = 0, decoder_output_size = 0\<rparr>"

definition IsInitialized :: "OcrInference \<Rightarrow> bool" where
  "IsInitialized e = initialized e"

definition IsEncoderUsingGpu :: "OcrInference \<Rightarrow> bool" where
  "IsEncoderUsingGpu e = (case litert e of None \<Rightarrow> False | Some l \<Rightarrow> encoder_using_gpu l)"

definition IsDecoderUsingGpu :: "OcrInference \<Rightarrow> bool" where
  "IsDecoderUsingGpu e = (case litert e of None \<Rightarrow> False | Some l \<Rightarrow> decoder_using_gpu l)"

section \<open>Greedy selection and the embedding table\<close>

text \<open>
  \<^verbatim>\<open>FindMaxLogitToken\<close>: \<open>base\<close> is the offset of the row of the last token in
  \<^verbatim>\<open>decoder_logits\<close>; the loop runs \<^verbatim>\<open>vocab_idx\<close> from 1 to \<^verbatim>\<open>VOCAB_SIZE - 1\<close>.
\<close>

function find_max_loop :: "cfloat list \<Rightarrow> int \<Rightarrow> int \<Rightarrow> cfloat \<Rightarrow> int \<Rightarrow> fault + int" where
  "find_max_loop logits base vocab_idx max_logit max_token =
     (if vocab_idx < VOCAB_SIZE then
        (case read_at logits (base + vocab_idx) of
           Inl f \<Rightarrow> Inl f
         | Inr logit \<Rightarrow>
             if fgt logit max_logit
             then find_max_loop logits base (vocab_idx + 1) logit vocab_idx
             else find_max_loop logits base (vocab_idx + 1) max_logit max_token)
      else Inr max_token)"
  by pat_completeness auto
termination
  by (relation "measure (\<lambda>(logits, base, vocab_idx, max_logit, max_token).
        nat (VOCAB_SIZE - vocab_idx))") auto

declare find_max_loop.simps [simp del]

definition FindMaxLogitToken :: "cfloat list \<Rightarrow> int \<Rightarrow> fault + int" where
  "FindMaxLogitToken logits seq_len =
     (let last_token_pos = seq_len - 1;
          base = last_token_pos * VOCAB_SIZE
      in case read_at logits base of
           Inl f \<Rightarrow> Inl f
         | Inr max_logit \<Rightarrow> find_max_loop logits base 1 max_logit 0)"

text \<open>
  \<^verbatim>\<open>UpdateEmbedding\<close>: \<^verbatim>\<open>memcpy\<close> of one row of \<^verbatim>\<open>HIDDEN_SIZE\<close> floats from the
  embedding table of the asset into row \<open>index\<close> of \<^verbatim>\<open>embeddings_input_\<close>.
\<close>

definition UpdateEmbedding :: "cfloat list \<Rightarrow> cfloat list \<Rightarrow> int \<Rightarrow> int \<Rightarrow> fault + cfloat list" where
  "UpdateEmbedding data input token_id index =
     (let embed_offset = token_id * HIDDEN_SIZE;
          output_offset = index * HIDDEN_SIZE
      in if 0 \<le> embed_offset \<and> embed_offset + HIDDEN_SIZE \<le> int (length data) \<and>
            0 \<le> output_offset \<and> output_offset + HIDDEN_SIZE \<le> int (length input)
         then Inr (take (nat output_offset) input @
                   take (nat HIDDEN_SIZE) (drop (nat embed_offset) data) @
                   drop (nat (output_offset + HIDDEN_SIZE)) input)
         else Inl OutOfBounds)"

section \<open>Inference\<close>

text \<open>
  The state of one call of \<^verbatim>\<open>InferTokens\<close> while it decodes: the runtime, the vectors
  the loop overwrites, the caller's token array and \<^verbatim>\<open>token_count\<close>.
\<close>

record 'b decode_state =
  ds_backend :: 'b
  ds_decoder_logits :: "cfloat list"
  ds_embeddings_input :: "cfloat list"
  ds_attention_mask :: "cfloat list"
  ds_out_tokens :: "int list"
  ds_token_count :: int

text \<open>
  One pass through the body of the decode loop either leaves the loop (\<^verbatim>\<open>break\<close>) or
  goes on. The reason of a \<^verbatim>\<open>break\<close> is kept for the statements below; the code does
  not return it. The body is written in two halves: \<open>run_decoder\<close> writes the mask and the
  embeddings, runs the decoder and reads the logits, and ends with the runtime alone when
  one of these fails; \<open>append_token\<close> selects the next token and appends it.
\<close>

datatype stop_reason = BufferError | EndToken | LimitReached

datatype 's step_result = Stopped stop_reason 's | Proceed 's

definition run_decoder ::
  "'b litert_api \<Rightarrow> LiteRtObjects \<Rightarrow> 'b decode_state \<Rightarrow> fault + ('b + 'b \<times> cfloat list)" where
  "run_decoder api l s =
     andthen (read_at (decoder_input_buffers l) 1) (\<lambda>mask_buffer.
     andthen (span_of (ds_attention_mask s) MAX_SEQUENCE_LENGTH) (\<lambda>mask.
     case TensorBuffer_Write api (ds_backend s) mask_buffer mask of (b1, write_mask_ok) \<Rightarrow>
     if \<not> write_mask_ok then Inr (Inl b1) else
     andthen (read_at (decoder_input_buffers l) 2) (\<lambda>emb_buffer.
     andthen (span_of (ds_embeddings_input s) (MAX_SEQUENCE_LENGTH * HIDDEN_SIZE)) (\<lambda>emb.
     case TensorBuffer_Write api b1 emb_buffer emb of (b2, write_emb_ok) \<Rightarrow>
     if \<not> write_emb_ok then Inr (Inl b2) else
     andthen (deref (compiled_decoder l)) (\<lambda>decoder.
     case CompiledModel_Run api b2 decoder (decoder_input_buffers l) (decoder_output_buffers l)
     of (b3, run_ok) \<Rightarrow>
     if \<not> run_ok then Inr (Inl b3) else
     andthen (read_at (decoder_output_buffers l) 0) (\<lambda>logits_buffer.
     case TensorBuffer_Read api b3 logits_buffer (length (ds_decoder_logits s))
     of (b4, logits_result) \<Rightarrow>
     case logits_result of
       None \<Rightarrow> Inr (Inl b4)
     | Some ys \<Rightarrow> Inr (Inr (b4, ys))))))))"

definition append_token ::
  "cfloat list \<Rightarrow> int \<Rightarrow> 'b decode_state \<Rightarrow> 'b \<Rightarrow> cfloat list \<Rightarrow>
   fault + 'b decode_state step_result" where
  "append_token data max_tokens s b4 ys =
     (let logits = span_store (ds_decoder_logits s) ys in
      andthen (FindMaxLogitToken logits (ds_token_count s)) (\<lambda>next_token.
      if next_token < 0 \<or> next_token = END_TOKEN_ID
      then Inr (Stopped EndToken (s\<lparr>ds_backend := b4, ds_decoder_logits := logits\<rparr>)) else
      andthen (write_at (ds_out_tokens s) (ds_token_count s) next_token) (\<lambda>out.
      andthen (UpdateEmbedding data (ds_embeddings_input s) next_token (ds_token_count s)) (\<lambda>emb'.
      andthen (write_at (ds_attention_mask s) (ds_token_count s) (Fin 1)) (\<lambda>mask'.
      let s' = \<lparr>ds_backend = b4, ds_decoder_logits = logits, ds_embeddings_input = emb',
                ds_attention_mask = mask', ds_out_tokens = out,
                ds_token_count = ds_token_count s + 1\<rparr>
      in if max_tokens \<le> ds_token_count s' \<or> MAX_SEQUENCE_LENGTH \<le> ds_token_count s'
         then Inr (Stopped LimitReached s') else Inr (Proceed s'))))))"

definition decode_body ::
  "'b litert_api \<Rightarrow> LiteRtObjects \<Rightarrow> cfloat list \<Rightarrow> int \<Rightarrow> 'b decode_state \<Rightarrow>
   fault + 'b decode_state step_result" where
  "decode_body api l data max_tokens s =
     andthen (run_decoder api l s) (\<lambda>r.
     case r of
       Inl b \<Rightarrow> Inr (Stopped BufferError (s\<lparr>ds_backend := b\<rparr>))
     | Inr (b4, ys) \<Rightarrow> append_token data max_tokens s b4 ys)"

text \<open>The \<^verbatim>\<open>for\<close> loop over \<^verbatim>\<open>step\<close>.\<close>

function decode_loop ::
  "'b litert_api \<Rightarrow> LiteRtObjects \<Rightarrow> cfloat list \<Rightarrow> int \<Rightarrow> int \<Rightarrow> 'b decode_state \<Rightarrow>
   fault + 'b decode_state" where
  "decode_loop api l data max_tokens step s =
     (if step < MAX_SEQUENCE_LENGTH - 1 then
        (case decode_body api l data max_tokens s of
           Inl f \<Rightarrow> Inl f
         | Inr r \<Rightarrow>
            (case r of
               Stopped reason s' \<Rightarrow> Inr s'
             | Proceed s' \<Rightarrow> decode_loop api l data max_tokens (step + 1) s'))
      else Inr s)"
  by pat_completeness auto
termination
  by (relation "measure (\<lambda>(api, l, data, max_tokens, step, s).
        nat (MAX_SEQUENCE_LENGTH - 1 - step))") auto

declare decode_loop.simps [simp del]

text \<open>
  The part of \<^verbatim>\<open>InferTokens\<close> before the loop: the encoder runs once, the decoder state
  is reset and receives the START token, the hidden states are written to the decoder.
  The result is either the value of an early \<^verbatim>\<open>return 0\<close> or the state in which the
  loop is entered, with the runtime objects as they are then.
\<close>

definition run_encoder ::
  "'b litert_api \<Rightarrow> 'b \<Rightarrow> OcrInference \<Rightarrow> LiteRtObjects \<Rightarrow> cfloat list \<Rightarrow> int list \<Rightarrow>
   fault + ((int \<times> int list \<times> 'b \<times> OcrInference) + (LiteRtObjects \<times> 'b decode_state))" where
  "run_encoder api b e l image_data out_tokens =
     andthen (read_at (encoder_input_buffers l) 0) (\<lambda>image_buffer.
     andthen (span_of image_data (IMAGE_SIZE * IMAGE_SIZE * 3)) (\<lambda>image.
     case TensorBuffer_Write api b image_buffer image of (b1, write_ok) \<Rightarrow>
     if \<not> write_ok then Inr (Inl (0, out_tokens, b1, e)) else
     andthen (deref (compiled_encoder l)) (\<lambda>encoder.
     case CompiledModel_Run api b1 encoder (encoder_input_buffers l) (encoder_output_buffers l)
     of (b2, run_ok) \<Rightarrow>
     if \<not> run_ok then Inr (Inl (0, out_tokens, b2, e)) else
     andthen (read_at (encoder_output_buffers l) 0) (\<lambda>hidden_buffer.
     case TensorBuffer_Read api b2 hidden_buffer (length (encoder_hidden_states l))
     of (b3, read_result) \<Rightarrow>
     case read_result of
       None \<Rightarrow> Inr (Inl (0, out_tokens, b3, e))
     | Some ys \<Rightarrow>
     let hidden = span_store (encoder_hidden_states l) ys;
         l1 = l\<lparr>encoder_hidden_states := hidden\<rparr>;
         zero_embeddings = replicate (length (embeddings_input e)) (Fin 0);
         zero_mask = replicate (length (attention_mask e)) (Fin 0)
     in
     andthen (write_at out_tokens 0 START_TOKEN_ID) (\<lambda>out1.
     andthen (UpdateEmbedding (embeddings_data e) zero_embeddings START_TOKEN_ID 0) (\<lambda>emb1.
     andthen (write_at zero_mask 0 (Fin 1)) (\<lambda>mask1.
     andthen (read_at (decoder_input_buffers l) 0) (\<lambda>dec_hidden_buffer.
     case TensorBuffer_Write api b3 dec_hidden_buffer hidden of (b4, write_hidden_ok) \<Rightarrow>
     if \<not> write_hidden_ok
     then Inr (Inl (0, out1, b4,
                 e\<lparr>litert := Some l1, embeddings_input := emb1, attention_mask := mask1\<rparr>))
     else Inr (Inr (l1,
            \<lparr>ds_backend = b4, ds_decoder_logits = decoder_logits l1,
             ds_embeddings_input = emb1, ds_attention_mask = mask1,
             ds_out_tokens = out1, ds_token_count = 1\<rparr>))))))))))"

text \<open>
  \<^verbatim>\<open>InferTokens\<close> returns \<^verbatim>\<open>token_count\<close>; the model returns with it the caller's
  array \<^verbatim>\<open>out_tokens\<close>, the runtime and the engine as the call leaves them. Nothing in
  the function assigns \<^verbatim>\<open>litert_\<close>, so the pointer is followed once.
\<close>

definition InferTokens ::
  "'b litert_api \<Rightarrow> 'b \<Rightarrow> OcrInference \<Rightarrow> cfloat list \<Rightarrow> int list \<Rightarrow> int \<Rightarrow>
   fault + (int \<times> int list \<times> 'b \<times> OcrInference)" where
  "InferTokens api b e image_data out_tokens max_tokens =
     (if \<not> initialized e then Inr (0, out_tokens, b, e) else
      andthen (deref (litert e)) (\<lambda>l.
      andthen (run_encoder api b e l image_data out_tokens) (\<lambda>r.
      case r of
        Inl early \<Rightarrow> Inr early
      | Inr (l1, s0) \<Rightarrow>
          andthen (decode_loop api l1 (embeddings_data e) max_tokens 0 s0) (\<lambda>s.
          Inr (ds_token_count s, ds_out_tokens s, ds_backend s,
               e\<lparr>litert := Some (l1\<lparr>decoder_logits := ds_decoder_logits s\<rparr>),
                 embeddings_input := ds_embeddings_input s,
                 attention_mask := ds_attention_mask s\<rparr>)))))"

text \<open>
  The state after \<open>n\<close> passes through the loop body that each appended a token and went
  on, if the first \<open>n\<close> passes did so.
\<close>

fun decode_steps ::
  "'b litert_api \<Rightarrow> LiteRtObjects \<Rightarrow> cfloat list \<Rightarrow> int \<Rightarrow> nat \<Rightarrow> 'b decode_state \<Rightarrow>
   'b decode_state option" where
  "decode_steps api l data max_tokens 0 s = Some s"
| "decode_steps api l data max_tokens (Suc n) s =
     (case decode_body api l data max_tokens s of
        Inr (Proceed s') \<Rightarrow> decode_steps api l data max_tokens n s'
      | _ \<Rightarrow> None)"

section \<open>Shutdown\<close>

text \<open>
  Destroying an \<^verbatim>\<open>optional\<close> or a vector of runtime objects releases what it holds.
  The destructor of \<^verbatim>\<open>LiteRtObjects\<close> destroys its members in the reverse order of
  their declaration.
\<close>

definition destroy_model :: "compiled_model option \<Rightarrow> event list" where
  "destroy_model m = (case m of None \<Rightarrow> [] | Some c \<Rightarrow> [CompiledModelDestroyed c])"

definition destroy_env :: "environment option \<Rightarrow> event list" where
  "destroy_env v = (case v of None \<Rightarrow> [] | Some x \<Rightarrow> [EnvironmentDestroyed x])"

definition destroy_buffers :: "tensor_buffer list \<Rightarrow> event list" where
  "destroy_buffers bs = map TensorBufferDestroyed bs"

definition destroy_LiteRtObjects :: "LiteRtObjects \<Rightarrow> event list" where
  "destroy_LiteRtObjects l =
     destroy_buffers (decoder_output_buffers l) @ destroy_buffers (decoder_input_buffers l) @
     destroy_buffers (encoder_output_buffers l) @ destroy_buffers (encoder_input_buffers l) @
     destroy_model (compiled_decoder l) @ destroy_model (compiled_encoder l) @
     destroy_env (cpu_env l)"

definition close_asset :: "AAsset option \<Rightarrow> event list" where
  "close_asset a = (case a of None \<Rightarrow> [] | Some x \<Rightarrow> [AAsset_close (asset_handle x)])"

text \<open>
  \<^verbatim>\<open>Close\<close>. Nothing in it names \<^verbatim>\<open>g_persist_env\<close>. The pointer
  \<^verbatim>\<open>embeddings_data_\<close> and the vector \<^verbatim>\<open>embeddings_input_\<close> are left as they are.
\<close>

definition Close :: "'b process \<times> OcrInference \<Rightarrow> 'b process \<times> OcrInference" where
  "Close we =
     (case we of (w, e) \<Rightarrow>
      let released_objects =
            (case litert e of
               None \<Rightarrow> []
             | Some l \<Rightarrow>
                 destroy_buffers (encoder_input_buffers l) @
                 destroy_buffers (encoder_output_buffers l) @
                 destroy_buffers (decoder_input_buffers l) @
                 destroy_buffers (decoder_output_buffers l) @
                 destroy_model (compiled_encoder l) @
                 destroy_model (compiled_decoder l) @
                 (if using_gpu l then [SleepMs 100] else []) @
                 destroy_LiteRtObjects
                   (l\<lparr>encoder_input_buffers := [], encoder_output_buffers := [],
                      decoder_input_buffers := [], decoder_output_buffers := [],
                      compiled_encoder := None, compiled_decoder := None\<rparr>));
          closed_assets =
            close_asset (encoder_asset e) @ close_asset (decoder_asset e) @
            close_asset (embeddings_asset e)
      in (w\<lparr>events := events w @ released_objects @ closed_assets\<rparr>,
          e\<lparr>litert := None, encoder_asset := None, decoder_asset := None,
            embeddings_asset := None, attention_mask := [], initialized := False\<rparr>))"


section \<open>Compilation, buffers and warmup\<close>

text \<open>
  \<^verbatim>\<open>TryCompileWithGpu\<close>. The encoder is compiled on another thread while the decoder is
  compiled on the calling one, and both are awaited before either result is looked at; the
  model runs the two calls one after the other. A compiled model that is not moved into
  \<^verbatim>\<open>litert_\<close> is destroyed when the function returns.
\<close>

definition TryCompileWithGpu ::
  "'b litert_api \<Rightarrow> 'b process \<Rightarrow> LiteRtObjects \<Rightarrow> AAsset \<Rightarrow> AAsset \<Rightarrow>
   fault + (bool \<times> 'b process \<times> LiteRtObjects)" where
  "TryCompileWithGpu api w l encoder_data decoder_data =
     (case Options_Create api (backend w) of (b1, options_ok) \<Rightarrow>
      if \<not> options_ok then Inr (False, w\<lparr>backend := b1\<rparr>, l) else
      case SetHardwareAccelerators api b1 kGpu of (b2, hw_ok) \<Rightarrow>
      if \<not> hw_ok then Inr (False, w\<lparr>backend := b2\<rparr>, l) else
      let options = \<lparr>hardware_accelerators = Some kGpu,
                      gpu_precision_fp16 = GetGpuOptions api b2, cpu_num_threads = None\<rparr> in
      case Options_Create api b2 of (b3, decoder_options_ok) \<Rightarrow>
      if \<not> decoder_options_ok then Inr (False, w\<lparr>backend := b3\<rparr>, l) else
      case SetHardwareAccelerators api b3 kGpu of (b4, decoder_hw_ok) \<Rightarrow>
      let decoder_options =
            \<lparr>hardware_accelerators = (if decoder_hw_ok then Some kGpu else None),
             gpu_precision_fp16 = GetGpuOptions api b4, cpu_num_threads = None\<rparr> in
      andthen (deref (g_persist_env w)) (\<lambda>env.
      case CompiledModel_Create api b4 env encoder_data options
      of (b5, compiled_encoder_result) \<Rightarrow>
      case CompiledModel_Create api b5 env decoder_data decoder_options
      of (b6, compiled_decoder_result) \<Rightarrow>
      let rejected = w\<lparr>backend := b6,
                       events := events w @ destroy_model compiled_encoder_result @
                                 destroy_model compiled_decoder_result\<rparr> in
      case compiled_encoder_result of
        None \<Rightarrow> Inr (False, rejected, l)
      | Some enc \<Rightarrow>
      if IsFullyAccelerated api b6 enc = Some False then Inr (False, rejected, l) else
      case compiled_decoder_result of
        None \<Rightarrow> Inr (False, rejected, l)
      | Some dec \<Rightarrow>
      if IsFullyAccelerated api b6 dec = Some False then Inr (False, rejected, l) else
      Inr (True, w\<lparr>backend := b6\<rparr>,
           l\<lparr>compiled_encoder := Some enc, compiled_decoder := Some dec,
             encoder_using_gpu := True, decoder_using_gpu := True, using_gpu := True\<rparr>)))"

definition TryCompileWithCpu ::
  "'b litert_api \<Rightarrow> 'b process \<Rightarrow> LiteRtObjects \<Rightarrow> AAsset \<Rightarrow> AAsset \<Rightarrow>
   fault + (bool \<times> 'b process \<times> LiteRtObjects)" where
  "TryCompileWithCpu api w l encoder_data decoder_data =
     (let num_threads = GetOptimalThreadCount (hardware_concurrency api (backend w)) in
      case (case cpu_env l of
              Some v \<Rightarrow> (w, l, True)
            | None \<Rightarrow>
               (case Environment_Create api (backend w) None of (b0, env_result) \<Rightarrow>
                  (w\<lparr>backend := b0, events := events w @ [CpuEnvCreate]\<rparr>,
                   l\<lparr>cpu_env := env_result\<rparr>, env_result \<noteq> None)))
      of (w0, l0, env_ok) \<Rightarrow>
      if \<not> env_ok then Inr (False, w0, l0) else
      case Options_Create api (backend w0) of (b1, encoder_options_ok) \<Rightarrow>
      if \<not> encoder_options_ok then Inr (False, w0\<lparr>backend := b1\<rparr>, l0) else
      case SetHardwareAccelerators api b1 kCpu of (b2, hw_ok) \<Rightarrow>
      if \<not> hw_ok then Inr (False, w0\<lparr>backend := b2\<rparr>, l0) else
      let encoder_options =
            \<lparr>hardware_accelerators = Some kCpu, gpu_precision_fp16 = False,
             cpu_num_threads = (if GetCpuOptions api b2 then Some num_threads else None)\<rparr> in
      case Options_Create api b2 of (b3, decoder_options_ok) \<Rightarrow>
      if \<not> decoder_options_ok then Inr (False, w0\<lparr>backend := b3\<rparr>, l0) else
      case SetHardwareAccelerators api b3 kCpu of (b4, decoder_hw_ok) \<Rightarrow>
      if \<not> decoder_hw_ok then Inr (False, w0\<lparr>backend := b4\<rparr>, l0) else
      let decoder_options =
            \<lparr>hardware_accelerators = Some kCpu, gpu_precision_fp16 = False,
             cpu_num_threads = (if GetCpuOptions api b4 then Some num_threads else None)\<rparr> in
      andthen (deref (cpu_env l0)) (\<lambda>env.
      case CompiledModel_Create api b4 env encoder_data encoder_options
      of (b5, compiled_encoder_result) \<Rightarrow>
      case CompiledModel_Create api b5 env decoder_data decoder_options
      of (b6, compiled_decoder_result) \<Rightarrow>
      let rejected = w0\<lparr>backend := b6,
                        events := events w0 @ destroy_model compiled_decoder_result @
                                  destroy_model compiled_encoder_result\<rparr> in
      case compiled_encoder_result of
        None \<Rightarrow> Inr (False, rejected, l0)
      | Some enc \<Rightarrow>
      case compiled_decoder_result of
        None \<Rightarrow> Inr (False, rejected, l0)
      | Some dec \<Rightarrow>
      Inr (True, w0\<lparr>backend := b6\<rparr>,
           l0\<lparr>compiled_encoder := Some enc, compiled_decoder := Some dec,
              encoder_using_gpu := False, decoder_using_gpu := False, using_gpu := False\<rparr>)))"

text \<open>
  \<^verbatim>\<open>CreateBuffers\<close>: the sizes of the first output buffers, in floats of 4 bytes, size
  the vectors that receive the hidden states and the logits.
\<close>

definition CreateBuffers ::
  "'b litert_api \<Rightarrow> 'b \<Rightarrow> OcrInference \<Rightarrow> LiteRtObjects \<Rightarrow>
   fault + (bool \<times> 'b \<times> OcrInference \<times> LiteRtObjects)" where
  "CreateBuffers api b e l =
     andthen (deref (compiled_encoder l)) (\<lambda>encoder.
     case CreateInputBuffers api b encoder of (b1, encoder_input_result) \<Rightarrow>
     if encoder_input_result = None then Inr (False, b1, e, l) else
     let l1 = l\<lparr>encoder_input_buffers := the encoder_input_result\<rparr> in
     case CreateOutputBuffers api b1 encoder of (b2, encoder_output_result) \<Rightarrow>
     if encoder_output_result = None then Inr (False, b2, e, l1) else
     let l2 = l1\<lparr>encoder_output_buffers := the encoder_output_result\<rparr> in
     andthen (deref (compiled_decoder l)) (\<lambda>decoder.
     case CreateInputBuffers api b2 decoder of (b3, decoder_input_result) \<Rightarrow>
     if decoder_input_result = None then Inr (False, b3, e, l2) else
     let l3 = l2\<lparr>decoder_input_buffers := the decoder_input_result\<rparr> in
     case CreateOutputBuffers api b3 decoder of (b4, decoder_output_result) \<Rightarrow>
     if decoder_output_result = None then Inr (False, b4, e, l3) else
     let l4 = l3\<lparr>decoder_output_buffers := the decoder_output_result\<rparr> in
     andthen (read_at (encoder_output_buffers l4) 0) (\<lambda>encoder_out.
     case TensorBuffer_Size api b4 encoder_out of
       None \<Rightarrow> Inr (False, b4, e, l4)
     | Some encoder_bytes \<Rightarrow>
     let e1 = e\<lparr>encoder_output_size := encoder_bytes div 4\<rparr> in
     andthen (read_at (decoder_output_buffers l4) 0) (\<lambda>decoder_out.
     case TensorBuffer_Size api b4 decoder_out of
       None \<Rightarrow> Inr (False, b4, e1, l4)
     | Some decoder_bytes \<Rightarrow>
     let e2 = e1\<lparr>decoder_output_size := decoder_bytes div 4\<rparr> in
     Inr (True, b4, e2,
          l4\<lparr>encoder_hidden_states := resize (encoder_output_size e2) (encoder_hidden_states l4),
             decoder_logits := resize (decoder_output_size e2) (decoder_logits l4)\<rparr>)))))"

text \<open>\<^verbatim>\<open>PerformWarmup\<close>: one pass through both models on zero inputs.\<close>

definition PerformWarmup ::
  "'b litert_api \<Rightarrow> 'b \<Rightarrow> LiteRtObjects \<Rightarrow> fault + (bool \<times> 'b)" where
  "PerformWarmup api b l =
     (let dummy_image = replicate (nat (IMAGE_SIZE * IMAGE_SIZE * 3)) (Fin 0) in
      andthen (read_at (encoder_input_buffers l) 0) (\<lambda>image_buffer.
      case TensorBuffer_Write api b image_buffer dummy_image of (b1, write_ok) \<Rightarrow>
      if \<not> write_ok then Inr (False, b1) else
      andthen (deref (compiled_encoder l)) (\<lambda>encoder.
      case CompiledModel_Run api b1 encoder (encoder_input_buffers l) (encoder_output_buffers l)
      of (b2, encoder_run_ok) \<Rightarrow>
      if \<not> encoder_run_ok then Inr (False, b2) else
      andthen (read_at (encoder_output_buffers l) 0) (\<lambda>hidden_buffer.
      let encoder_output_floats =
            (case TensorBuffer_Size api b2 hidden_buffer of
               None \<Rightarrow> 0 | Some bytes \<Rightarrow> bytes div 4) in
      if encoder_output_floats = 0 then Inr (False, b2) else
      let zero_hidden_states = replicate encoder_output_floats (Fin 0) in
      case TensorBuffer_Read api b2 hidden_buffer encoder_output_floats
      of (b3, warmup_read) \<Rightarrow>
      if warmup_read = None then Inr (False, b3) else
      let warmup_hidden_states = span_store zero_hidden_states (the warmup_read);
          warmup_embeddings = replicate (nat (MAX_SEQUENCE_LENGTH * HIDDEN_SIZE)) (Fin 0) in
      andthen (write_at (replicate (nat MAX_SEQUENCE_LENGTH) (Fin 0)) 0 (Fin 1))
        (\<lambda>warmup_attention.
      andthen (read_at (decoder_input_buffers l) 0) (\<lambda>dec_hidden_buffer.
      case TensorBuffer_Write api b3 dec_hidden_buffer warmup_hidden_states
      of (b4, write_hidden_ok) \<Rightarrow>
      if \<not> write_hidden_ok then Inr (False, b4) else
      andthen (read_at (decoder_input_buffers l) 1) (\<lambda>mask_buffer.
      case TensorBuffer_Write api b4 mask_buffer warmup_attention of (b5, write_mask_ok) \<Rightarrow>
      if \<not> write_mask_ok then Inr (False, b5) else
      andthen (read_at (decoder_input_buffers l) 2) (\<lambda>emb_buffer.
      case TensorBuffer_Write api b5 emb_buffer warmup_embeddings
      of (b6, write_embeddings_ok) \<Rightarrow>
      if \<not> write_embeddings_ok then Inr (False, b6) else
      andthen (deref (compiled_decoder l)) (\<lambda>decoder.
      case CompiledModel_Run api b6 decoder (decoder_input_buffers l) (decoder_output_buffers l)
      of (b7, decoder_run_ok) \<Rightarrow>
      Inr (decoder_run_ok, b7))))))))))"

section \<open>Initialization\<close>

text \<open>
  \<^verbatim>\<open>Initialize\<close> is modelled in three parts. The first is the block that holds
  \<^verbatim>\<open>g_env_mutex\<close>: the shared environment is created only when \<^verbatim>\<open>g_persist_env\<close> has
  no value.
\<close>

definition acquire_shared_environment ::
  "'b litert_api \<Rightarrow> 'b process \<Rightarrow> string \<Rightarrow> 'b process \<times> bool" where
  "acquire_shared_environment api w native_lib_dir =
     (case g_persist_env w of
        Some v \<Rightarrow> (w, True)
      | None \<Rightarrow>
         (case Environment_Create api (backend w) (Some native_lib_dir) of (b, env_result) \<Rightarrow>
            (w\<lparr>g_persist_env := env_result, backend := b,
               events := events w @ [SharedEnvCreate]\<rparr>, env_result \<noteq> None)))"

text \<open>
  The second part: the four \<^verbatim>\<open>dlopen\<close> probes look for an OpenCL library; with one the GPU
  is tried, and the pages of the model files are given back when it compiled; without one,
  or when the GPU compilation failed, the CPU is tried.
\<close>

definition compile_models ::
  "'b litert_api \<Rightarrow> 'b process \<Rightarrow> LiteRtObjects \<Rightarrow> AAsset \<Rightarrow> AAsset \<Rightarrow>
   fault + (bool \<times> 'b process \<times> LiteRtObjects)" where
  "compile_models api w l encoder_data decoder_data =
     (let opencl_available =
            (dlopen api (backend w) ''libOpenCL.so'' \<or>
             dlopen api (backend w) ''libOpenCL-pixel.so'' \<or>
             dlopen api (backend w) ''libOpenCL-car.so'' \<or>
             dlopen api (backend w) ''/vendor/lib64/libOpenCL.so'')
      in andthen (if opencl_available
                  then TryCompileWithGpu api w l encoder_data decoder_data
                  else Inr (False, w, l)) (\<lambda>(gpu_compiled, w3, l3).
         if gpu_compiled
         then Inr (True,
                   w3\<lparr>events := events w3 @
                        [ReleaseSystemPages (asset_handle encoder_data),
                         ReleaseSystemPages (asset_handle decoder_data)]\<rparr>, l3)
         else TryCompileWithCpu api w3 l3 encoder_data decoder_data))"

text \<open>
  \<^verbatim>\<open>Initialize\<close>. Its \<^verbatim>\<open>return false\<close> statements leave the function directly; only
  the \<^verbatim>\<open>catch\<close> block calls \<^verbatim>\<open>Close\<close>. Exceptions are modelled where the function
  itself allocates: \<^verbatim>\<open>std::make_unique<LiteRtObjects>\<close> and the final \<^verbatim>\<open>resize\<close>
  calls may throw \<^verbatim>\<open>std::bad_alloc\<close>. Assigning \<^verbatim>\<open>litert_\<close> destroys the object it
  held before.
\<close>

definition Initialize ::
  "'b litert_api \<Rightarrow> 'b process \<Rightarrow> OcrInference \<Rightarrow> AAsset \<Rightarrow> AAsset \<Rightarrow> AAsset \<Rightarrow>
   string \<Rightarrow> string \<Rightarrow> fault + (bool \<times> 'b process \<times> OcrInference)" where
  "Initialize api w e encoder_asset' decoder_asset' embeddings_asset' cache_dir native_lib_dir =
     (if initialized e then Inr (False, w, e) else
      let e1 = e\<lparr>encoder_asset := Some encoder_asset', decoder_asset := Some decoder_asset',
                 embeddings_asset := Some embeddings_asset',
                 embeddings_data := asset_floats embeddings_asset',
                 embedding_count := asset_length embeddings_asset' div 4\<rparr> in
      if bad_alloc api (backend w) LiteRtObjects_alloc
      then (case Close (w, e1) of (w', e') \<Rightarrow> Inr (False, w', e')) else
      let w1 = w\<lparr>events := events w @
                   (case litert e1 of None \<Rightarrow> [] | Some old \<Rightarrow> destroy_LiteRtObjects old)\<rparr>;
          e2 = e1\<lparr>litert := Some new_LiteRtObjects\<rparr> in
      case acquire_shared_environment api w1 native_lib_dir of (w2, env_ok) \<Rightarrow>
      if \<not> env_ok then Inr (False, w2, e2) else
      andthen (compile_models api w2 new_LiteRtObjects encoder_asset' decoder_asset')
        (\<lambda>(compiled, w5, l5).
      if \<not> compiled then Inr (False, w5, e2\<lparr>litert := Some l5\<rparr>) else
      let l6 = l5\<lparr>using_gpu := (encoder_using_gpu l5 \<and> decoder_using_gpu l5)\<rparr> in
      andthen (CreateBuffers api (backend w5) e2 l6) (\<lambda>(buffers_ok, b7, e7, l7).
      if \<not> buffers_ok then Inr (False, w5\<lparr>backend := b7\<rparr>, e7\<lparr>litert := Some l7\<rparr>) else
      andthen (PerformWarmup api b7 l7) (\<lambda>(warm, b8).
      let w8 = w5\<lparr>backend := b8\<rparr>;
          e8 = e7\<lparr>litert := Some l7\<rparr> in
      if \<not> warm then Inr (False, w8, e8) else
      if bad_alloc api b8 working_memory_alloc
      then (case Close (w8, e8) of (w', e') \<Rightarrow> Inr (False, w', e')) else
      Inr (True, w8,
           e8\<lparr>embeddings_input :=
                 resize (nat (MAX_SEQUENCE_LENGTH * HIDDEN_SIZE)) (embeddings_input e8),
               attention_mask := resize (nat MAX_SEQUENCE_LENGTH) (attention_mask e8),
               initialized := True\<rparr>)))))"

section \<open>Conditions on the engine and on the runtime\<close>

text \<open>
  An engine on which \<^verbatim>\<open>InferTokens\<close> can run without leaving its arrays: it is
  initialized, the encoder has an input and an output buffer, the decoder three input
  buffers and an output buffer, the working vectors have the sizes \<^verbatim>\<open>Initialize\<close> gives
  them, the logits vector holds a row of \<^verbatim>\<open>VOCAB_SIZE\<close> scores for each of the
  \<^verbatim>\<open>MAX_SEQUENCE_LENGTH\<close> positions, and the embedding table a row for each token of the
  vocabulary.
\<close>

definition ready_for_inference :: "OcrInference \<Rightarrow> bool" where
  "ready_for_inference e =
     (initialized e \<and>
      (case litert e of
         None \<Rightarrow> False
       | Some l \<Rightarrow>
           encoder_input_buffers l \<noteq> [] \<and> encoder_output_buffers l \<noteq> [] \<and>
           3 \<le> length (decoder_input_buffers l) \<and> decoder_output_buffers l \<noteq> [] \<and>
           compiled_encoder l \<noteq> None \<and> compiled_decoder l \<noteq> None \<and>
           MAX_SEQUENCE_LENGTH * VOCAB_SIZE \<le> int (length (decoder_logits l))) \<and>
      int (length (embeddings_input e)) = MAX_SEQUENCE_LENGTH * HIDDEN_SIZE \<and>
      int (length (attention_mask e)) = MAX_SEQUENCE_LENGTH \<and>
      VOCAB_SIZE * HIDDEN_SIZE \<le> int (length (embeddings_data e)))"

text \<open>A runtime in which no write, run or read ever fails.\<close>

definition runtime_never_fails :: "'b litert_api \<Rightarrow> bool" where
  "runtime_never_fails api =
     ((\<forall>b t d. snd (TensorBuffer_Write api b t d)) \<and>
      (\<forall>b m ins outs. snd (CompiledModel_Run api b m ins outs)) \<and>
      (\<forall>b t n. snd (TensorBuffer_Read api b t n) \<noteq> None))"

text \<open>A runtime whose logits never make the greedy selection choose the END token.\<close>

definition never_selects_END :: "'b litert_api \<Rightarrow> bool" where
  "never_selects_END api =
     (\<forall>b t n ys old seq_len.
        snd (TensorBuffer_Read api b t n) = Some ys \<and> length old = n \<longrightarrow>
        FindMaxLogitToken (span_store old ys) seq_len \<noteq> Inr END_TOKEN_ID)"

text \<open>
  The two conditions as conditions on the steps of one call rather than on the runtime. The
  part of \<^verbatim>\<open>InferTokens\<close> before the loop fails when its write, run, read or second
  write does, which makes the call return 0.
\<close>

definition encoder_fails ::
  "'b litert_api \<Rightarrow> 'b \<Rightarrow> OcrInference \<Rightarrow> LiteRtObjects \<Rightarrow> cfloat list \<Rightarrow> int list \<Rightarrow> bool" where
  "encoder_fails api b e l image_data out_tokens =
     (case run_encoder api b e l image_data out_tokens of Inl f \<Rightarrow> False | Inr r \<Rightarrow> isl r)"

text \<open>
  A pass through the loop body fails when one of its two writes, its run or its read does;
  it selects the END token when they succeed and the greedy selection on the logits that
  were read is the END token.
\<close>

definition pass_fails :: "'b litert_api \<Rightarrow> LiteRtObjects \<Rightarrow> 'b decode_state \<Rightarrow> bool" where
  "pass_fails api l s = (case run_decoder api l s of Inl f \<Rightarrow> False | Inr r \<Rightarrow> isl r)"

definition pass_selects_END :: "'b litert_api \<Rightarrow> LiteRtObjects \<Rightarrow> 'b decode_state \<Rightarrow> bool" where
  "pass_selects_END api l s =
     (case run_decoder api l s of
        Inl f \<Rightarrow> False
      | Inr r \<Rightarrow>
         (case r of
            Inl b \<Rightarrow> False
          | Inr (b4, ys) \<Rightarrow>
              FindMaxLogitToken (span_store (ds_decoder_logits s) ys) (ds_token_count s) =
                Inr END_TOKEN_ID))"

text \<open>What a call of \<^verbatim>\<open>InferTokens\<close> hands back: the count, and the tokens it counts.\<close>

definition returned_count :: "fault + (int \<times> int list \<times> 'b \<times> OcrInference) \<Rightarrow> int option" where
  "returned_count r = (case r of Inl f \<Rightarrow> None | Inr x \<Rightarrow> Some (fst x))"

definition returned_tokens ::
  "fault + (int \<times> int list \<times> 'b \<times> OcrInference) \<Rightarrow> int list option" where
  "returned_tokens r =
     (case r of Inl f \<Rightarrow> None | Inr x \<Rightarrow> Some (take (nat (fst x)) (fst (snd x))))"

text \<open>The invariant of the decode loop on the sizes of the vectors.\<close>

definition sized :: "LiteRtObjects \<Rightarrow> cfloat list \<Rightarrow> 'b decode_state \<Rightarrow> bool" where
  "sized l data s =
     (3 \<le> length (decoder_input_buffers l) \<and> decoder_output_buffers l \<noteq> [] \<and>
      compiled_decoder l \<noteq> None \<and>
      MAX_SEQUENCE_LENGTH * VOCAB_SIZE \<le> int (length (ds_decoder_logits s)) \<and>
      int (length (ds_embeddings_input s)) = MAX_SEQUENCE_LENGTH * HIDDEN_SIZE \<and>
      int (length (ds_attention_mask s)) = MAX_SEQUENCE_LENGTH \<and>
      VOCAB_SIZE * HIDDEN_SIZE \<le> int (length data) \<and>
      MAX_SEQUENCE_LENGTH \<le> int (length (ds_out_tokens s)))"

text \<open>
  The counter on the creation of the shared environment: the number of calls of
  \<^verbatim>\<open>Environment::Create\<close> made for \<^verbatim>\<open>g_persist_env\<close> so far.
\<close>

definition shared_env_creations :: "'b process \<Rightarrow> nat" where
  "shared_env_creations w = length (filter (\<lambda>ev. ev = SharedEnvCreate) (events w))"

text \<open>
  A model file whose compiled form reports, whenever it is asked, that it is not fully
  accelerated.
\<close>

definition reports_partial_acceleration :: "'b litert_api \<Rightarrow> AAsset \<Rightarrow> bool" where
  "reports_partial_acceleration api model_data =
     (\<forall>b env opts m.
        snd (CompiledModel_Create api b env model_data opts) = Some m \<longrightarrow>
        (\<forall>b'. IsFullyAccelerated api b' m = Some False))"

section \<open>A runtime of pure functions\<close>

text \<open>
  A runtime in which the compiled models are pure functions from the contents of their
  input buffers to the contents of their output buffers. The state of the runtime is the
  contents of every tensor buffer. A write replaces the contents of a buffer when \<open>accepts\<close>
  allows it; a run fails when the model does, or when it does not deliver one output per
  output buffer; a read of \<open>n\<close> floats fails when the buffer holds fewer. The other
  operations are those of \<open>base\<close>.
\<close>

definition store_outputs ::
  "tensor_buffer list \<Rightarrow> cfloat list list \<Rightarrow> (tensor_buffer \<Rightarrow> cfloat list) \<Rightarrow>
   (tensor_buffer \<Rightarrow> cfloat list)" where
  "store_outputs outs ys b = fold (\<lambda>(t, y) b. b(t := y)) (zip outs ys) b"

definition pure_api ::
  "(tensor_buffer \<Rightarrow> cfloat list) litert_api \<Rightarrow>
   (compiled_model \<Rightarrow> cfloat list list \<Rightarrow> cfloat list list option) \<Rightarrow>
   (tensor_buffer \<Rightarrow> cfloat list \<Rightarrow> bool) \<Rightarrow>
   (tensor_buffer \<Rightarrow> cfloat list) litert_api" where
  "pure_api base model accepts =
     base\<lparr>TensorBuffer_Write :=
            (\<lambda>b t d. if accepts t d then (b(t := d), True) else (b, False)),
          TensorBuffer_Read :=
            (\<lambda>b t n. (b, if n \<le> length (b t) then Some (take n (b t)) else None)),
          CompiledModel_Run :=
            (\<lambda>b m ins outs.
               case model m (map b ins) of
                 None \<Rightarrow> (b, False)
               | Some ys \<Rightarrow>
                   if length ys = length outs then (store_outputs outs ys b, True)
                   else (b, False))\<rparr>"

text \<open>
  Two decoding states that a pass through the loop body cannot tell apart: the same
  count, the same tokens so far in arrays of the same size, the same embeddings and mask,
  logits vectors of the same size, and the same contents of the first decoder input buffer.
\<close>

definition same_decoding ::
  "tensor_buffer \<Rightarrow> (tensor_buffer \<Rightarrow> cfloat list) decode_state \<Rightarrow>
   (tensor_buffer \<Rightarrow> cfloat list) decode_state \<Rightarrow> bool" where
  "same_decoding d0 s s' =
     (ds_token_count s' = ds_token_count s \<and>
      take (nat (ds_token_count s)) (ds_out_tokens s') =
        take (nat (ds_token_count s)) (ds_out_tokens s) \<and>
      length (ds_out_tokens s') = length (ds_out_tokens s) \<and>
      ds_embeddings_input s' = ds_embeddings_input s \<and>
      ds_attention_mask s' = ds_attention_mask s \<and>
      length (ds_decoder_logits s') = length (ds_decoder_logits s) \<and>
      ds_backend s' d0 = ds_backend s d0)"

definition same_tokens ::
  "(tensor_buffer \<Rightarrow> cfloat list) decode_state \<Rightarrow>
   (tensor_buffer \<Rightarrow> cfloat list) decode_state \<Rightarrow> bool" where
  "same_tokens s s' =
     (ds_token_count s' = ds_token_count s \<and>
      take (nat (ds_token_count s)) (ds_out_tokens s') =
        take (nat (ds_token_count s)) (ds_out_tokens s))"

text \<open>
  Two engines that differ at most in the contents, not the sizes, of the vectors that
  \<^verbatim>\<open>InferTokens\<close> overwrites.
\<close>

definition same_shape :: "LiteRtObjects \<Rightarrow> LiteRtObjects \<Rightarrow> bool" where
  "same_shape l l' =
     (l' = l\<lparr>encoder_hidden_states := encoder_hidden_states l',
            decoder_logits := decoder_logits l'\<rparr> \<and>
      length (encoder_hidden_states l') = length (encoder_hidden_states l) \<and>
      length (decoder_logits l') = length (decoder_logits l))"

definition same_engine :: "OcrInference \<Rightarrow> OcrInference \<Rightarrow> bool" where
  "same_engine e e' =
     (initialized e' = initialized e \<and> embeddings_data e' = embeddings_data e \<and>
      length (embeddings_input e') = length (embeddings_input e) \<and>
      length (attention_mask e') = length (attention_mask e) \<and>
      (case litert e of
         None \<Rightarrow> litert e' = None
       | Some l \<Rightarrow> (case litert e' of None \<Rightarrow> False | Some l' \<Rightarrow> same_shape l l')))"

text \<open>The numbers of input buffers that \<^verbatim>\<open>InferTokens\<close> writes: one for the encoder, three
  for the decoder.\<close>

definition model_shape :: "OcrInference \<Rightarrow> bool" where
  "model_shape e =
     (case litert e of
        None \<Rightarrow> True
      | Some l \<Rightarrow> length (encoder_input_buffers l) = 1 \<and> length (decoder_input_buffers l) = 3)"

text \<open>The vectors of two decoding states have the same sizes.\<close>

definition same_sizes :: "'b decode_state \<Rightarrow> 'b decode_state \<Rightarrow> bool" where
  "same_sizes s t =
     (length (ds_embeddings_input t) = length (ds_embeddings_input s) \<and>
      length (ds_attention_mask t) = length (ds_attention_mask s) \<and>
      length (ds_decoder_logits t) = length (ds_decoder_logits s))"

section \<open>A scripted runtime for concrete runs\<close>

text \<open>
  A runtime given by a script: its state counts the buffer writes so far, \<open>write_ok\<close>
  tells which of them succeed and \<open>env_ok\<close> whether environments can be created. An OpenCL
  library is found, every compilation succeeds, the GPU models report that they are not
  fully accelerated, buffers are created, runs and reads succeed, and every read delivers
  zeros, so that the greedy selection picks token 0.
\<close>

definition scripted_api :: "(nat \<Rightarrow> bool) \<Rightarrow> bool \<Rightarrow> nat litert_api" where
  "scripted_api write_ok env_ok =
     \<lparr>Environment_Create =
        (\<lambda>b dir. (b, if env_ok
                      then Some (Environment (case dir of None \<Rightarrow> 1 | Some d \<Rightarrow> 0))
                      else None)),
      dlopen = (\<lambda>b name. True),
      Options_Create = (\<lambda>b. (b, True)),
      SetHardwareAccelerators = (\<lambda>b a. (b, True)),
      GetGpuOptions = (\<lambda>b. True),
      GetCpuOptions = (\<lambda>b. True),
      CompiledModel_Create = (\<lambda>b env a opts. (b, Some (CompiledModel (asset_handle a)))),
      IsFullyAccelerated = (\<lambda>b m. Some False),
      CreateInputBuffers =
        (\<lambda>b m. (b, Some (if m = CompiledModel 0 then [TensorBuffer 0]
                          else [TensorBuffer 2, TensorBuffer 3, TensorBuffer 4]))),
      CreateOutputBuffers =
        (\<lambda>b m. (b, Some (if m = CompiledModel 0 then [TensorBuffer 1] else [TensorBuffer 5]))),
      TensorBuffer_Size =
        (\<lambda>b t. Some (if t = TensorBuffer 1 then 4000 else 4 * (300 * 6144))),
      TensorBuffer_Write = (\<lambda>b t d. (Suc b, write_ok b)),
      TensorBuffer_Read = (\<lambda>b t n. (b, Some (replicate n (Fin 0)))),
      CompiledModel_Run = (\<lambda>b m ins outs. (b, True)),
      hardware_concurrency = (\<lambda>b. 8),
      bad_alloc = (\<lambda>b site. False)\<rparr>"

text \<open>
  Three scripts: nothing fails; the write with number 16 fails (after the four writes of
  the warmup and the two writes before the decode loop it is the write of the attention
  mask at decode step 5); no environment can be created.
\<close>

definition healthy_api :: "nat litert_api" where
  "healthy_api = scripted_api (\<lambda>k. True) True"


definition no_environment_api :: "nat litert_api" where
  "no_environment_api = scripted_api (\<lambda>k. True) False"

text \<open>A script in which the first buffer write, the one of the warmup, fails.\<close>

definition failing_warmup_api :: "nat litert_api" where
  "failing_warmup_api = scripted_api (\<lambda>k. k \<noteq> 0) True"

definition test_encoder_asset :: AAsset where
  "test_encoder_asset = \<lparr>asset_handle = 0, asset_length = 0, asset_floats = []\<rparr>"

definition test_decoder_asset :: AAsset where
  "test_decoder_asset = \<lparr>asset_handle = 1, asset_length = 0, asset_floats = []\<rparr>"

definition test_embeddings_asset :: AAsset where
  "test_embeddings_asset =
     \<lparr>asset_handle = 2, asset_length = 4 * (6144 * 768),
      asset_floats = replicate (6144 * 768) (Fin 0)\<rparr>"

text \<open>A process in which nothing has happened yet.\<close>

definition new_process :: "nat process" where
  "new_process = \<lparr>g_persist_env = None, backend = 0, events = []\<rparr>"

text \<open>The engine that \<^verbatim>\<open>Initialize\<close> builds from these assets on the scripted runtime.\<close>

definition test_engine :: OcrInference where
  "test_engine =
     \<lparr>litert = Some
        \<lparr>cpu_env = Some (Environment 1),
         compiled_encoder = Some (CompiledModel 0), compiled_decoder = Some (CompiledModel 1),
         encoder_input_buffers = [TensorBuffer 0], encoder_output_buffers = [TensorBuffer 1],
         decoder_input_buffers = [TensorBuffer 2, TensorBuffer 3, TensorBuffer 4],
         decoder_output_buffers = [TensorBuffer 5],
         encoder_hidden_states = replicate 1000 (Fin 0),
         decoder_logits = replicate (300 * 6144) (Fin 0),
         using_gpu = False, encoder_using_gpu = False, decoder_using_gpu = False\<rparr>,
      encoder_asset = Some test_encoder_asset, decoder_asset = Some test_decoder_asset,
      embeddings_asset = Some test_embeddings_asset,
      embeddings_data = replicate (6144 * 768) (Fin 0), embedding_count = 6144 * 768,
      embeddings_input = replicate (300 * 768) (Fin 0),
      attention_mask = replicate 300 (Fin 0),
      initialized = True, encoder_output_size = 1000, decoder_output_size = 300 * 6144\<rparr>"

text \<open>The same engine after \<^verbatim>\<open>Close\<close>.\<close>

definition closed_test_engine :: OcrInference where
  "closed_test_engine =
     test_engine\<lparr>litert := None, encoder_asset := None, decoder_asset := None,
       embeddings_asset := None, attention_mask := [], initialized := False\<rparr>"

text \<open>
  The engine and the process as \<^verbatim>\<open>Initialize\<close> leaves them when the warmup fails on a
  new engine: every model, buffer and asset is still in place.
\<close>

definition engine_after_failed_warmup :: OcrInference where
  "engine_after_failed_warmup =
     test_engine\<lparr>embeddings_input := [], attention_mask := [], initialized := False\<rparr>"

definition process_after_failed_warmup :: "nat process" where
  "process_after_failed_warmup =
     \<lparr>g_persist_env = Some (Environment 0), backend = 1,
      events = [SharedEnvCreate, CompiledModelDestroyed (CompiledModel 0),
                CompiledModelDestroyed (CompiledModel 1), CpuEnvCreate]\<rparr>"

definition test_image :: "cfloat list" where
  "test_image = replicate (224 * 224 * 3) (Fin 0)"

text \<open>The caller's token array, of \<^verbatim>\<open>MAX_SEQUENCE_LENGTH\<close> entries as in \<^verbatim>\<open>ocr_native.cpp\<close>.\<close>

definition test_token_buffer :: "int list" where
  "test_token_buffer = replicate 300 0"

section \<open>A runtime whose models deliver zeros\<close>

text \<open>
  A runtime in which every operation that \<^verbatim>\<open>InferTokens\<close> does not use fails. It is the
  base of the runtime below.
\<close>

definition idle_api :: "'b litert_api" where
  "idle_api =
     \<lparr>Environment_Create = (\<lambda>b dir. (b, None)),
      dlopen = (\<lambda>b name. False),
      Options_Create = (\<lambda>b. (b, False)),
      SetHardwareAccelerators = (\<lambda>b a. (b, False)),
      GetGpuOptions = (\<lambda>b. False),
      GetCpuOptions = (\<lambda>b. False),
      CompiledModel_Create = (\<lambda>b env a opts. (b, None)),
      IsFullyAccelerated = (\<lambda>b m. None),
      CreateInputBuffers = (\<lambda>b m. (b, None)),
      CreateOutputBuffers = (\<lambda>b m. (b, None)),
      TensorBuffer_Size = (\<lambda>b t. None),
      TensorBuffer_Write = (\<lambda>b t d. (b, False)),
      TensorBuffer_Read = (\<lambda>b t n. (b, None)),
      CompiledModel_Run = (\<lambda>b m ins outs. (b, False)),
      hardware_concurrency = (\<lambda>b. 0),
      bad_alloc = (\<lambda>b site. False)\<rparr>"

text \<open>
  Two models as pure functions: the encoder, model 0, delivers 1000 zeros and the decoder
  \<^verbatim>\<open>MAX_SEQUENCE_LENGTH * VOCAB_SIZE\<close> zeros, whatever their inputs hold. Every write is
  accepted.
\<close>

definition zero_model :: "compiled_model \<Rightarrow> cfloat list list \<Rightarrow> cfloat list list option" where
  "zero_model m ins =
     Some [replicate (if m = CompiledModel 0 then 1000 else 300 * 6144) (Fin 0)]"

definition zero_api :: "(tensor_buffer \<Rightarrow> cfloat list) litert_api" where
  "zero_api = pure_api idle_api zero_model (\<lambda>t d. True)"

text \<open>Tensor buffers that hold nothing yet.\<close>

definition empty_buffers :: "tensor_buffer \<Rightarrow> cfloat list" where
  "empty_buffers = (\<lambda>t. [])"

section \<open>Properties of the thread count\<close>

lemma sint_small_word:
  fixes hw :: "32 word"
  assumes "unat hw \<le> 4"
  shows "sint hw = int (unat hw)"
proof -
  have u: "uint hw = int (unat hw)" by (rule uint_nat)
  have hi: "uint hw \<le> 4" using assms unfolding u by linarith
  have lo: "0 \<le> uint hw" unfolding u by linarith
  have p: "(2::int) ^ 31 = 2147483648" by simp
  have "signed_take_bit 31 (uint hw) = uint hw"
  proof (rule signed_take_bit_int_eq_self)
    show "- (2 ^ 31) \<le> uint hw" using lo p by linarith
    show "uint hw < 2 ^ 31" using hi p by linarith
  qed
  moreover have "sint hw = signed_take_bit 31 (uint hw)"
    by (simp add: sint_uint)
  ultimately show ?thesis using u by linarith
qed

lemma sint_min_4:
  fixes hw :: "32 word"
  shows "sint (min hw 4) = int (min (unat hw) 4)"
proof -
  have "unat (min hw 4) = min (unat hw) 4"
    by (simp add: min_def word_le_nat_alt)
  moreover have "unat (min hw 4) \<le> 4"
    by (simp add: min_def word_le_nat_alt)
  ultimately show ?thesis using sint_small_word [of "min hw 4"] by simp
qed

text \<open>
  Claim C6, as the code has it: the thread count is 2 when hardware concurrency is reported
  as 0, and \<open>min(hardware_concurrency, 4)\<close> otherwise; it always lies between 1 and 4, and it
  is at least 2 unless exactly one hardware thread is reported.
\<close>

theorem GetOptimalThreadCount_value:
  "(hw = 0 \<longrightarrow> GetOptimalThreadCount hw = 2) \<and>
   (hw \<noteq> 0 \<longrightarrow> GetOptimalThreadCount hw = int (min (unat hw) 4)) \<and>
   1 \<le> GetOptimalThreadCount hw \<and> GetOptimalThreadCount hw \<le> 4 \<and>
   (hw \<noteq> 1 \<longrightarrow> 2 \<le> GetOptimalThreadCount hw)"
proof -
  have nz: "hw \<noteq> 0 \<Longrightarrow> 1 \<le> unat hw"
    by (simp add: unat_gt_0 Suc_leI)
  have n1: "hw \<noteq> 0 \<Longrightarrow> hw \<noteq> 1 \<Longrightarrow> 2 \<le> unat hw"
  proof -
    assume a: "hw \<noteq> 0" "hw \<noteq> 1"
    have "unat hw \<noteq> 0" using a(1) by (simp add: unat_eq_0)
    moreover have "unat hw \<noteq> 1" using a(2) by (simp add: word_unat_eq_iff)
    ultimately show ?thesis by arith
  qed
  show ?thesis
  proof (cases "hw = 0")
    case True
    then show ?thesis by (simp add: GetOptimalThreadCount_def)
  next
    case False
    then have r: "GetOptimalThreadCount hw = int (min (unat hw) 4)"
      by (simp add: GetOptimalThreadCount_def sint_min_4)
    have "1 \<le> min (unat hw) 4" using nz [OF False] by simp
    moreover have "hw \<noteq> 1 \<Longrightarrow> 2 \<le> min (unat hw) 4" using n1 [OF False] by simp
    ultimately show ?thesis using False unfolding r by auto
  qed
qed

theorem GetOptimalThreadCount_value_witness:
  "GetOptimalThreadCount 0 = 2 \<and> GetOptimalThreadCount 8 = 4 \<and> GetOptimalThreadCount 3 = 3"
  using GetOptimalThreadCount_value [of 0] GetOptimalThreadCount_value [of 8]
    GetOptimalThreadCount_value [of 3]
  by simp

theorem GetOptimalThreadCount_single_core: "\<not> 2 \<le> GetOptimalThreadCount 1"
  by (simp add: GetOptimalThreadCount_def)

section \<open>Properties of the greedy selection\<close>

lemma fgt_irrefl: "\<not> fgt x x"
  by (cases x) simp_all

lemma find_max_loop_range:
  "find_max_loop logits base i m t = Inr r \<Longrightarrow> 0 \<le> t \<Longrightarrow> t < VOCAB_SIZE \<Longrightarrow> 0 \<le> i \<Longrightarrow>
   0 \<le> r \<and> r < VOCAB_SIZE"
proof (induction logits base i m t rule: find_max_loop.induct)
  case (1 logits base i m t)
  show ?case
  proof (cases "i < VOCAB_SIZE")
    case False
    with "1.prems" show ?thesis by (simp add: find_max_loop.simps [of logits base i])
  next
    case True
    then obtain x where rd: "read_at logits (base + i) = Inr x"
      using "1.prems"(1) by (cases "read_at logits (base + i)") (simp_all add: find_max_loop.simps [of logits base i])
    show ?thesis
    proof (cases "fgt x m")
      case gt: True
      with True rd "1.prems" have "find_max_loop logits base (i + 1) x i = Inr r"
        by (simp add: find_max_loop.simps [of logits base i])
      from "1.IH"(1) [OF True rd gt this] "1.prems" True show ?thesis by simp
    next
      case ngt: False
      with True rd "1.prems" have "find_max_loop logits base (i + 1) m t = Inr r"
        by (simp add: find_max_loop.simps [of logits base i])
      from "1.IH"(2) [OF True rd ngt this] "1.prems" show ?thesis by simp
    qed
  qed
qed

lemma find_max_loop_defined:
  "0 \<le> base + i \<Longrightarrow> base + VOCAB_SIZE \<le> int (length logits) \<Longrightarrow>
   \<exists>r. find_max_loop logits base i m t = Inr r"
proof (induction logits base i m t rule: find_max_loop.induct)
  case (1 logits base i m t)
  show ?case
  proof (cases "i < VOCAB_SIZE")
    case False
    then show ?thesis by (simp add: find_max_loop.simps [of logits base i])
  next
    case True
    with "1.prems" have rd: "read_at logits (base + i) = Inr (logits ! nat (base + i))"
      by (simp add: read_at_def)
    show ?thesis
    proof (cases "fgt (logits ! nat (base + i)) m")
      case gt: True
      from "1.IH"(1) [OF True rd gt] "1.prems" obtain r
        where "find_max_loop logits base (i + 1) (logits ! nat (base + i)) i = Inr r" by auto
      with True rd gt show ?thesis by (simp add: find_max_loop.simps [of logits base i])
    next
      case ngt: False
      from "1.IH"(2) [OF True rd ngt] "1.prems" obtain r
        where "find_max_loop logits base (i + 1) m t = Inr r" by auto
      with True rd ngt show ?thesis by (simp add: find_max_loop.simps [of logits base i])
    qed
  qed
qed

lemma find_max_loop_no_greater:
  "0 \<le> base + i \<Longrightarrow> base + VOCAB_SIZE \<le> int (length logits) \<Longrightarrow>
   (\<forall>j. i \<le> j \<and> j < VOCAB_SIZE \<longrightarrow> \<not> fgt (logits ! nat (base + j)) m) \<Longrightarrow>
   find_max_loop logits base i m t = Inr t"
proof (induction logits base i m t rule: find_max_loop.induct)
  case (1 logits base i m t)
  show ?case
  proof (cases "i < VOCAB_SIZE")
    case False
    then show ?thesis by (simp add: find_max_loop.simps [of logits base i])
  next
    case True
    with "1.prems" have rd: "read_at logits (base + i) = Inr (logits ! nat (base + i))"
      by (simp add: read_at_def)
    from "1.prems"(3) True have ngt: "\<not> fgt (logits ! nat (base + i)) m" by simp
    from "1.IH"(2) [OF True rd ngt] "1.prems"
    have "find_max_loop logits base (i + 1) m t = Inr t" by simp
    with True rd ngt show ?thesis by (simp add: find_max_loop.simps [of logits base i])
  qed
qed

lemma FindMaxLogitToken_range:
  "FindMaxLogitToken logits seq_len = Inr t \<Longrightarrow> 0 \<le> t \<and> t < VOCAB_SIZE"
  unfolding FindMaxLogitToken_def Let_def
  by (cases "read_at logits ((seq_len - 1) * VOCAB_SIZE)")
     (auto dest!: find_max_loop_range simp: VOCAB_SIZE_def)

lemma FindMaxLogitToken_defined:
  assumes "0 < seq_len" "seq_len * VOCAB_SIZE \<le> int (length logits)"
  shows "\<exists>t. FindMaxLogitToken logits seq_len = Inr t"
proof -
  let ?base = "(seq_len - 1) * VOCAB_SIZE"
  have b0: "0 \<le> ?base" using assms(1) by (simp add: VOCAB_SIZE_def)
  have b1: "?base + VOCAB_SIZE \<le> int (length logits)"
    using assms(2) by (simp add: algebra_simps)
  have "?base < int (length logits)" using b1 by (simp add: VOCAB_SIZE_def)
  with b0 have rd: "read_at logits ?base = Inr (logits ! nat ?base)"
    by (simp add: read_at_def)
  from find_max_loop_defined [of ?base 1 logits] b0 b1
  obtain r where "find_max_loop logits ?base 1 (logits ! nat ?base) 0 = Inr r" by force
  with rd show ?thesis by (simp add: FindMaxLogitToken_def Let_def)
qed

lemma FindMaxLogitToken_constant:
  assumes "0 < seq_len" "seq_len * VOCAB_SIZE \<le> int n"
  shows "FindMaxLogitToken (replicate n c) seq_len = Inr 0"
proof -
  let ?base = "(seq_len - 1) * VOCAB_SIZE"
  have b0: "0 \<le> ?base" using assms(1) by (simp add: VOCAB_SIZE_def)
  have b1: "?base + VOCAB_SIZE \<le> int n"
    using assms(2) by (simp add: algebra_simps)
  have lt: "?base < int n" using b1 by (simp add: VOCAB_SIZE_def)
  with b0 have rd: "read_at (replicate n c) ?base = Inr c"
    by (simp add: read_at_def)
  have "find_max_loop (replicate n c) ?base 1 c 0 = Inr 0"
  proof (rule find_max_loop_no_greater)
    show "0 \<le> ?base + 1" using b0 by simp
    show "?base + VOCAB_SIZE \<le> int (length (replicate n c))" using b1 by simp
    show "\<forall>j. 1 \<le> j \<and> j < VOCAB_SIZE \<longrightarrow> \<not> fgt (replicate n c ! nat (?base + j)) c"
    proof (intro allI impI)
      fix j assume j: "1 \<le> j \<and> j < VOCAB_SIZE"
      then have "nat (?base + j) < n" using b0 b1 by linarith
      then show "\<not> fgt (replicate n c ! nat (?base + j)) c" by (simp add: fgt_irrefl)
    qed
  qed
  with rd show ?thesis by (simp add: FindMaxLogitToken_def Let_def)
qed

text \<open>
  Claim C10: whenever \<^verbatim>\<open>FindMaxLogitToken\<close> returns, the token it returns is an index of
  the vocabulary, at least 0 and below \<^verbatim>\<open>VOCAB_SIZE\<close>; so the test
  \<^verbatim>\<open>next_token < 0 || next_token == END_TOKEN_ID\<close> of the decode loop holds only for the
  END token. It does return when the logits vector holds the row of the last token.
\<close>

theorem FindMaxLogitToken_in_vocabulary:
  "(\<forall>t. FindMaxLogitToken logits seq_len = Inr t \<longrightarrow>
      0 \<le> t \<and> t < VOCAB_SIZE \<and> ((t < 0 \<or> t = END_TOKEN_ID) = (t = END_TOKEN_ID))) \<and>
   (0 < seq_len \<and> seq_len * VOCAB_SIZE \<le> int (length logits) \<longrightarrow>
      (\<exists>t. FindMaxLogitToken logits seq_len = Inr t))"
proof (intro conjI allI impI)
  fix t assume r: "FindMaxLogitToken logits seq_len = Inr t"
  from FindMaxLogitToken_range [OF r] show "0 \<le> t" and "t < VOCAB_SIZE" by simp_all
  from FindMaxLogitToken_range [OF r]
  show "(t < 0 \<or> t = END_TOKEN_ID) = (t = END_TOKEN_ID)" by auto
next
  assume "0 < seq_len \<and> seq_len * VOCAB_SIZE \<le> int (length logits)"
  then show "\<exists>t. FindMaxLogitToken logits seq_len = Inr t"
    by (simp add: FindMaxLogitToken_defined)
qed

theorem FindMaxLogitToken_in_vocabulary_witness:
  "\<exists>t. FindMaxLogitToken (replicate 6144 (Fin 1)) 1 = Inr t \<and> 0 \<le> t \<and> t < VOCAB_SIZE"
proof -
  have "(0::int) < 1 \<and> 1 * VOCAB_SIZE \<le> int (length (replicate 6144 (Fin 1)))"
    by (simp add: VOCAB_SIZE_def)
  with FindMaxLogitToken_in_vocabulary [of "replicate 6144 (Fin 1)" 1]
  show ?thesis by blast
qed

section \<open>Properties of the decode loop\<close>

lemma length_span_store [simp]: "length (span_store old ys) = length old"
  by (simp add: span_store_def)

lemma write_at_Inr: "write_at xs i v = Inr ys \<Longrightarrow> length ys = length xs \<and> 0 \<le> i \<and> i < int (length xs)"
  by (auto simp: write_at_def split: if_splits)

lemma UpdateEmbedding_length: "UpdateEmbedding data input t i = Inr ys \<Longrightarrow> length ys = length input"
  by (auto simp: UpdateEmbedding_def Let_def HIDDEN_SIZE_def split: if_splits)

lemma decode_body_Proceed:
  assumes "decode_body api l data max_tokens s = Inr (Proceed s')"
  shows "ds_token_count s' = ds_token_count s + 1 \<and>
         ds_token_count s' < max_tokens \<and> ds_token_count s' < MAX_SEQUENCE_LENGTH \<and>
         length (ds_decoder_logits s') = length (ds_decoder_logits s) \<and>
         length (ds_embeddings_input s') = length (ds_embeddings_input s) \<and>
         length (ds_attention_mask s') = length (ds_attention_mask s) \<and>
         length (ds_out_tokens s') = length (ds_out_tokens s)"
  using assms unfolding decode_body_def run_decoder_def append_token_def andthen_def deref_def Let_def
  by (auto split: sum.splits prod.splits option.splits if_splits
      dest: write_at_Inr UpdateEmbedding_length)

lemma decode_body_BufferError:
  assumes "decode_body api l data max_tokens s = Inr (Stopped BufferError s')"
  shows "\<exists>b. s' = s\<lparr>ds_backend := b\<rparr>"
  using assms unfolding decode_body_def run_decoder_def append_token_def andthen_def deref_def Let_def
  by (auto split: sum.splits prod.splits option.splits if_splits)

lemma decode_body_LimitReached:
  assumes "decode_body api l data max_tokens s = Inr (Stopped LimitReached s')"
  shows "ds_token_count s' = ds_token_count s + 1 \<and>
         (max_tokens \<le> ds_token_count s' \<or> MAX_SEQUENCE_LENGTH \<le> ds_token_count s')"
  using assms unfolding decode_body_def run_decoder_def append_token_def andthen_def deref_def Let_def
  by (auto split: sum.splits prod.splits option.splits if_splits)

lemma decode_body_EndToken:
  assumes "decode_body api l data max_tokens s = Inr (Stopped EndToken s')"
  shows "ds_token_count s' = ds_token_count s \<and> ds_out_tokens s' = ds_out_tokens s"
  using assms unfolding decode_body_def run_decoder_def append_token_def andthen_def deref_def Let_def
  by (auto split: sum.splits prod.splits option.splits if_splits)

lemma read_at_in: "0 \<le> i \<Longrightarrow> i < int (length xs) \<Longrightarrow> read_at xs i = Inr (xs ! nat i)"
  by (simp add: read_at_def)

lemma write_at_in: "0 \<le> i \<Longrightarrow> i < int (length xs) \<Longrightarrow> write_at xs i v = Inr (xs[nat i := v])"
  by (simp add: write_at_def)

lemma span_of_in: "0 \<le> n \<Longrightarrow> n \<le> int (length xs) \<Longrightarrow> span_of xs n = Inr (take (nat n) xs)"
  by (simp add: span_of_def)

lemma UpdateEmbedding_in:
  assumes "0 \<le> t" "t < VOCAB_SIZE" "VOCAB_SIZE * HIDDEN_SIZE \<le> int (length data)"
    "0 \<le> i" "i < MAX_SEQUENCE_LENGTH" "int (length input) = MAX_SEQUENCE_LENGTH * HIDDEN_SIZE"
  shows "\<exists>ys. UpdateEmbedding data input t i = Inr ys \<and> length ys = length input"
proof -
  have a: "0 \<le> t * HIDDEN_SIZE" using assms(1) by (simp add: HIDDEN_SIZE_def)
  have "(t + 1) * HIDDEN_SIZE \<le> VOCAB_SIZE * HIDDEN_SIZE"
    using assms(2) by (simp add: HIDDEN_SIZE_def VOCAB_SIZE_def)
  then have b: "t * HIDDEN_SIZE + HIDDEN_SIZE \<le> int (length data)"
    using assms(3) by (simp add: algebra_simps)
  have c: "0 \<le> i * HIDDEN_SIZE" using assms(4) by (simp add: HIDDEN_SIZE_def)
  have "(i + 1) * HIDDEN_SIZE \<le> MAX_SEQUENCE_LENGTH * HIDDEN_SIZE"
    using assms(5) by (simp add: HIDDEN_SIZE_def MAX_SEQUENCE_LENGTH_def)
  then have d: "i * HIDDEN_SIZE + HIDDEN_SIZE \<le> int (length input)"
    using assms(6) by (simp add: algebra_simps)
  from a b c d have "UpdateEmbedding data input t i =
      Inr (take (nat (i * HIDDEN_SIZE)) input @
           take (nat HIDDEN_SIZE) (drop (nat (t * HIDDEN_SIZE)) data) @
           drop (nat (i * HIDDEN_SIZE + HIDDEN_SIZE)) input)"
    by (simp add: UpdateEmbedding_def Let_def)
  then show ?thesis using UpdateEmbedding_length by blast
qed

lemma decode_body_forward:
  assumes sz: "sized l data s"
    and tc: "1 \<le> ds_token_count s" "ds_token_count s < MAX_SEQUENCE_LENGTH"
    and r1: "read_at (decoder_input_buffers l) 1 = Inr mask_buffer"
    and r2: "read_at (decoder_input_buffers l) 2 = Inr emb_buffer"
    and r0: "read_at (decoder_output_buffers l) 0 = Inr logits_buffer"
    and d: "compiled_decoder l = Some decoder"
    and w1: "TensorBuffer_Write api (ds_backend s) mask_buffer
               (take (nat MAX_SEQUENCE_LENGTH) (ds_attention_mask s)) = (b1, True)"
    and w2: "TensorBuffer_Write api b1 emb_buffer
               (take (nat (MAX_SEQUENCE_LENGTH * HIDDEN_SIZE)) (ds_embeddings_input s)) = (b2, True)"
    and rn: "CompiledModel_Run api b2 decoder (decoder_input_buffers l)
               (decoder_output_buffers l) = (b3, True)"
    and rd: "TensorBuffer_Read api b3 logits_buffer (length (ds_decoder_logits s)) = (b4, Some ys)"
    and ne: "FindMaxLogitToken (span_store (ds_decoder_logits s) ys) (ds_token_count s)
               \<noteq> Inr END_TOKEN_ID"
  shows "\<exists>s'. decode_body api l data max_tokens s =
           Inr (if max_tokens \<le> ds_token_count s + 1 \<or> MAX_SEQUENCE_LENGTH \<le> ds_token_count s + 1
                then Stopped LimitReached s' else Proceed s') \<and>
           ds_token_count s' = ds_token_count s + 1 \<and> sized l data s' \<and>
           ds_backend s' = b4 \<and>
           ds_out_tokens s' ! 0 = ds_out_tokens s ! 0"
proof -
  from sz have lg: "MAX_SEQUENCE_LENGTH * VOCAB_SIZE \<le> int (length (ds_decoder_logits s))"
    and em: "int (length (ds_embeddings_input s)) = MAX_SEQUENCE_LENGTH * HIDDEN_SIZE"
    and am: "int (length (ds_attention_mask s)) = MAX_SEQUENCE_LENGTH"
    and da: "VOCAB_SIZE * HIDDEN_SIZE \<le> int (length data)"
    and ot: "MAX_SEQUENCE_LENGTH \<le> int (length (ds_out_tokens s))"
    by (simp_all add: sized_def)
  let ?tc = "ds_token_count s"
  have sp1: "span_of (ds_attention_mask s) MAX_SEQUENCE_LENGTH =
      Inr (take (nat MAX_SEQUENCE_LENGTH) (ds_attention_mask s))"
    using am by (simp add: span_of_def MAX_SEQUENCE_LENGTH_def)
  have sp2: "span_of (ds_embeddings_input s) (MAX_SEQUENCE_LENGTH * HIDDEN_SIZE) =
      Inr (take (nat (MAX_SEQUENCE_LENGTH * HIDDEN_SIZE)) (ds_embeddings_input s))"
    using em by (simp add: span_of_def MAX_SEQUENCE_LENGTH_def HIDDEN_SIZE_def)
  let ?logits = "span_store (ds_decoder_logits s) ys"
  have "?tc * VOCAB_SIZE \<le> MAX_SEQUENCE_LENGTH * VOCAB_SIZE"
    using tc by (simp add: VOCAB_SIZE_def)
  then have "?tc * VOCAB_SIZE \<le> int (length ?logits)" using lg by simp
  with FindMaxLogitToken_defined [of ?tc ?logits] tc(1)
  obtain t where fm: "FindMaxLogitToken ?logits ?tc = Inr t" by auto
  from FindMaxLogitToken_range [OF fm] have tr: "0 \<le> t" "t < VOCAB_SIZE" by simp_all
  from ne fm have tne: "t \<noteq> END_TOKEN_ID" by simp
  have wo: "write_at (ds_out_tokens s) ?tc t = Inr ((ds_out_tokens s)[nat ?tc := t])"
    using tc ot by (simp add: write_at_def)
  have "0 \<le> ?tc" using tc(1) by simp
  from UpdateEmbedding_in [OF tr da this tc(2) em]
  obtain emb' where ue: "UpdateEmbedding data (ds_embeddings_input s) t ?tc = Inr emb'"
    and uel: "length emb' = length (ds_embeddings_input s)" by auto
  have wm: "write_at (ds_attention_mask s) ?tc (Fin 1) = Inr ((ds_attention_mask s)[nat ?tc := Fin 1])"
    using tc am by (simp add: write_at_def)
  let ?s' = "\<lparr>ds_backend = b4, ds_decoder_logits = ?logits, ds_embeddings_input = emb',
      ds_attention_mask = (ds_attention_mask s)[nat ?tc := Fin 1],
      ds_out_tokens = (ds_out_tokens s)[nat ?tc := t], ds_token_count = ?tc + 1\<rparr>"
  have body: "decode_body api l data max_tokens s =
      Inr (if max_tokens \<le> ?tc + 1 \<or> MAX_SEQUENCE_LENGTH \<le> ?tc + 1
           then Stopped LimitReached ?s' else Proceed ?s')"
    unfolding decode_body_def run_decoder_def append_token_def
    using tr tne by (simp add: andthen_def deref_def Let_def r1 r2 r0 sp1 sp2 w1 w2 d rn rd fm wo ue wm)
  have "sized l data ?s'"
    using sz uel by (simp add: sized_def)
  moreover have "ds_out_tokens ?s' ! 0 = ds_out_tokens s ! 0" using tc(1) by simp
  ultimately show ?thesis using body by (intro exI [of _ ?s']) simp
qed

lemma run_decoder_outcome:
  assumes sz: "sized l data s"
  shows "(\<exists>b. run_decoder api l s = Inr (Inl b)) \<or>
         (\<exists>mask_buffer emb_buffer logits_buffer decoder b1 b2 b3 b4 ys.
            read_at (decoder_input_buffers l) 1 = Inr mask_buffer \<and>
            read_at (decoder_input_buffers l) 2 = Inr emb_buffer \<and>
            read_at (decoder_output_buffers l) 0 = Inr logits_buffer \<and>
            compiled_decoder l = Some decoder \<and>
            TensorBuffer_Write api (ds_backend s) mask_buffer
              (take (nat MAX_SEQUENCE_LENGTH) (ds_attention_mask s)) = (b1, True) \<and>
            TensorBuffer_Write api b1 emb_buffer
              (take (nat (MAX_SEQUENCE_LENGTH * HIDDEN_SIZE)) (ds_embeddings_input s)) =
              (b2, True) \<and>
            CompiledModel_Run api b2 decoder (decoder_input_buffers l)
              (decoder_output_buffers l) = (b3, True) \<and>
            TensorBuffer_Read api b3 logits_buffer (length (ds_decoder_logits s)) =
              (b4, Some ys) \<and>
            run_decoder api l s = Inr (Inr (b4, ys)))"
proof -
  from sz have bufs: "3 \<le> length (decoder_input_buffers l)" "decoder_output_buffers l \<noteq> []"
    and dec: "compiled_decoder l \<noteq> None"
    and em: "int (length (ds_embeddings_input s)) = MAX_SEQUENCE_LENGTH * HIDDEN_SIZE"
    and am: "int (length (ds_attention_mask s)) = MAX_SEQUENCE_LENGTH"
    by (simp_all add: sized_def)
  obtain mask_buffer where r1: "read_at (decoder_input_buffers l) 1 = Inr mask_buffer"
    using bufs by (simp add: read_at_def)
  obtain emb_buffer where r2: "read_at (decoder_input_buffers l) 2 = Inr emb_buffer"
    using bufs by (simp add: read_at_def)
  obtain logits_buffer where r0: "read_at (decoder_output_buffers l) 0 = Inr logits_buffer"
    using bufs by (simp add: read_at_def)
  obtain decoder where d: "compiled_decoder l = Some decoder" using dec by auto
  let ?mask = "take (nat MAX_SEQUENCE_LENGTH) (ds_attention_mask s)"
  let ?emb = "take (nat (MAX_SEQUENCE_LENGTH * HIDDEN_SIZE)) (ds_embeddings_input s)"
  have sp1: "span_of (ds_attention_mask s) MAX_SEQUENCE_LENGTH = Inr ?mask"
    using am by (simp add: span_of_def MAX_SEQUENCE_LENGTH_def)
  have sp2: "span_of (ds_embeddings_input s) (MAX_SEQUENCE_LENGTH * HIDDEN_SIZE) = Inr ?emb"
    using em by (simp add: span_of_def MAX_SEQUENCE_LENGTH_def HIDDEN_SIZE_def)
  obtain b1 ok1 where w1: "TensorBuffer_Write api (ds_backend s) mask_buffer ?mask = (b1, ok1)"
    by (cases "TensorBuffer_Write api (ds_backend s) mask_buffer ?mask")
  obtain b2 ok2 where w2: "TensorBuffer_Write api b1 emb_buffer ?emb = (b2, ok2)"
    by (cases "TensorBuffer_Write api b1 emb_buffer ?emb")
  obtain b3 ok3 where rn: "CompiledModel_Run api b2 decoder (decoder_input_buffers l)
      (decoder_output_buffers l) = (b3, ok3)"
    by (cases "CompiledModel_Run api b2 decoder (decoder_input_buffers l)
      (decoder_output_buffers l)")
  obtain b4 res where rd: "TensorBuffer_Read api b3 logits_buffer
      (length (ds_decoder_logits s)) = (b4, res)"
    by (cases "TensorBuffer_Read api b3 logits_buffer (length (ds_decoder_logits s))")
  have rdec: "run_decoder api l s =
      (if \<not> ok1 then Inr (Inl b1) else if \<not> ok2 then Inr (Inl b2)
       else if \<not> ok3 then Inr (Inl b3)
       else case res of None \<Rightarrow> Inr (Inl b4) | Some ys \<Rightarrow> Inr (Inr (b4, ys)))"
    unfolding run_decoder_def
    by (simp add: andthen_def deref_def r1 r2 r0 d sp1 sp2 w1 w2 rn rd)
  show ?thesis
  proof (cases "ok1 \<and> ok2 \<and> ok3 \<and> res \<noteq> None")
    case False
    then have "\<exists>b. run_decoder api l s = Inr (Inl b)"
      unfolding rdec by (auto split: option.splits)
    then show ?thesis ..
  next
    case True
    then obtain ys where res: "res = Some ys" and ok: ok1 ok2 ok3 by auto
    have "run_decoder api l s = Inr (Inr (b4, ys))" unfolding rdec using ok res by simp
    moreover note r1 r2 r0 d w1 [unfolded eqTrueI [OF ok(1)]] w2 [unfolded eqTrueI [OF ok(2)]]
      rn [unfolded eqTrueI [OF ok(3)]] rd [unfolded res]
    ultimately show ?thesis by (intro disjI2 exI conjI)
  qed
qed

lemma decode_body_succeeds:
  assumes sz: "sized l data s"
    and tc: "1 \<le> ds_token_count s" "ds_token_count s < MAX_SEQUENCE_LENGTH"
    and nf: "\<not> pass_fails api l s" and ne: "\<not> pass_selects_END api l s"
  shows "\<exists>s'. decode_body api l data max_tokens s =
           Inr (if max_tokens \<le> ds_token_count s + 1 \<or> MAX_SEQUENCE_LENGTH \<le> ds_token_count s + 1
                then Stopped LimitReached s' else Proceed s') \<and>
           ds_token_count s' = ds_token_count s + 1 \<and> sized l data s' \<and>
           ds_out_tokens s' ! 0 = ds_out_tokens s ! 0"
proof -
  from nf have "\<not> (\<exists>b. run_decoder api l s = Inr (Inl b))"
    by (auto simp: pass_fails_def)
  with run_decoder_outcome [OF sz, of api]
  obtain mask_buffer emb_buffer logits_buffer decoder b1 b2 b3 b4 ys where
    r1: "read_at (decoder_input_buffers l) 1 = Inr mask_buffer"
    and r2: "read_at (decoder_input_buffers l) 2 = Inr emb_buffer"
    and r0: "read_at (decoder_output_buffers l) 0 = Inr logits_buffer"
    and d: "compiled_decoder l = Some decoder"
    and w1: "TensorBuffer_Write api (ds_backend s) mask_buffer
              (take (nat MAX_SEQUENCE_LENGTH) (ds_attention_mask s)) = (b1, True)"
    and w2: "TensorBuffer_Write api b1 emb_buffer
              (take (nat (MAX_SEQUENCE_LENGTH * HIDDEN_SIZE)) (ds_embeddings_input s)) =
              (b2, True)"
    and rn: "CompiledModel_Run api b2 decoder (decoder_input_buffers l)
              (decoder_output_buffers l) = (b3, True)"
    and rd: "TensorBuffer_Read api b3 logits_buffer (length (ds_decoder_logits s)) =
              (b4, Some ys)"
    and rdec: "run_decoder api l s = Inr (Inr (b4, ys))"
    by blast
  from ne rdec
  have tne: "FindMaxLogitToken (span_store (ds_decoder_logits s) ys) (ds_token_count s)
      \<noteq> Inr END_TOKEN_ID"
    by (simp add: pass_selects_END_def)
  from decode_body_forward [OF sz tc r1 r2 r0 d w1 w2 rn rd tne, of max_tokens]
  show ?thesis by blast
qed

lemma decode_loop_proceeds:
  "sized l data s \<Longrightarrow> ds_token_count s = step + 1 \<Longrightarrow> 0 \<le> step \<Longrightarrow>
   step < MAX_SEQUENCE_LENGTH - 1 \<Longrightarrow>
   \<forall>n t. decode_steps api l data max_tokens n s = Some t \<longrightarrow>
      \<not> pass_fails api l t \<and> \<not> pass_selects_END api l t \<Longrightarrow>
   \<exists>s'. decode_loop api l data max_tokens step s = Inr s' \<and>
        ds_token_count s' = max (ds_token_count s + 1) (min max_tokens MAX_SEQUENCE_LENGTH) \<and>
        ds_out_tokens s' ! 0 = ds_out_tokens s ! 0 \<and>
        length (ds_out_tokens s') = length (ds_out_tokens s)"
proof (induction api l data max_tokens step s rule: decode_loop.induct)
  case (1 api l data max_tokens step s)
  have tc: "1 \<le> ds_token_count s" "ds_token_count s < MAX_SEQUENCE_LENGTH"
    using "1.prems" by simp_all
  have "decode_steps api l data max_tokens 0 s = Some s" by simp
  with "1.prems"(5)
  have ok: "\<not> pass_fails api l s" "\<not> pass_selects_END api l s" by blast+
  from decode_body_succeeds [OF "1.prems"(1) tc ok, of max_tokens]
  obtain s1 where body: "decode_body api l data max_tokens s =
           Inr (if max_tokens \<le> ds_token_count s + 1 \<or> MAX_SEQUENCE_LENGTH \<le> ds_token_count s + 1
                then Stopped LimitReached s1 else Proceed s1)"
    and tc1: "ds_token_count s1 = ds_token_count s + 1" and sz1: "sized l data s1"
    and o1: "ds_out_tokens s1 ! 0 = ds_out_tokens s ! 0" by blast
  have len1: "length (ds_out_tokens s1) = length (ds_out_tokens s)"
  proof (cases "max_tokens \<le> ds_token_count s + 1 \<or> MAX_SEQUENCE_LENGTH \<le> ds_token_count s + 1")
    case True
    with body have b: "decode_body api l data max_tokens s = Inr (Stopped LimitReached s1)" by simp
    then show ?thesis unfolding decode_body_def run_decoder_def append_token_def andthen_def deref_def Let_def
      by (auto split: sum.splits prod.splits option.splits if_splits dest: write_at_Inr)
  next
    case False
    with body have "decode_body api l data max_tokens s = Inr (Proceed s1)" by simp
    from decode_body_Proceed [OF this] show ?thesis by simp
  qed
  show ?case
  proof (cases "max_tokens \<le> ds_token_count s + 1 \<or> MAX_SEQUENCE_LENGTH \<le> ds_token_count s + 1")
    case True
    with body have b: "decode_body api l data max_tokens s = Inr (Stopped LimitReached s1)" by simp
    have "decode_loop api l data max_tokens step s = Inr s1"
      using "1.prems"(4) b by (simp add: decode_loop.simps [of api l data max_tokens step s])
    moreover have "max (ds_token_count s + 1) (min max_tokens MAX_SEQUENCE_LENGTH) = ds_token_count s + 1"
      using True tc by auto
    ultimately show ?thesis using tc1 o1 len1 by simp
  next
    case False
    with body have b: "decode_body api l data max_tokens s = Inr (Proceed s1)" by simp
    have lt: "step + 1 < MAX_SEQUENCE_LENGTH - 1" using False "1.prems"(2) by simp
    have later: "\<forall>n t. decode_steps api l data max_tokens n s1 = Some t \<longrightarrow>
        \<not> pass_fails api l t \<and> \<not> pass_selects_END api l t"
    proof (intro allI impI)
      fix n t assume "decode_steps api l data max_tokens n s1 = Some t"
      with b have "decode_steps api l data max_tokens (Suc n) s = Some t" by simp
      with "1.prems"(5) show "\<not> pass_fails api l t \<and> \<not> pass_selects_END api l t"
        by blast
    qed
    have c1: "ds_token_count s1 = step + 1 + 1" using tc1 "1.prems"(2) by simp
    have s0: "0 \<le> step + 1" using "1.prems"(3) by simp
    from "1.IH" [OF "1.prems"(4) b refl sz1 c1 s0 lt later]
    obtain s' where r: "decode_loop api l data max_tokens (step + 1) s1 = Inr s'"
      and c: "ds_token_count s' = max (ds_token_count s1 + 1) (min max_tokens MAX_SEQUENCE_LENGTH)"
      and o: "ds_out_tokens s' ! 0 = ds_out_tokens s1 ! 0"
      and ln: "length (ds_out_tokens s') = length (ds_out_tokens s1)" by auto
    have "decode_loop api l data max_tokens step s = Inr s'"
      using "1.prems"(4) b r by (simp add: decode_loop.simps [of api l data max_tokens step s])
    moreover have "max (ds_token_count s1 + 1) (min max_tokens MAX_SEQUENCE_LENGTH) =
        max (ds_token_count s + 1) (min max_tokens MAX_SEQUENCE_LENGTH)"
      using False tc1 by auto
    ultimately show ?thesis using c o o1 ln len1 by simp
  qed
qed

lemma run_encoder_forward:
  assumes rdy: "ready_for_inference e" and l: "litert e = Some l"
    and img: "IMAGE_SIZE * IMAGE_SIZE * 3 \<le> int (length image_data)"
    and out: "MAX_SEQUENCE_LENGTH \<le> int (length out_tokens)"
    and r0: "read_at (encoder_input_buffers l) 0 = Inr image_buffer"
    and r1: "read_at (encoder_output_buffers l) 0 = Inr hidden_buffer"
    and r2: "read_at (decoder_input_buffers l) 0 = Inr dec_hidden_buffer"
    and d: "compiled_encoder l = Some encoder"
    and w1: "TensorBuffer_Write api b image_buffer
               (take (nat (IMAGE_SIZE * IMAGE_SIZE * 3)) image_data) = (b1, True)"
    and rn: "CompiledModel_Run api b1 encoder (encoder_input_buffers l)
               (encoder_output_buffers l) = (b2, True)"
    and rd: "TensorBuffer_Read api b2 hidden_buffer (length (encoder_hidden_states l)) =
               (b3, Some ys)"
    and w2: "TensorBuffer_Write api b3 dec_hidden_buffer
               (span_store (encoder_hidden_states l) ys) = (b4, True)"
  shows "\<exists>l1 s0. run_encoder api b e l image_data out_tokens = Inr (Inr (l1, s0)) \<and>
           sized l1 (embeddings_data e) s0 \<and> ds_token_count s0 = 1 \<and> ds_backend s0 = b4 \<and>
           ds_out_tokens s0 ! 0 = START_TOKEN_ID \<and>
           length (ds_out_tokens s0) = length out_tokens"
proof -
  from rdy l have bufs: "3 \<le> length (decoder_input_buffers l)" "decoder_output_buffers l \<noteq> []"
    and dec: "compiled_decoder l \<noteq> None"
    and lg: "MAX_SEQUENCE_LENGTH * VOCAB_SIZE \<le> int (length (decoder_logits l))"
    and em: "int (length (embeddings_input e)) = MAX_SEQUENCE_LENGTH * HIDDEN_SIZE"
    and am: "int (length (attention_mask e)) = MAX_SEQUENCE_LENGTH"
    and da: "VOCAB_SIZE * HIDDEN_SIZE \<le> int (length (embeddings_data e))"
    by (simp_all add: ready_for_inference_def)
  have sp: "span_of image_data (IMAGE_SIZE * IMAGE_SIZE * 3) =
      Inr (take (nat (IMAGE_SIZE * IMAGE_SIZE * 3)) image_data)"
    using img by (simp add: span_of_def IMAGE_SIZE_def)
  let ?hidden = "span_store (encoder_hidden_states l) ys"
  let ?zero = "replicate (length (embeddings_input e)) (Fin 0)"
  have wo: "write_at out_tokens 0 START_TOKEN_ID = Inr (out_tokens[0 := START_TOKEN_ID])"
    using out by (auto simp: write_at_def MAX_SEQUENCE_LENGTH_def)
  have "int (length ?zero) = MAX_SEQUENCE_LENGTH * HIDDEN_SIZE" using em by simp
  from UpdateEmbedding_in [OF _ _ da _ _ this, of START_TOKEN_ID 0]
  obtain emb1 where ue: "UpdateEmbedding (embeddings_data e) ?zero START_TOKEN_ID 0 = Inr emb1"
    and uel: "length emb1 = length ?zero"
    by (auto simp: START_TOKEN_ID_def VOCAB_SIZE_def MAX_SEQUENCE_LENGTH_def)
  have wm: "write_at (replicate (length (attention_mask e)) (Fin 0)) 0 (Fin 1) =
      Inr ((replicate (length (attention_mask e)) (Fin 0))[0 := Fin 1])"
    using am by (auto simp: write_at_def MAX_SEQUENCE_LENGTH_def)
  let ?l1 = "l\<lparr>encoder_hidden_states := ?hidden\<rparr>"
  let ?s0 = "\<lparr>ds_backend = b4, ds_decoder_logits = decoder_logits ?l1,
      ds_embeddings_input = emb1,
      ds_attention_mask = (replicate (length (attention_mask e)) (Fin 0))[0 := Fin 1],
      ds_out_tokens = out_tokens[0 := START_TOKEN_ID], ds_token_count = 1\<rparr>"
  have "run_encoder api b e l image_data out_tokens = Inr (Inr (?l1, ?s0))"
    unfolding run_encoder_def
    by (simp add: andthen_def deref_def Let_def r0 r1 r2 sp w1 d rn rd wo ue wm w2)
  moreover have "sized ?l1 (embeddings_data e) ?s0"
    using bufs dec lg em am da out uel by (simp add: sized_def)
  moreover have "0 < length out_tokens" using out by (auto simp: MAX_SEQUENCE_LENGTH_def)
  then have "ds_out_tokens ?s0 ! 0 = START_TOKEN_ID" by simp
  ultimately show ?thesis by (intro exI [of _ ?l1] exI [of _ ?s0]) simp
qed

lemma ready_buffers:
  assumes "ready_for_inference e" "litert e = Some l"
  obtains image_buffer hidden_buffer dec_hidden_buffer encoder where
    "read_at (encoder_input_buffers l) 0 = Inr image_buffer"
    "read_at (encoder_output_buffers l) 0 = Inr hidden_buffer"
    "read_at (decoder_input_buffers l) 0 = Inr dec_hidden_buffer"
    "compiled_encoder l = Some encoder"
proof -
  from assms have bufs: "encoder_input_buffers l \<noteq> []" "encoder_output_buffers l \<noteq> []"
      "3 \<le> length (decoder_input_buffers l)" and enc: "compiled_encoder l \<noteq> None"
    by (simp_all add: ready_for_inference_def)
  have "read_at (encoder_input_buffers l) 0 = Inr (hd (encoder_input_buffers l))"
    using bufs by (simp add: read_at_def hd_conv_nth)
  moreover have "read_at (encoder_output_buffers l) 0 = Inr (hd (encoder_output_buffers l))"
    using bufs by (simp add: read_at_def hd_conv_nth)
  moreover have "read_at (decoder_input_buffers l) 0 = Inr (hd (decoder_input_buffers l))"
    using bufs by (cases "decoder_input_buffers l") (simp_all add: read_at_def)
  moreover obtain encoder where "compiled_encoder l = Some encoder" using enc by auto
  ultimately show ?thesis using that by blast
qed

lemma run_encoder_succeeds:
  assumes rdy: "ready_for_inference e" and l: "litert e = Some l"
    and img: "IMAGE_SIZE * IMAGE_SIZE * 3 \<le> int (length image_data)"
    and out: "MAX_SEQUENCE_LENGTH \<le> int (length out_tokens)"
    and nf: "\<not> encoder_fails api b e l image_data out_tokens"
  shows "\<exists>l1 s0. run_encoder api b e l image_data out_tokens = Inr (Inr (l1, s0)) \<and>
           sized l1 (embeddings_data e) s0 \<and> ds_token_count s0 = 1 \<and>
           ds_out_tokens s0 ! 0 = START_TOKEN_ID \<and>
           length (ds_out_tokens s0) = length out_tokens"
proof -
  from ready_buffers [OF rdy l] obtain image_buffer hidden_buffer dec_hidden_buffer encoder
    where r0: "read_at (encoder_input_buffers l) 0 = Inr image_buffer"
      and r1: "read_at (encoder_output_buffers l) 0 = Inr hidden_buffer"
      and r2: "read_at (decoder_input_buffers l) 0 = Inr dec_hidden_buffer"
      and d: "compiled_encoder l = Some encoder" by blast
  from rdy l have em: "int (length (embeddings_input e)) = MAX_SEQUENCE_LENGTH * HIDDEN_SIZE"
    and am: "int (length (attention_mask e)) = MAX_SEQUENCE_LENGTH"
    and da: "VOCAB_SIZE * HIDDEN_SIZE \<le> int (length (embeddings_data e))"
    by (simp_all add: ready_for_inference_def)
  let ?image = "take (nat (IMAGE_SIZE * IMAGE_SIZE * 3)) image_data"
  have sp: "span_of image_data (IMAGE_SIZE * IMAGE_SIZE * 3) = Inr ?image"
    using img by (simp add: span_of_def IMAGE_SIZE_def)
  let ?zero = "replicate (length (embeddings_input e)) (Fin 0)"
  have wo: "write_at out_tokens 0 START_TOKEN_ID = Inr (out_tokens[0 := START_TOKEN_ID])"
    using out by (auto simp: write_at_def MAX_SEQUENCE_LENGTH_def)
  have "int (length ?zero) = MAX_SEQUENCE_LENGTH * HIDDEN_SIZE" using em by simp
  from UpdateEmbedding_in [OF _ _ da _ _ this, of START_TOKEN_ID 0]
  obtain emb1 where ue: "UpdateEmbedding (embeddings_data e) ?zero START_TOKEN_ID 0 = Inr emb1"
    by (auto simp: START_TOKEN_ID_def VOCAB_SIZE_def MAX_SEQUENCE_LENGTH_def)
  have wm: "write_at (replicate (length (attention_mask e)) (Fin 0)) 0 (Fin 1) =
      Inr ((replicate (length (attention_mask e)) (Fin 0))[0 := Fin 1])"
    using am by (auto simp: write_at_def MAX_SEQUENCE_LENGTH_def)
  obtain b1 ok1 where w1: "TensorBuffer_Write api b image_buffer ?image = (b1, ok1)"
    by (cases "TensorBuffer_Write api b image_buffer ?image")
  obtain b2 ok2 where rn: "CompiledModel_Run api b1 encoder (encoder_input_buffers l)
      (encoder_output_buffers l) = (b2, ok2)"
    by (cases "CompiledModel_Run api b1 encoder (encoder_input_buffers l)
      (encoder_output_buffers l)")
  obtain b3 res where rd: "TensorBuffer_Read api b2 hidden_buffer
      (length (encoder_hidden_states l)) = (b3, res)"
    by (cases "TensorBuffer_Read api b2 hidden_buffer (length (encoder_hidden_states l))")
  have early: False if "run_encoder api b e l image_data out_tokens = Inr (Inl x)" for x
    using nf that by (simp add: encoder_fails_def)
  have ok1: ok1
  proof (rule ccontr)
    assume "\<not> ok1"
    then have "run_encoder api b e l image_data out_tokens = Inr (Inl (0, out_tokens, b1, e))"
      unfolding run_encoder_def by (simp add: andthen_def r0 sp w1)
    then show False by (rule early)
  qed
  have ok2: ok2
  proof (rule ccontr)
    assume "\<not> ok2"
    then have "run_encoder api b e l image_data out_tokens = Inr (Inl (0, out_tokens, b2, e))"
      unfolding run_encoder_def using ok1 by (simp add: andthen_def deref_def r0 sp w1 d rn)
    then show False by (rule early)
  qed
  obtain ys where res: "res = Some ys"
  proof (cases res)
    case None
    then have "run_encoder api b e l image_data out_tokens = Inr (Inl (0, out_tokens, b3, e))"
      unfolding run_encoder_def using ok1 ok2
      by (simp add: andthen_def deref_def r0 sp w1 d rn r1 rd)
    then show ?thesis using early by blast
  next
    case (Some ys)
    then show ?thesis by (rule that)
  qed
  let ?hidden = "span_store (encoder_hidden_states l) ys"
  obtain b4 ok4 where w2: "TensorBuffer_Write api b3 dec_hidden_buffer ?hidden = (b4, ok4)"
    by (cases "TensorBuffer_Write api b3 dec_hidden_buffer ?hidden")
  have ok4: ok4
  proof (rule ccontr)
    assume "\<not> ok4"
    then have "\<exists>x. run_encoder api b e l image_data out_tokens = Inr (Inl x)"
      unfolding run_encoder_def using ok1 ok2 res
      by (simp add: andthen_def deref_def Let_def r0 sp w1 d rn r1 rd wo ue wm r2 w2)
    then show False using early by blast
  qed
  from run_encoder_forward [OF rdy l img out r0 r1 r2 d
      w1 [unfolded eqTrueI [OF ok1]] rn [unfolded eqTrueI [OF ok2]] rd [unfolded res]
      w2 [unfolded eqTrueI [OF ok4]]]
  show ?thesis by blast
qed

lemma InferTokens_proceeds:
  assumes rdy: "ready_for_inference e" and l: "litert e = Some l"
    and img: "IMAGE_SIZE * IMAGE_SIZE * 3 \<le> int (length image_data)"
    and out: "MAX_SEQUENCE_LENGTH \<le> int (length out_tokens)"
    and enc: "\<not> encoder_fails api b e l image_data out_tokens"
    and passes: "\<And>l1 s0 n s.
        run_encoder api b e l image_data out_tokens = Inr (Inr (l1, s0)) \<Longrightarrow>
        decode_steps api l1 (embeddings_data e) max_tokens n s0 = Some s \<Longrightarrow>
        \<not> pass_fails api l1 s \<and> \<not> pass_selects_END api l1 s"
  shows "\<exists>toks b' e'. InferTokens api b e image_data out_tokens max_tokens =
           Inr (max 2 (min max_tokens MAX_SEQUENCE_LENGTH), toks, b', e') \<and>
           toks ! 0 = START_TOKEN_ID \<and> length toks = length out_tokens"
proof -
  from rdy have ini: "initialized e" by (simp add: ready_for_inference_def)
  from run_encoder_succeeds [OF rdy l img out enc]
  obtain l1 s0 where re: "run_encoder api b e l image_data out_tokens = Inr (Inr (l1, s0))"
    and sz: "sized l1 (embeddings_data e) s0" and tc: "ds_token_count s0 = 1"
    and o0: "ds_out_tokens s0 ! 0 = START_TOKEN_ID"
    and ln: "length (ds_out_tokens s0) = length out_tokens" by blast
  have all_ok: "\<forall>n t. decode_steps api l1 (embeddings_data e) max_tokens n s0 = Some t \<longrightarrow>
      \<not> pass_fails api l1 t \<and> \<not> pass_selects_END api l1 t"
    using passes [OF re] by blast
  from decode_loop_proceeds [OF sz _ _ _ all_ok, of 0] tc
  obtain s' where dl: "decode_loop api l1 (embeddings_data e) max_tokens 0 s0 = Inr s'"
    and c: "ds_token_count s' = max (ds_token_count s0 + 1) (min max_tokens MAX_SEQUENCE_LENGTH)"
    and o: "ds_out_tokens s' ! 0 = ds_out_tokens s0 ! 0"
    and ln': "length (ds_out_tokens s') = length (ds_out_tokens s0)"
    by (auto simp: MAX_SEQUENCE_LENGTH_def)
  have "InferTokens api b e image_data out_tokens max_tokens =
      Inr (ds_token_count s', ds_out_tokens s', ds_backend s',
           e\<lparr>litert := Some (l1\<lparr>decoder_logits := ds_decoder_logits s'\<rparr>),
             embeddings_input := ds_embeddings_input s',
             attention_mask := ds_attention_mask s'\<rparr>)"
    using ini l re dl by (simp add: InferTokens_def andthen_def deref_def)
  with c tc o o0 ln ln' show ?thesis by simp
qed

lemma never_fails_pass:
  assumes nf: "runtime_never_fails api"
  shows "\<not> pass_fails api l s"
proof -
  from nf have w: "\<And>b t d b'. TensorBuffer_Write api b t d \<noteq> (b', False)"
    and r: "\<And>b m ins outs b'. CompiledModel_Run api b m ins outs \<noteq> (b', False)"
    and d: "\<And>b t n b'. TensorBuffer_Read api b t n \<noteq> (b', None)"
    unfolding runtime_never_fails_def by (metis snd_conv)+
  show ?thesis
    unfolding pass_fails_def run_decoder_def andthen_def deref_def
    by (auto simp: w r d split: sum.splits prod.splits option.splits if_splits)
qed

lemma never_selects_END_pass:
  assumes ne: "never_selects_END api"
  shows "\<not> pass_selects_END api l s"
proof -
  have rd: "\<And>b4 ys. run_decoder api l s = Inr (Inr (b4, ys)) \<Longrightarrow>
      \<exists>b3 t. TensorBuffer_Read api b3 t (length (ds_decoder_logits s)) = (b4, Some ys)"
    unfolding run_decoder_def andthen_def deref_def
    by (auto split: sum.splits prod.splits option.splits if_splits)
  show ?thesis
  proof
    assume "pass_selects_END api l s"
    then obtain b4 ys where r: "run_decoder api l s = Inr (Inr (b4, ys))"
      and e: "FindMaxLogitToken (span_store (ds_decoder_logits s) ys) (ds_token_count s) =
                Inr END_TOKEN_ID"
      by (auto simp: pass_selects_END_def split: sum.splits)
    from rd [OF r] obtain b3 t where
      "TensorBuffer_Read api b3 t (length (ds_decoder_logits s)) = (b4, Some ys)" by blast
    then have "snd (TensorBuffer_Read api b3 t (length (ds_decoder_logits s))) = Some ys \<and>
        length (ds_decoder_logits s) = length (ds_decoder_logits s)" by simp
    with ne e show False unfolding never_selects_END_def by blast
  qed
qed

lemma never_fails_encoder:
  assumes nf: "runtime_never_fails api"
  shows "\<not> encoder_fails api b e l image_data out_tokens"
proof -
  from nf have w: "\<And>b t d b'. TensorBuffer_Write api b t d \<noteq> (b', False)"
    and r: "\<And>b m ins outs b'. CompiledModel_Run api b m ins outs \<noteq> (b', False)"
    and d: "\<And>b t n b'. TensorBuffer_Read api b t n \<noteq> (b', None)"
    unfolding runtime_never_fails_def by (metis snd_conv)+
  show ?thesis
    unfolding encoder_fails_def run_encoder_def andthen_def deref_def Let_def
    by (auto simp: w r d split: sum.splits prod.splits option.splits if_splits)
qed

lemma InferTokens_without_END:
  assumes nf: "runtime_never_fails api" and ne: "never_selects_END api"
    and rdy: "ready_for_inference e"
    and img: "IMAGE_SIZE * IMAGE_SIZE * 3 \<le> int (length image_data)"
    and out: "MAX_SEQUENCE_LENGTH \<le> int (length out_tokens)"
  shows "\<exists>toks b' e'. InferTokens api b e image_data out_tokens max_tokens =
           Inr (max 2 (min max_tokens MAX_SEQUENCE_LENGTH), toks, b', e') \<and>
           toks ! 0 = START_TOKEN_ID \<and> length toks = length out_tokens"
proof -
  from rdy obtain l where l: "litert e = Some l"
    by (auto simp: ready_for_inference_def split: option.splits)
  show ?thesis
    by (rule InferTokens_proceeds [OF rdy l img out never_fails_encoder [OF nf]])
      (simp add: never_fails_pass [OF nf] never_selects_END_pass [OF ne])
qed

lemma find_max_loop_replicate:
  "find_max_loop (replicate n c) base i c t = Inr r \<Longrightarrow> r = t"
proof (induction "replicate n c" base i c t rule: find_max_loop.induct)
  case (1 base i c t)
  show ?case
  proof (cases "i < VOCAB_SIZE")
    case False
    with "1.prems" show ?thesis by (simp add: find_max_loop.simps [of _ base i])
  next
    case True
    from "1.prems" True obtain x where rd: "read_at (replicate n c) (base + i) = Inr x"
      by (cases "read_at (replicate n c) (base + i)")
         (simp_all add: find_max_loop.simps [of _ base i])
    then have x: "x = c" by (auto simp: read_at_def split: if_splits)
    have ngt: "\<not> fgt x c" using x by (simp add: fgt_irrefl)
    from "1.prems" True rd ngt
    have "find_max_loop (replicate n c) base (i + 1) c t = Inr r"
      by (simp add: find_max_loop.simps [of _ base i])
    from "1.hyps"(2) [OF True rd ngt this] show ?thesis .
  qed
qed

lemma FindMaxLogitToken_replicate:
  "FindMaxLogitToken (replicate n c) seq_len = Inr t \<Longrightarrow> t = 0"
  unfolding FindMaxLogitToken_def Let_def
  by (auto simp: read_at_def split: if_splits dest: find_max_loop_replicate)

lemma span_store_replicate [simp]: "span_store old (replicate (length old) c) = replicate (length old) c"
  by (simp add: span_store_def)

lemma scripted_never_fails: "runtime_never_fails (scripted_api (\<lambda>k. True) env_ok)"
  by (simp add: runtime_never_fails_def scripted_api_def)

lemma scripted_never_selects_END: "never_selects_END (scripted_api write_ok env_ok)"
  unfolding never_selects_END_def
proof (intro allI impI)
  fix b t n ys seq_len and old :: "cfloat list"
  assume a: "snd (TensorBuffer_Read (scripted_api write_ok env_ok) b t n) = Some ys \<and> length old = n"
  then have "ys = replicate (length old) (Fin 0)" by (auto simp: scripted_api_def)
  then have "span_store old ys = replicate (length old) (Fin 0)" by simp
  then show "FindMaxLogitToken (span_store old ys) seq_len \<noteq> Inr END_TOKEN_ID"
    using FindMaxLogitToken_replicate [of "length old" "Fin 0" seq_len END_TOKEN_ID]
    by (auto simp: END_TOKEN_ID_def)
qed

lemma test_engine_ready: "ready_for_inference test_engine"
  by (simp add: ready_for_inference_def test_engine_def MAX_SEQUENCE_LENGTH_def VOCAB_SIZE_def
      HIDDEN_SIZE_def)

lemma healthy_never_fails: "runtime_never_fails healthy_api"
  unfolding healthy_api_def by (rule scripted_never_fails)

lemma healthy_never_selects_END: "never_selects_END healthy_api"
  unfolding healthy_api_def by (rule scripted_never_selects_END)

lemma test_image_size: "IMAGE_SIZE * IMAGE_SIZE * 3 \<le> int (length test_image)"
  by (simp add: test_image_def IMAGE_SIZE_def)

lemma test_token_buffer_size: "MAX_SEQUENCE_LENGTH \<le> int (length test_token_buffer)"
  by (simp add: test_token_buffer_def MAX_SEQUENCE_LENGTH_def)

lemma Initialize_scripted:
  assumes "write_ok 0" "write_ok 1" "write_ok 2" "write_ok 3"
  shows "Initialize (scripted_api write_ok True) new_process new_OcrInference
     test_encoder_asset test_decoder_asset test_embeddings_asset cache_dir native_lib_dir =
   Inr (True,
        \<lparr>g_persist_env = Some (Environment 0), backend = 4,
         events = [SharedEnvCreate, CompiledModelDestroyed (CompiledModel 0),
                   CompiledModelDestroyed (CompiledModel 1), CpuEnvCreate]\<rparr>,
        test_engine)"
  using assms
  by (simp add: Initialize_def acquire_shared_environment_def compile_models_def
      scripted_api_def new_process_def new_OcrInference_def
      test_encoder_asset_def test_decoder_asset_def test_embeddings_asset_def test_engine_def
      TryCompileWithGpu_def TryCompileWithCpu_def CreateBuffers_def PerformWarmup_def
      new_LiteRtObjects_def andthen_def deref_def read_at_def write_at_def destroy_model_def
      resize_def span_store_def Let_def GetOptimalThreadCount_def
      MAX_SEQUENCE_LENGTH_def HIDDEN_SIZE_def IMAGE_SIZE_def numeral_2_eq_2 numeral_3_eq_3)

text \<open>
  Claim C1, as the code has it: on an engine that is ready, called with
  \<^verbatim>\<open>max_tokens = 300\<close>, if no write, run or read of this call fails, neither before the
  loop nor in a pass through the loop body that the call reaches, and the greedy selection
  of no such pass is the END token, then \<^verbatim>\<open>InferTokens\<close> returns exactly 300 tokens,
  the START token followed by 299 generated ones: the loop body runs for each \<^verbatim>\<open>step\<close>
  from 0 to 298 and appends a token each time. The passes the call reaches are those in
  the states \<open>decode_steps\<close> gives.
\<close>

theorem InferTokens_full_sequence:
  assumes "ready_for_inference e" and "litert e = Some l"
    and "IMAGE_SIZE * IMAGE_SIZE * 3 \<le> int (length image_data)"
    and "MAX_SEQUENCE_LENGTH \<le> int (length out_tokens)"
    and "\<not> encoder_fails api b e l image_data out_tokens"
    and "\<And>l1 s0 n s.
        run_encoder api b e l image_data out_tokens = Inr (Inr (l1, s0)) \<Longrightarrow>
        decode_steps api l1 (embeddings_data e) 300 n s0 = Some s \<Longrightarrow>
        \<not> pass_fails api l1 s \<and> \<not> pass_selects_END api l1 s"
  shows "returned_count (InferTokens api b e image_data out_tokens 300) = Some 300 \<and>
         map_option length (returned_tokens (InferTokens api b e image_data out_tokens 300)) =
           Some 300 \<and>
         map_option hd (returned_tokens (InferTokens api b e image_data out_tokens 300)) =
           Some START_TOKEN_ID"
proof -
  have "\<exists>toks b' e'. InferTokens api b e image_data out_tokens 300 =
           Inr (max 2 (min 300 MAX_SEQUENCE_LENGTH), toks, b', e') \<and>
           toks ! 0 = START_TOKEN_ID \<and> length toks = length out_tokens"
    by (rule InferTokens_proceeds [OF assms(1-5)]) (rule assms(6))
  then obtain toks b' e' where r: "InferTokens api b e image_data out_tokens 300 =
      Inr (300, toks, b', e')" and h: "toks ! 0 = START_TOKEN_ID"
    and ln: "length toks = length out_tokens"
    by (auto simp: MAX_SEQUENCE_LENGTH_def)
  have len: "300 \<le> length toks" using ln assms(4) by (simp add: MAX_SEQUENCE_LENGTH_def)
  then have "toks \<noteq> []" by auto
  then have "hd (take 300 toks) = toks ! 0" by (simp add: hd_conv_nth)
  moreover have "length (take 300 toks) = 300" using len by simp
  ultimately show ?thesis using r h by (simp add: returned_count_def returned_tokens_def)
qed

theorem InferTokens_full_sequence_witness:
  "returned_count (InferTokens healthy_api 4 test_engine test_image test_token_buffer 300) =
     Some 300 \<and>
   map_option hd
     (returned_tokens (InferTokens healthy_api 4 test_engine test_image test_token_buffer 300)) =
     Some START_TOKEN_ID"
proof -
  obtain l where l: "litert test_engine = Some l" by (simp add: test_engine_def)
  have "returned_count (InferTokens healthy_api 4 test_engine test_image test_token_buffer 300) =
      Some 300 \<and>
    map_option length
      (returned_tokens (InferTokens healthy_api 4 test_engine test_image test_token_buffer 300)) =
      Some 300 \<and>
    map_option hd
      (returned_tokens (InferTokens healthy_api 4 test_engine test_image test_token_buffer 300)) =
      Some START_TOKEN_ID"
    by (rule InferTokens_full_sequence [OF test_engine_ready l test_image_size
          test_token_buffer_size never_fails_encoder [OF healthy_never_fails]])
      (simp add: never_fails_pass [OF healthy_never_fails]
        never_selects_END_pass [OF healthy_never_selects_END])
  then show ?thesis by simp
qed

theorem InferTokens_not_299:
  "ready_for_inference test_engine \<and> runtime_never_fails healthy_api \<and>
   never_selects_END healthy_api \<and>
   returned_count (InferTokens healthy_api 4 test_engine test_image test_token_buffer 300) \<noteq>
     Some 299"
proof -
  from InferTokens_without_END [OF healthy_never_fails healthy_never_selects_END
      test_engine_ready test_image_size test_token_buffer_size, of 4 300]
  have "returned_count (InferTokens healthy_api 4 test_engine test_image test_token_buffer 300) =
      Some 300"
    by (auto simp: MAX_SEQUENCE_LENGTH_def returned_count_def)
  then show ?thesis
    using test_engine_ready healthy_never_fails healthy_never_selects_END by simp
qed

text \<open>
  Claim C2 at \<^verbatim>\<open>max_tokens = 1\<close>: the limit is only tested after a token has been
  appended, so the first pass of the loop appends a second token and the call returns 2,
  more than the maximum the caller asked for.
\<close>

theorem InferTokens_exceeds_max_tokens:
  "returned_count (InferTokens healthy_api 4 test_engine test_image test_token_buffer 1) = Some 2"
proof -
  from InferTokens_without_END [OF healthy_never_fails healthy_never_selects_END
      test_engine_ready test_image_size test_token_buffer_size, of 4 1]
  show ?thesis
    by (auto simp: MAX_SEQUENCE_LENGTH_def returned_count_def)
qed




lemma run_encoder_start:
  assumes "run_encoder api b e l image_data out_tokens = Inr (Inr (l1, s0))"
  shows "ds_token_count s0 = 1"
  using assms unfolding run_encoder_def andthen_def deref_def Let_def
  by (auto split: sum.splits prod.splits option.splits if_splits)










section \<open>Properties of shutdown\<close>

lemma Close_twice: "Close (Close (w, e)) = Close (w, e)"
  by (simp add: Close_def Let_def close_asset_def)


lemma Close_released:
  "litert (snd (Close (w, e))) = None \<and> encoder_asset (snd (Close (w, e))) = None \<and>
   decoder_asset (snd (Close (w, e))) = None \<and> embeddings_asset (snd (Close (w, e))) = None \<and>
   attention_mask (snd (Close (w, e))) = [] \<and> \<not> initialized (snd (Close (w, e)))"
  by (simp add: Close_def Let_def)






section \<open>Properties of initialization\<close>

lemma reports_partialD:
  "reports_partial_acceleration api d \<Longrightarrow> CompiledModel_Create api b env d opts = (b', Some m) \<Longrightarrow>
   IsFullyAccelerated api b'' m = Some False"
  unfolding reports_partial_acceleration_def by (metis snd_conv)

lemma TryCompileWithGpu_result:
  assumes "TryCompileWithGpu api w l encoder_data decoder_data = Inr (ok, w', l')"
  shows "g_persist_env w' = g_persist_env w \<and>
         shared_env_creations w' = shared_env_creations w \<and>
         (\<not> ok \<longrightarrow> l' = l) \<and>
         (ok \<longrightarrow> encoder_using_gpu l' \<and> decoder_using_gpu l' \<and> using_gpu l' \<and>
            cpu_env l' = cpu_env l)"
  using assms unfolding TryCompileWithGpu_def andthen_def deref_def Let_def
  by (auto simp: shared_env_creations_def destroy_model_def
      split: prod.splits option.splits if_splits sum.splits)

lemma TryCompileWithGpu_rejects_partial:
  assumes "reports_partial_acceleration api encoder_data \<or>
           reports_partial_acceleration api decoder_data"
  shows "TryCompileWithGpu api w l encoder_data decoder_data \<noteq> Inr (True, w', l')"
  using assms unfolding TryCompileWithGpu_def andthen_def deref_def Let_def
  by (auto dest: reports_partialD split: prod.splits option.splits if_splits sum.splits)

lemma TryCompileWithCpu_result:
  assumes "TryCompileWithCpu api w l encoder_data decoder_data = Inr (ok, w', l')"
  shows "g_persist_env w' = g_persist_env w \<and>
         shared_env_creations w' = shared_env_creations w \<and>
         (ok \<longrightarrow> \<not> encoder_using_gpu l' \<and> \<not> decoder_using_gpu l' \<and> \<not> using_gpu l')"
  using assms unfolding TryCompileWithCpu_def andthen_def deref_def Let_def
  by (auto simp: shared_env_creations_def destroy_model_def
      split: prod.splits option.splits if_splits sum.splits)

lemma CreateBuffers_flags:
  assumes "CreateBuffers api b e l = Inr (ok, b', e', l')"
  shows "encoder_using_gpu l' = encoder_using_gpu l \<and>
         decoder_using_gpu l' = decoder_using_gpu l \<and> using_gpu l' = using_gpu l \<and>
         initialized e' = initialized e"
  using assms unfolding CreateBuffers_def andthen_def deref_def Let_def
  by (auto split: prod.splits option.splits if_splits sum.splits)

lemma Close_frame:
  "g_persist_env (fst (Close (w, e))) = g_persist_env w \<and>
   shared_env_creations (fst (Close (w, e))) = shared_env_creations w"
  by (auto simp: Close_def Let_def shared_env_creations_def destroy_buffers_def
      destroy_model_def destroy_env_def destroy_LiteRtObjects_def close_asset_def
      split: option.splits)


lemma Close_frameD:
  "Close (w, e) = (w', e') \<Longrightarrow>
   g_persist_env w' = g_persist_env w \<and> shared_env_creations w' = shared_env_creations w"
  using Close_frame [of w e] by simp

lemma shared_env_creations_simps [simp]:
  "shared_env_creations (w\<lparr>backend := b\<rparr>) = shared_env_creations w"
  "shared_env_creations (w\<lparr>g_persist_env := v\<rparr>) = shared_env_creations w"
  "shared_env_creations (w\<lparr>events := events w @ [SharedEnvCreate]\<rparr>) =
     Suc (shared_env_creations w)"
  "shared_env_creations (w\<lparr>events := events w @ [ReleaseSystemPages a, ReleaseSystemPages a']\<rparr>) =
     shared_env_creations w"
  "shared_env_creations (w\<lparr>events := events w @ destroy_LiteRtObjects l\<rparr>) =
     shared_env_creations w"
  by (auto simp: shared_env_creations_def destroy_buffers_def
      destroy_model_def destroy_env_def destroy_LiteRtObjects_def split: option.splits)

lemma acquire_shared_environment_result:
  assumes "acquire_shared_environment api w dir = (w', ok)"
  shows "(g_persist_env w \<noteq> None \<longrightarrow> w' = w \<and> ok) \<and>
         (g_persist_env w = None \<longrightarrow> shared_env_creations w' = Suc (shared_env_creations w)) \<and>
         (ok \<longleftrightarrow> g_persist_env w' \<noteq> None)"
  using assms unfolding acquire_shared_environment_def
  by (auto simp: shared_env_creations_def split: option.splits prod.splits)

lemma compile_models_result:
  assumes "compile_models api w l a1 a2 = Inr (ok, w', l')"
  shows "g_persist_env w' = g_persist_env w \<and>
         shared_env_creations w' = shared_env_creations w \<and>
         (ok \<longrightarrow> using_gpu l' = encoder_using_gpu l' \<and>
                 decoder_using_gpu l' = encoder_using_gpu l' \<and>
                 (encoder_using_gpu l' \<longrightarrow>
                    (\<exists>wg. TryCompileWithGpu api w l a1 a2 = Inr (True, wg, l'))))"
proof -
  let ?gpu = "dlopen api (backend w) ''libOpenCL.so'' \<or>
             dlopen api (backend w) ''libOpenCL-pixel.so'' \<or>
             dlopen api (backend w) ''libOpenCL-car.so'' \<or>
             dlopen api (backend w) ''/vendor/lib64/libOpenCL.so''"
  let ?first = "if ?gpu then TryCompileWithGpu api w l a1 a2 else Inr (False, w, l)"
  from assms obtain g w3 l3 where f: "?first = Inr (g, w3, l3)"
    unfolding compile_models_def Let_def andthen_def
    by (cases ?first) (auto split: prod.splits)
  have fr: "g_persist_env w3 = g_persist_env w \<and> shared_env_creations w3 = shared_env_creations w"
    and gl: "g \<longrightarrow> encoder_using_gpu l3 \<and> decoder_using_gpu l3 \<and> using_gpu l3 \<and>
               TryCompileWithGpu api w l a1 a2 = Inr (True, w3, l3)"
    and ngl: "\<not> g \<longrightarrow> l3 = l"
    using f TryCompileWithGpu_result [of api w l a1 a2 g w3 l3]
    by (auto split: if_splits)
  show ?thesis
  proof (cases g)
    case True
    with assms f have "w' = w3\<lparr>events := events w3 @
        [ReleaseSystemPages (asset_handle a1), ReleaseSystemPages (asset_handle a2)]\<rparr>"
      and "l' = l3" and "ok"
      unfolding compile_models_def Let_def andthen_def by simp_all
    with fr gl True show ?thesis by auto
  next
    case False
    with assms f have c: "TryCompileWithCpu api w3 l3 a1 a2 = Inr (ok, w', l')"
      unfolding compile_models_def Let_def andthen_def by simp
    from TryCompileWithCpu_result [OF c] fr show ?thesis by auto
  qed
qed

lemma compile_models_partial:
  assumes "reports_partial_acceleration api a1 \<or> reports_partial_acceleration api a2"
    and "compile_models api w l a1 a2 = Inr (True, w', l')"
  shows "\<not> encoder_using_gpu l' \<and> \<not> decoder_using_gpu l' \<and> \<not> using_gpu l'"
  using compile_models_result [OF assms(2)] TryCompileWithGpu_rejects_partial [OF assms(1)]
  by auto

lemma Initialize_success:
  assumes "Initialize api w e a1 a2 a3 c d = Inr (True, w', e')"
  shows "\<exists>w2 w5 l5 l7.
           compile_models api w2 new_LiteRtObjects a1 a2 = Inr (True, w5, l5) \<and>
           litert e' = Some l7 \<and> initialized e' \<and>
           encoder_using_gpu l7 = encoder_using_gpu l5 \<and>
           decoder_using_gpu l7 = decoder_using_gpu l5 \<and>
           using_gpu l7 = (encoder_using_gpu l5 \<and> decoder_using_gpu l5)"
proof -
  let ?e1 = "e\<lparr>encoder_asset := Some a1, decoder_asset := Some a2,
                 embeddings_asset := Some a3,
                 embeddings_data := asset_floats a3,
                 embedding_count := asset_length a3 div 4\<rparr>"
  let ?w1 = "w\<lparr>events := events w @
                   (case litert ?e1 of None \<Rightarrow> [] | Some old \<Rightarrow> destroy_LiteRtObjects old)\<rparr>"
  let ?e2 = "?e1\<lparr>litert := Some new_LiteRtObjects\<rparr>"
  from assms have ni: "\<not> initialized e" unfolding Initialize_def by (auto split: if_splits)
  from assms ni have na: "\<not> bad_alloc api (backend w) LiteRtObjects_alloc"
    unfolding Initialize_def Let_def by (auto split: if_splits prod.splits)
  obtain w2 env_ok where acq: "acquire_shared_environment api ?w1 d = (w2, env_ok)"
    by (cases "acquire_shared_environment api ?w1 d")
  from assms ni na acq have eo: "env_ok"
    unfolding Initialize_def Let_def by (auto split: if_splits)
  from assms ni na acq eo obtain compiled w5 l5
    where cm: "compile_models api w2 new_LiteRtObjects a1 a2 = Inr (compiled, w5, l5)"
    unfolding Initialize_def Let_def andthen_def
    by (cases "compile_models api w2 new_LiteRtObjects a1 a2") (auto split: prod.splits)
  from assms ni na acq eo cm have co: "compiled"
    unfolding Initialize_def Let_def andthen_def by (auto split: if_splits)
  let ?l6 = "l5\<lparr>using_gpu := (encoder_using_gpu l5 \<and> decoder_using_gpu l5)\<rparr>"
  from assms ni na acq eo cm co obtain buffers_ok b7 e7 l7
    where cb: "CreateBuffers api (backend w5) ?e2 ?l6 = Inr (buffers_ok, b7, e7, l7)"
    unfolding Initialize_def Let_def andthen_def
    by (cases "CreateBuffers api (backend w5) ?e2 ?l6") (auto split: prod.splits)
  from assms ni na acq eo cm co cb have bo: "buffers_ok"
    unfolding Initialize_def Let_def andthen_def by (auto split: if_splits)
  from assms ni na acq eo cm co cb bo obtain warm b8
    where pw: "PerformWarmup api b7 l7 = Inr (warm, b8)"
    unfolding Initialize_def Let_def andthen_def
    by (cases "PerformWarmup api b7 l7") (auto split: prod.splits)
  from assms ni na acq eo cm co cb bo pw
  have e': "litert e' = Some l7 \<and> initialized e'"
    unfolding Initialize_def Let_def andthen_def by (auto split: if_splits prod.splits)
  from CreateBuffers_flags [OF cb] e' cm co show ?thesis by auto
qed


lemma Initialize_env_frame:
  assumes "Initialize api w e a1 a2 a3 c d = Inr (r, w', e')"
  shows "(g_persist_env w \<noteq> None \<longrightarrow>
            g_persist_env w' = g_persist_env w \<and>
            shared_env_creations w' = shared_env_creations w) \<and>
         (g_persist_env w = None \<and> g_persist_env w' \<noteq> None \<longrightarrow>
            shared_env_creations w' = Suc (shared_env_creations w))"
    (is "?Q w w'")
proof (cases "initialized e")
  case True
  with assms have "w' = w" unfolding Initialize_def by simp
  then show ?thesis by auto
next
  case ni: False
  let ?e1 = "e\<lparr>encoder_asset := Some a1, decoder_asset := Some a2,
                 embeddings_asset := Some a3,
                 embeddings_data := asset_floats a3,
                 embedding_count := asset_length a3 div 4\<rparr>"
  let ?w1 = "w\<lparr>events := events w @
                   (case litert ?e1 of None \<Rightarrow> [] | Some old \<Rightarrow> destroy_LiteRtObjects old)\<rparr>"
  let ?e2 = "?e1\<lparr>litert := Some new_LiteRtObjects\<rparr>"
  show ?thesis
  proof (cases "bad_alloc api (backend w) LiteRtObjects_alloc")
    case True
    with assms ni have "w' = fst (Close (w, ?e1))"
      unfolding Initialize_def Let_def by (auto split: prod.splits)
    with Close_frame [of w ?e1] show ?thesis by auto
  next
    case na: False
    have w1: "g_persist_env ?w1 = g_persist_env w \<and>
        shared_env_creations ?w1 = shared_env_creations w"
      by (cases "litert e") simp_all
    obtain w2 env_ok where acq: "acquire_shared_environment api ?w1 d = (w2, env_ok)"
      by (cases "acquire_shared_environment api ?w1 d")
    from acquire_shared_environment_result [OF acq] w1 have q2: "?Q w w2" by auto
    show ?thesis
    proof (cases env_ok)
      case False
      with assms ni na acq have "w' = w2"
        unfolding Initialize_def Let_def by (auto split: if_splits)
      with q2 show ?thesis by auto
    next
      case eo: True
      from assms ni na acq eo obtain compiled w5 l5
        where cm: "compile_models api w2 new_LiteRtObjects a1 a2 = Inr (compiled, w5, l5)"
        unfolding Initialize_def Let_def andthen_def
        by (cases "compile_models api w2 new_LiteRtObjects a1 a2") (auto split: prod.splits)
      from compile_models_result [OF cm] q2 have q5: "?Q w w5" by auto
      then have q5b: "\<And>b. ?Q w (w5\<lparr>backend := b\<rparr>)" by auto
      show ?thesis
      proof (cases compiled)
        case False
        with assms ni na acq eo cm have "w' = w5"
          unfolding Initialize_def Let_def andthen_def by (auto split: if_splits)
        with q5 show ?thesis by auto
      next
        case co: True
        let ?l6 = "l5\<lparr>using_gpu := (encoder_using_gpu l5 \<and> decoder_using_gpu l5)\<rparr>"
        from assms ni na acq eo cm co obtain buffers_ok b7 e7 l7
          where cb: "CreateBuffers api (backend w5) ?e2 ?l6 = Inr (buffers_ok, b7, e7, l7)"
          unfolding Initialize_def Let_def andthen_def
          by (cases "CreateBuffers api (backend w5) ?e2 ?l6") (auto split: prod.splits)
        show ?thesis
        proof (cases buffers_ok)
          case False
          with assms ni na acq eo cm co cb have "w' = w5\<lparr>backend := b7\<rparr>"
            unfolding Initialize_def Let_def andthen_def by (auto split: if_splits)
          with q5b show ?thesis by auto
        next
          case bo: True
          from assms ni na acq eo cm co cb bo obtain warm b8
            where pw: "PerformWarmup api b7 l7 = Inr (warm, b8)"
            unfolding Initialize_def Let_def andthen_def
            by (cases "PerformWarmup api b7 l7") (auto split: prod.splits)
          from assms ni na acq eo cm co cb bo pw
          have "w' = w5\<lparr>backend := b8\<rparr> \<or>
              w' = fst (Close (w5\<lparr>backend := b8\<rparr>, e7\<lparr>litert := Some l7\<rparr>))"
            unfolding Initialize_def Let_def andthen_def
            by (auto split: if_splits prod.splits)
          with q5b [of b8] Close_frame [of "w5\<lparr>backend := b8\<rparr>" "e7\<lparr>litert := Some l7\<rparr>"]
          show ?thesis by auto
        qed
      qed
    qed
  qed
qed

lemma healthy_reports_partial: "reports_partial_acceleration healthy_api a"
  by (simp add: reports_partial_acceleration_def healthy_api_def scripted_api_def)

lemma Initialize_healthy:
  "Initialize healthy_api new_process new_OcrInference
     test_encoder_asset test_decoder_asset test_embeddings_asset cache_dir native_lib_dir =
   Inr (True,
        \<lparr>g_persist_env = Some (Environment 0), backend = 4,
         events = [SharedEnvCreate, CompiledModelDestroyed (CompiledModel 0),
                   CompiledModelDestroyed (CompiledModel 1), CpuEnvCreate]\<rparr>,
        test_engine)"
  unfolding healthy_api_def by (rule Initialize_scripted) simp_all

text \<open>
  Claim C5: an engine that \<^verbatim>\<open>Initialize\<close> reports as initialized has both models on the
  same backend, and its \<^verbatim>\<open>using_gpu\<close> is the conjunction of the two flags. When the
  compiled encoder or the compiled decoder reports that it is not fully accelerated,
  \<^verbatim>\<open>TryCompileWithGpu\<close> never accepts, whatever state it starts from, and the initialized
  engine answers false to \<^verbatim>\<open>IsEncoderUsingGpu\<close> and to \<^verbatim>\<open>IsDecoderUsingGpu\<close>.
\<close>

theorem partial_acceleration_is_rejected:
  assumes "Initialize api w e encoder_data decoder_data embeddings cache_dir native_lib_dir =
             Inr (True, w', e')"
  shows "IsEncoderUsingGpu e' = IsDecoderUsingGpu e' \<and>
         (\<exists>l. litert e' = Some l \<and> using_gpu l = (encoder_using_gpu l \<and> decoder_using_gpu l)) \<and>
         (reports_partial_acceleration api encoder_data \<or>
          reports_partial_acceleration api decoder_data \<longrightarrow>
            \<not> IsEncoderUsingGpu e' \<and> \<not> IsDecoderUsingGpu e' \<and>
            (\<forall>wg lg wg' lg'.
               TryCompileWithGpu api wg lg encoder_data decoder_data \<noteq> Inr (True, wg', lg')))"
proof -
  from Initialize_success [OF assms] obtain w2 w5 l5 l7 where
    cm: "compile_models api w2 new_LiteRtObjects encoder_data decoder_data = Inr (True, w5, l5)"
    and l7: "litert e' = Some l7"
    and f: "encoder_using_gpu l7 = encoder_using_gpu l5"
      "decoder_using_gpu l7 = decoder_using_gpu l5"
      "using_gpu l7 = (encoder_using_gpu l5 \<and> decoder_using_gpu l5)" by blast
  from compile_models_result [OF cm]
  have same: "decoder_using_gpu l5 = encoder_using_gpu l5" by simp
  have a: "IsEncoderUsingGpu e' = IsDecoderUsingGpu e'"
    using l7 f same by (simp add: IsEncoderUsingGpu_def IsDecoderUsingGpu_def)
  have b: "\<exists>l. litert e' = Some l \<and> using_gpu l = (encoder_using_gpu l \<and> decoder_using_gpu l)"
    using l7 f by simp
  have c: "\<not> IsEncoderUsingGpu e' \<and> \<not> IsDecoderUsingGpu e' \<and>
      (\<forall>wg lg wg' lg'.
         TryCompileWithGpu api wg lg encoder_data decoder_data \<noteq> Inr (True, wg', lg'))"
    if p: "reports_partial_acceleration api encoder_data \<or>
           reports_partial_acceleration api decoder_data"
  proof -
    from compile_models_partial [OF p cm] l7 f
    have "\<not> IsEncoderUsingGpu e' \<and> \<not> IsDecoderUsingGpu e'"
      by (simp add: IsEncoderUsingGpu_def IsDecoderUsingGpu_def)
    with TryCompileWithGpu_rejects_partial [OF p] show ?thesis by blast
  qed
  from a b c show ?thesis by blast
qed

theorem partial_acceleration_is_rejected_witness:
  "reports_partial_acceleration healthy_api test_encoder_asset \<and>
   \<not> IsEncoderUsingGpu test_engine \<and> \<not> IsDecoderUsingGpu test_engine"
  using partial_acceleration_is_rejected [OF Initialize_healthy] healthy_reports_partial
  by blast

lemmas scripted_run_defs =
  Initialize_def acquire_shared_environment_def compile_models_def
  scripted_api_def new_process_def new_OcrInference_def
  test_encoder_asset_def test_decoder_asset_def test_embeddings_asset_def test_engine_def
  TryCompileWithGpu_def TryCompileWithCpu_def CreateBuffers_def PerformWarmup_def
  new_LiteRtObjects_def andthen_def deref_def read_at_def write_at_def destroy_model_def
  resize_def span_store_def Let_def GetOptimalThreadCount_def
  MAX_SEQUENCE_LENGTH_def HIDDEN_SIZE_def IMAGE_SIZE_def numeral_2_eq_2 numeral_3_eq_3

lemma Initialize_failing_warmup:
  "Initialize failing_warmup_api new_process new_OcrInference
     test_encoder_asset test_decoder_asset test_embeddings_asset cache_dir native_lib_dir =
   Inr (False, process_after_failed_warmup, engine_after_failed_warmup)"
  by (simp add: scripted_run_defs failing_warmup_api_def process_after_failed_warmup_def
      engine_after_failed_warmup_def)

lemma Close_scripted:
  "Close (\<lparr>g_persist_env = g, backend = b, events = evs\<rparr>, test_engine) =
     (\<lparr>g_persist_env = g, backend = b,
       events = evs @
                [TensorBufferDestroyed (TensorBuffer 0), TensorBufferDestroyed (TensorBuffer 1),
                 TensorBufferDestroyed (TensorBuffer 2), TensorBufferDestroyed (TensorBuffer 3),
                 TensorBufferDestroyed (TensorBuffer 4), TensorBufferDestroyed (TensorBuffer 5),
                 CompiledModelDestroyed (CompiledModel 0), CompiledModelDestroyed (CompiledModel 1),
                 EnvironmentDestroyed (Environment 1),
                 AAsset_close 0, AAsset_close 1, AAsset_close 2]\<rparr>,
      closed_test_engine)"
  by (simp add: Close_def Let_def close_asset_def test_engine_def destroy_buffers_def
      destroy_model_def destroy_env_def destroy_LiteRtObjects_def closed_test_engine_def
      test_encoder_asset_def test_decoder_asset_def test_embeddings_asset_def)

lemma Initialize_healthy_again:
  "Initialize healthy_api \<lparr>g_persist_env = Some (Environment 0), backend = b, events = evs\<rparr>
     closed_test_engine
     test_encoder_asset test_decoder_asset test_embeddings_asset cache_dir native_lib_dir =
   Inr (True,
        \<lparr>g_persist_env = Some (Environment 0), backend = Suc (Suc (Suc (Suc b))),
         events = evs @ [CompiledModelDestroyed (CompiledModel 0),
                   CompiledModelDestroyed (CompiledModel 1), CpuEnvCreate]\<rparr>,
        test_engine)"
  by (simp add: scripted_run_defs healthy_api_def closed_test_engine_def)

text \<open>
  Claim C7 on a new engine whose warmup fails: \<^verbatim>\<open>Initialize\<close> returns false and leaves
  the compiled models, the tensor buffers, the CPU environment and the three assets in the
  engine; no release has happened, and a \<^verbatim>\<open>Close\<close> afterwards still has all of them to
  release. The engine is not in the state \<^verbatim>\<open>Close\<close> leaves.
\<close>

theorem Initialize_failure_keeps_resources:
  "Initialize failing_warmup_api new_process new_OcrInference
     test_encoder_asset test_decoder_asset test_embeddings_asset [] [] =
     Inr (False, process_after_failed_warmup, engine_after_failed_warmup) \<and>
   litert engine_after_failed_warmup \<noteq> None \<and>
   encoder_asset engine_after_failed_warmup = Some test_encoder_asset \<and>
   decoder_asset engine_after_failed_warmup = Some test_decoder_asset \<and>
   embeddings_asset engine_after_failed_warmup = Some test_embeddings_asset \<and>
   snd (Close (process_after_failed_warmup, engine_after_failed_warmup)) \<noteq>
     engine_after_failed_warmup \<and>
   events (fst (Close (process_after_failed_warmup, engine_after_failed_warmup))) =
     events process_after_failed_warmup @
     [TensorBufferDestroyed (TensorBuffer 0), TensorBufferDestroyed (TensorBuffer 1),
      TensorBufferDestroyed (TensorBuffer 2), TensorBufferDestroyed (TensorBuffer 3),
      TensorBufferDestroyed (TensorBuffer 4), TensorBufferDestroyed (TensorBuffer 5),
      CompiledModelDestroyed (CompiledModel 0), CompiledModelDestroyed (CompiledModel 1),
      EnvironmentDestroyed (Environment 1),
      AAsset_close 0, AAsset_close 1, AAsset_close 2]"
proof -
  have "litert (snd (Close (process_after_failed_warmup, engine_after_failed_warmup))) = None"
    using Close_released by blast
  moreover have h: "litert engine_after_failed_warmup \<noteq> None"
    by (simp add: engine_after_failed_warmup_def test_engine_def)
  ultimately have "snd (Close (process_after_failed_warmup, engine_after_failed_warmup)) \<noteq>
     engine_after_failed_warmup" by metis
  moreover have "events (fst (Close (process_after_failed_warmup, engine_after_failed_warmup))) =
     events process_after_failed_warmup @
     [TensorBufferDestroyed (TensorBuffer 0), TensorBufferDestroyed (TensorBuffer 1),
      TensorBufferDestroyed (TensorBuffer 2), TensorBufferDestroyed (TensorBuffer 3),
      TensorBufferDestroyed (TensorBuffer 4), TensorBufferDestroyed (TensorBuffer 5),
      CompiledModelDestroyed (CompiledModel 0), CompiledModelDestroyed (CompiledModel 1),
      EnvironmentDestroyed (Environment 1),
      AAsset_close 0, AAsset_close 1, AAsset_close 2]"
    by (simp add: Close_def Let_def close_asset_def test_engine_def destroy_buffers_def
      destroy_model_def destroy_env_def destroy_LiteRtObjects_def engine_after_failed_warmup_def
      process_after_failed_warmup_def
      test_encoder_asset_def test_decoder_asset_def test_embeddings_asset_def)
  ultimately show ?thesis
    using Initialize_failing_warmup [of "[]" "[]"] h
    by (simp add: engine_after_failed_warmup_def test_engine_def)
qed



text \<open>
  The \<^verbatim>\<open>catch\<close> block does what the \<^verbatim>\<open>return false\<close> statements do not: when the
  allocation of \<^verbatim>\<open>LiteRtObjects\<close> throws, the engine is returned as \<^verbatim>\<open>Close\<close> leaves it.
\<close>

lemma Initialize_exception_unwinds:
  assumes "\<not> initialized e" and "bad_alloc api (backend w) LiteRtObjects_alloc"
  shows "\<exists>w' e'. Initialize api w e a1 a2 a3 c d = Inr (False, w', e') \<and>
           litert e' = None \<and> encoder_asset e' = None \<and> decoder_asset e' = None \<and>
           embeddings_asset e' = None \<and> Close (w', e') = (w', e')"
proof -
  let ?e1 = "e\<lparr>encoder_asset := Some a1, decoder_asset := Some a2,
                 embeddings_asset := Some a3,
                 embeddings_data := asset_floats a3,
                 embedding_count := asset_length a3 div 4\<rparr>"
  have "Initialize api w e a1 a2 a3 c d =
      Inr (False, fst (Close (w, ?e1)), snd (Close (w, ?e1)))"
    using assms unfolding Initialize_def Let_def by (simp split: prod.splits)
  moreover have "Close (fst (Close (w, ?e1)), snd (Close (w, ?e1))) =
      (fst (Close (w, ?e1)), snd (Close (w, ?e1)))"
    using Close_twice [of w ?e1] by simp
  ultimately show ?thesis using Close_released [of w ?e1] by blast
qed

text \<open>
  Claim C8: across \<^verbatim>\<open>Initialize\<close>, \<^verbatim>\<open>Close\<close>, \<^verbatim>\<open>Initialize\<close>, \<^verbatim>\<open>Close\<close>, starting
  without a shared environment, once the first \<^verbatim>\<open>Initialize\<close> has created it the handle
  stays the same through both calls of \<^verbatim>\<open>Close\<close> and the second \<^verbatim>\<open>Initialize\<close>, and
  the shared environment has been created exactly once more than before the first call:
  the second \<^verbatim>\<open>Initialize\<close> does not create it again, whatever the runtime does then.
\<close>

theorem shared_environment_survives_Close:
  assumes "g_persist_env w0 = None"
    and "Initialize api w0 e0 a1 a2 a3 c d = Inr (r1, w1, e1)"
    and "g_persist_env w1 \<noteq> None"
    and "Close (w1, e1) = (w2, e2)"
    and "Initialize api' w2 e2 a1' a2' a3' c' d' = Inr (r2, w3, e3)"
    and "Close (w3, e3) = (w4, e4)"
  shows "shared_env_creations w1 = shared_env_creations w0 + 1 \<and>
         g_persist_env w2 = g_persist_env w1 \<and> g_persist_env w3 = g_persist_env w1 \<and>
         g_persist_env w4 = g_persist_env w1 \<and>
         shared_env_creations w4 = shared_env_creations w0 + 1"
proof -
  from Initialize_env_frame [OF assms(2)] assms(1,3)
  have c1: "shared_env_creations w1 = shared_env_creations w0 + 1" by simp
  from Close_frameD [OF assms(4)]
  have f2: "g_persist_env w2 = g_persist_env w1" "shared_env_creations w2 = shared_env_creations w1"
    by simp_all
  from Initialize_env_frame [OF assms(5)] f2 assms(3)
  have f3: "g_persist_env w3 = g_persist_env w1" "shared_env_creations w3 = shared_env_creations w1"
    by simp_all
  from Close_frameD [OF assms(6)] f3
  have f4: "g_persist_env w4 = g_persist_env w1" "shared_env_creations w4 = shared_env_creations w1"
    by simp_all
  from c1 f2 f3 f4 show ?thesis by simp
qed

theorem shared_environment_survives_Close_witness:
  "\<exists>w1 e1 w2 e2 w3 e3 w4 e4.
     Initialize healthy_api new_process new_OcrInference
       test_encoder_asset test_decoder_asset test_embeddings_asset [] [] = Inr (True, w1, e1) \<and>
     Close (w1, e1) = (w2, e2) \<and>
     Initialize healthy_api w2 e2
       test_encoder_asset test_decoder_asset test_embeddings_asset [] [] = Inr (True, w3, e3) \<and>
     Close (w3, e3) = (w4, e4) \<and>
     g_persist_env w4 = Some (Environment 0) \<and> shared_env_creations w4 = 1"
proof -
  let ?ev1 = "[SharedEnvCreate, CompiledModelDestroyed (CompiledModel 0),
                   CompiledModelDestroyed (CompiledModel 1), CpuEnvCreate]"
  let ?w1 = "\<lparr>g_persist_env = Some (Environment 0), backend = 4 :: nat, events = ?ev1\<rparr>"
  have i1: "Initialize healthy_api new_process new_OcrInference
       test_encoder_asset test_decoder_asset test_embeddings_asset [] [] =
       Inr (True, ?w1, test_engine)" by (rule Initialize_healthy)
  let ?w2 = "\<lparr>g_persist_env = Some (Environment 0), backend = 4 :: nat,
       events = ?ev1 @
                [TensorBufferDestroyed (TensorBuffer 0), TensorBufferDestroyed (TensorBuffer 1),
                 TensorBufferDestroyed (TensorBuffer 2), TensorBufferDestroyed (TensorBuffer 3),
                 TensorBufferDestroyed (TensorBuffer 4), TensorBufferDestroyed (TensorBuffer 5),
                 CompiledModelDestroyed (CompiledModel 0), CompiledModelDestroyed (CompiledModel 1),
                 EnvironmentDestroyed (Environment 1),
                 AAsset_close 0, AAsset_close 1, AAsset_close 2]\<rparr>"
  have c1: "Close (?w1, test_engine) = (?w2, closed_test_engine)"
    by (rule Close_scripted)
  obtain w3 where i2: "Initialize healthy_api ?w2 closed_test_engine
       test_encoder_asset test_decoder_asset test_embeddings_asset [] [] =
       Inr (True, w3, test_engine)"
    using Initialize_healthy_again by blast
  obtain w4 e4 where c2: "Close (w3, test_engine) = (w4, e4)"
    by (cases "Close (w3, test_engine)")
  have g0: "g_persist_env new_process = None" by (simp add: new_process_def)
  have g1: "g_persist_env ?w1 \<noteq> None" by simp
  from shared_environment_survives_Close [OF g0 i1 g1 c1 i2 c2]
  have "g_persist_env w4 = Some (Environment 0) \<and> shared_env_creations w4 = 1"
    by (simp add: shared_env_creations_def new_process_def)
  with i1 c1 i2 c2 show ?thesis by blast
qed

section \<open>Repeated inference on a runtime of pure functions\<close>

lemma fold_update_apply:
  "fold (\<lambda>(t, y) b. b(t := y)) ps b t =
     (case map_of (rev ps) t of Some y \<Rightarrow> y | None \<Rightarrow> b t)"
proof (induction ps arbitrary: b)
  case Nil
  then show ?case by simp
next
  case (Cons p ps)
  obtain t1 y1 where p: "p = (t1, y1)" by (cases p)
  show ?case using Cons.IH [of "b(t1 := y1)"]
    by (auto simp: p map_of_append split: option.splits)
qed

lemma store_outputs_apply:
  "store_outputs outs ys b t =
     (case map_of (rev (zip outs ys)) t of Some y \<Rightarrow> y | None \<Rightarrow> b t)"
  unfolding store_outputs_def by (rule fold_update_apply)

lemma store_outputs_covers:
  assumes "read_at outs 0 = Inr t" "length ys = length outs"
  shows "\<exists>y. map_of (rev (zip outs ys)) t = Some y"
proof -
  from assms(1) have "outs \<noteq> []" "t = outs ! 0" by (auto simp: read_at_def split: if_splits)
  then have "t \<in> set outs" by (cases outs) auto
  then have "t \<in> fst ` set (rev (zip outs ys))" using assms(2)
    by (simp add: map_fst_zip flip: set_map)
  then show ?thesis by (metis map_of_eq_None_iff not_Some_eq)
qed

lemma span_store_full: "length ys = length old \<Longrightarrow> span_store old ys = ys"
  by (simp add: span_store_def)

lemma take_update_same:
  assumes "take n xs = take n ys" "length xs = length ys" "n < length xs"
  shows "take (Suc n) (xs[n := v]) = take (Suc n) (ys[n := v])"
  using assms by (simp add: take_Suc_conv_app_nth)

lemma pure_write:
  "TensorBuffer_Write (pure_api base model accepts) b t d =
     (if accepts t d then (b(t := d), True) else (b, False))"
  by (simp add: pure_api_def)

lemma pure_read:
  "TensorBuffer_Read (pure_api base model accepts) b t n =
     (b, if n \<le> length (b t) then Some (take n (b t)) else None)"
  by (simp add: pure_api_def)

lemma pure_run:
  "CompiledModel_Run (pure_api base model accepts) b m ins outs =
     (case model m (map b ins) of
        None \<Rightarrow> (b, False)
      | Some ys \<Rightarrow>
          if length ys = length outs then (store_outputs outs ys b, True) else (b, False))"
  by (simp add: pure_api_def)

lemma run_decoder_coupled:
  assumes ins: "decoder_input_buffers l = [d0, d1, d2]"
    and em: "ds_embeddings_input s' = ds_embeddings_input s"
    and am: "ds_attention_mask s' = ds_attention_mask s"
    and ll: "length (ds_decoder_logits s') = length (ds_decoder_logits s)"
    and d0: "ds_backend s' d0 = ds_backend s d0"
  shows "case run_decoder (pure_api base model accepts) l s of
           Inl f \<Rightarrow> run_decoder (pure_api base model accepts) l s' = Inl f
         | Inr r \<Rightarrow>
            (case r of
               Inl b \<Rightarrow> (\<exists>b'. run_decoder (pure_api base model accepts) l s' = Inr (Inl b'))
             | Inr (b4, ys) \<Rightarrow>
                 (\<exists>b4'. run_decoder (pure_api base model accepts) l s' = Inr (Inr (b4', ys)) \<and>
                        b4' d0 = b4 d0 \<and> length ys = length (ds_decoder_logits s)))"
proof -
  let ?P = "pure_api base model accepts"
  let ?b = "ds_backend s" and ?b' = "ds_backend s'"
  have r1: "read_at (decoder_input_buffers l) 1 = Inr d1"
    and r2: "read_at (decoder_input_buffers l) 2 = Inr d2"
    by (simp_all add: ins read_at_def)
  show ?thesis
  proof (cases "span_of (ds_attention_mask s) MAX_SEQUENCE_LENGTH")
    case (Inl f)
    then show ?thesis unfolding run_decoder_def by (simp add: andthen_def r1 am)
  next
    case (Inr mask)
    note sp1 = this
    show ?thesis
    proof (cases "accepts d1 mask")
      case False
      then show ?thesis unfolding run_decoder_def
        by (simp add: andthen_def r1 am sp1 pure_write)
    next
      case a1: True
      show ?thesis
      proof (cases "span_of (ds_embeddings_input s) (MAX_SEQUENCE_LENGTH * HIDDEN_SIZE)")
        case (Inl f)
        then show ?thesis unfolding run_decoder_def
          by (simp add: andthen_def r1 r2 am em sp1 pure_write a1)
      next
        case (Inr emb)
        note sp2 = this
        show ?thesis
        proof (cases "accepts d2 emb")
          case False
          then show ?thesis unfolding run_decoder_def
            by (simp add: andthen_def r1 r2 am em sp1 sp2 pure_write a1)
        next
          case a2: True
          show ?thesis
          proof (cases "compiled_decoder l")
            case None
            then show ?thesis unfolding run_decoder_def
              by (simp add: andthen_def deref_def r1 r2 am em sp1 sp2 pure_write a1 a2)
          next
            case (Some decoder)
            let ?b2 = "?b(d1 := mask, d2 := emb)" and ?b2' = "?b'(d1 := mask, d2 := emb)"
            let ?outs = "decoder_output_buffers l"
            let ?n = "length (ds_decoder_logits s)"
            have inp: "map ?b2' (decoder_input_buffers l) = map ?b2 (decoder_input_buffers l)"
              using d0 by (simp add: ins)
            have b2d0: "?b2' d0 = ?b2 d0" using d0 by simp
            have pre: "run_decoder ?P l s =
                 (case CompiledModel_Run ?P ?b2 decoder (decoder_input_buffers l) ?outs
                  of (b3, run_ok) \<Rightarrow>
                  if \<not> run_ok then Inr (Inl b3) else
                  andthen (read_at ?outs 0) (\<lambda>logits_buffer.
                  case TensorBuffer_Read ?P b3 logits_buffer ?n
                  of (b4, logits_result) \<Rightarrow>
                  case logits_result of
                    None \<Rightarrow> Inr (Inl b4)
                  | Some ys \<Rightarrow> Inr (Inr (b4, ys))))"
              unfolding run_decoder_def
              by (simp add: andthen_def deref_def r1 r2 sp1 sp2 pure_write a1 a2 Some)
            have pre': "run_decoder ?P l s' =
                 (case CompiledModel_Run ?P ?b2' decoder (decoder_input_buffers l) ?outs
                  of (b3, run_ok) \<Rightarrow>
                  if \<not> run_ok then Inr (Inl b3) else
                  andthen (read_at ?outs 0) (\<lambda>logits_buffer.
                  case TensorBuffer_Read ?P b3 logits_buffer ?n
                  of (b4, logits_result) \<Rightarrow>
                  case logits_result of
                    None \<Rightarrow> Inr (Inl b4)
                  | Some ys \<Rightarrow> Inr (Inr (b4, ys))))"
              unfolding run_decoder_def am em ll
              by (simp add: andthen_def deref_def r1 r2 sp1 sp2 pure_write a1 a2 Some)
            show ?thesis
            proof (cases "model decoder (map ?b2 (decoder_input_buffers l))")
              case None
              then show ?thesis unfolding pre pre' by (simp add: pure_run inp)
            next
              case (Some ys)
              note m = this
              show ?thesis
              proof (cases "length ys = length ?outs")
                case False
                then show ?thesis unfolding pre pre' by (simp add: pure_run inp m)
              next
                case len: True
                let ?b3 = "store_outputs ?outs ys ?b2" and ?b3' = "store_outputs ?outs ys ?b2'"
                have b3d0: "?b3' d0 = ?b3 d0"
                  using b2d0 by (simp add: store_outputs_apply split: option.splits)
                show ?thesis
                proof (cases "read_at ?outs 0")
                  case (Inl f)
                  then show ?thesis unfolding pre pre' by (simp add: pure_run inp m len andthen_def)
                next
                  case (Inr t)
                  from store_outputs_covers [OF Inr len] obtain y
                    where y: "map_of (rev (zip ?outs ys)) t = Some y" by blast
                  have c: "?b3 t = y" "?b3' t = y" by (simp_all add: store_outputs_apply y)
                  show ?thesis unfolding pre pre'
                    using b3d0 by (simp add: pure_run pure_read inp m len andthen_def Inr c)
                qed
              qed
            qed
          qed
        qed
      qed
    qed
  qed
qed

lemma append_token_coupled:
  assumes tc: "ds_token_count s' = ds_token_count s"
    and tk: "take (nat (ds_token_count s)) (ds_out_tokens s') =
        take (nat (ds_token_count s)) (ds_out_tokens s)"
    and lo: "length (ds_out_tokens s') = length (ds_out_tokens s)"
    and em: "ds_embeddings_input s' = ds_embeddings_input s"
    and am: "ds_attention_mask s' = ds_attention_mask s"
    and ll: "length (ds_decoder_logits s') = length (ds_decoder_logits s)"
    and d0: "b4' d0 = b4 d0"
    and ly: "length ys = length (ds_decoder_logits s)"
  shows "case append_token data max_tokens s b4 ys of
           Inl f \<Rightarrow> append_token data max_tokens s' b4' ys = Inl f
         | Inr r \<Rightarrow>
            (case r of
               Stopped reason t \<Rightarrow>
                 (\<exists>t'. append_token data max_tokens s' b4' ys = Inr (Stopped reason t') \<and>
                       same_tokens t t')
             | Proceed t \<Rightarrow>
                 (\<exists>t'. append_token data max_tokens s' b4' ys = Inr (Proceed t') \<and>
                       same_decoding d0 t t'))"
proof -
  have ss: "span_store (ds_decoder_logits s) ys = ys" "span_store (ds_decoder_logits s') ys = ys"
    using ly ll by (simp_all add: span_store_full)
  let ?tc = "ds_token_count s"
  show ?thesis
  proof (cases "FindMaxLogitToken ys ?tc")
    case (Inl f)
    then show ?thesis unfolding append_token_def ss tc by (simp add: andthen_def)
  next
    case (Inr t)
    note fm = this
    show ?thesis
    proof (cases "t < 0 \<or> t = END_TOKEN_ID")
      case True
      then show ?thesis unfolding append_token_def ss tc
        using tk tc by (auto simp: andthen_def fm same_tokens_def)
    next
      case nend: False
      show ?thesis
      proof (cases "0 \<le> ?tc \<and> ?tc < int (length (ds_out_tokens s))")
        case False
        then have "write_at (ds_out_tokens s) ?tc t = Inl OutOfBounds"
          "write_at (ds_out_tokens s') ?tc t = Inl OutOfBounds"
          using lo by (auto simp: write_at_def)
        then show ?thesis unfolding append_token_def ss tc
          using nend by (simp add: andthen_def fm)
      next
        case inb: True
        then have w: "write_at (ds_out_tokens s) ?tc t = Inr ((ds_out_tokens s)[nat ?tc := t])"
          "write_at (ds_out_tokens s') ?tc t = Inr ((ds_out_tokens s')[nat ?tc := t])"
          using lo by (auto simp: write_at_def)
        have "nat ?tc < length (ds_out_tokens s')" using inb lo by auto
        from take_update_same [OF tk lo this, of t]
        have tk': "take (nat (?tc + 1)) ((ds_out_tokens s')[nat ?tc := t]) =
            take (nat (?tc + 1)) ((ds_out_tokens s)[nat ?tc := t])"
          using inb by (simp add: nat_add_distrib)
        show ?thesis
        proof (cases "UpdateEmbedding data (ds_embeddings_input s) t ?tc")
          case (Inl f)
          then show ?thesis unfolding append_token_def ss tc em
            using nend by (simp add: andthen_def fm w)
        next
          case (Inr emb')
          note ue = this
          show ?thesis
          proof (cases "write_at (ds_attention_mask s) ?tc (Fin 1)")
            case (Inl f)
            then show ?thesis unfolding append_token_def ss tc em am
              using nend by (simp add: andthen_def fm w ue)
          next
            case (Inr mask')
            then show ?thesis unfolding append_token_def ss tc em am
              using nend tk' d0 lo
              by (simp add: andthen_def fm w ue Let_def same_tokens_def same_decoding_def)
          qed
        qed
      qed
    qed
  qed
qed

lemma decode_body_coupled:
  assumes ins: "decoder_input_buffers l = [d0, d1, d2]"
    and sd: "same_decoding d0 s s'"
  shows "case decode_body (pure_api base model accepts) l data max_tokens s of
           Inl f \<Rightarrow> decode_body (pure_api base model accepts) l data max_tokens s' = Inl f
         | Inr r \<Rightarrow>
            (case r of
               Stopped reason t \<Rightarrow>
                 (\<exists>t'. decode_body (pure_api base model accepts) l data max_tokens s' =
                         Inr (Stopped reason t') \<and> same_tokens t t')
             | Proceed t \<Rightarrow>
                 (\<exists>t'. decode_body (pure_api base model accepts) l data max_tokens s' =
                         Inr (Proceed t') \<and> same_decoding d0 t t'))"
proof -
  let ?P = "pure_api base model accepts"
  from sd have tc: "ds_token_count s' = ds_token_count s"
    and tk: "take (nat (ds_token_count s)) (ds_out_tokens s') =
        take (nat (ds_token_count s)) (ds_out_tokens s)"
    and lo: "length (ds_out_tokens s') = length (ds_out_tokens s)"
    and em: "ds_embeddings_input s' = ds_embeddings_input s"
    and am: "ds_attention_mask s' = ds_attention_mask s"
    and ll: "length (ds_decoder_logits s') = length (ds_decoder_logits s)"
    and d0: "ds_backend s' d0 = ds_backend s d0"
    by (simp_all add: same_decoding_def)
  note rc = run_decoder_coupled [OF ins em am ll d0, of base model accepts]
  show ?thesis
  proof (cases "run_decoder ?P l s")
    case (Inl f)
    with rc show ?thesis unfolding decode_body_def by (simp add: andthen_def)
  next
    case (Inr r)
    show ?thesis
    proof (cases r)
      case (Inl b)
      with rc Inr obtain b' where "run_decoder ?P l s' = Inr (Inl b')" by auto
      with Inr Inl show ?thesis unfolding decode_body_def
        using tc tk by (simp add: andthen_def same_tokens_def)
    next
      case (Inr p)
      obtain b4 ys where p: "p = (b4, ys)" by (cases p)
      with rc \<open>run_decoder ?P l s = Inr r\<close> Inr obtain b4'
        where r': "run_decoder ?P l s' = Inr (Inr (b4', ys))" and b4: "b4' d0 = b4 d0"
          and ly: "length ys = length (ds_decoder_logits s)" by auto
      have eq: "decode_body ?P l data max_tokens s = append_token data max_tokens s b4 ys"
        unfolding decode_body_def
        using \<open>run_decoder ?P l s = Inr r\<close> Inr p by (simp add: andthen_def)
      have eq': "decode_body ?P l data max_tokens s' = append_token data max_tokens s' b4' ys"
        unfolding decode_body_def using r' by (simp add: andthen_def)
      from append_token_coupled [where s = s and s' = s' and ?b4.0 = b4 and b4' = b4'
          and ?d0.0 = d0 and ys = ys and data = data and max_tokens = max_tokens,
          OF tc tk lo em am ll b4 ly]
      show ?thesis unfolding eq eq' .
    qed
  qed
qed

lemma same_decoding_tokens: "same_decoding d0 s s' \<Longrightarrow> same_tokens s s'"
  by (simp add: same_decoding_def same_tokens_def)

lemma decode_loop_coupled:
  "decoder_input_buffers l = [d0, d1, d2] \<Longrightarrow> same_decoding d0 s s' \<Longrightarrow>
   (case decode_loop (pure_api base model accepts) l data max_tokens step s of
      Inl f \<Rightarrow> decode_loop (pure_api base model accepts) l data max_tokens step s' = Inl f
    | Inr t \<Rightarrow>
        (\<exists>t'. decode_loop (pure_api base model accepts) l data max_tokens step s' = Inr t' \<and>
              same_tokens t t'))"
proof (induction "pure_api base model accepts" l data max_tokens step s arbitrary: s'
    rule: decode_loop.induct)
  case (1 l data max_tokens step s)
  let ?P = "pure_api base model accepts"
  show ?case
  proof (cases "step < MAX_SEQUENCE_LENGTH - 1")
    case False
    then show ?thesis
      using same_decoding_tokens [OF "1.prems"(2)]
      by (simp add: decode_loop.simps [of ?P l data max_tokens step])
  next
    case lt: True
    note bc = decode_body_coupled [OF "1.prems"(1,2), of base model accepts data max_tokens]
    show ?thesis
    proof (cases "decode_body ?P l data max_tokens s")
      case (Inl f)
      with bc lt show ?thesis
        by (simp add: decode_loop.simps [of ?P l data max_tokens step])
    next
      case (Inr r)
      show ?thesis
      proof (cases r)
        case (Stopped reason t)
        with bc Inr obtain t' where
          "decode_body ?P l data max_tokens s' = Inr (Stopped reason t')" "same_tokens t t'"
          by auto
        with Inr Stopped lt show ?thesis
          by (simp add: decode_loop.simps [of ?P l data max_tokens step])
      next
        case (Proceed t)
        with bc Inr obtain t' where
          b': "decode_body ?P l data max_tokens s' = Inr (Proceed t')"
          and sd: "same_decoding d0 t t'"
          by auto
        have e1: "decode_loop ?P l data max_tokens step s =
            decode_loop ?P l data max_tokens (step + 1) t"
          using Inr Proceed lt by (simp add: decode_loop.simps [of ?P l data max_tokens step])
        have e2: "decode_loop ?P l data max_tokens step s' =
            decode_loop ?P l data max_tokens (step + 1) t'"
          using b' lt by (simp add: decode_loop.simps [of ?P l data max_tokens step])
        from "1.hyps" [OF lt Inr Proceed "1.prems"(1) sd]
        show ?thesis unfolding e1 e2 .
      qed
    qed
  qed
qed

lemma same_shape_fields:
  assumes "same_shape l l'"
  shows "encoder_input_buffers l' = encoder_input_buffers l"
    "encoder_output_buffers l' = encoder_output_buffers l"
    "decoder_input_buffers l' = decoder_input_buffers l"
    "decoder_output_buffers l' = decoder_output_buffers l"
    "compiled_encoder l' = compiled_encoder l" "compiled_decoder l' = compiled_decoder l"
    "length (encoder_hidden_states l') = length (encoder_hidden_states l)"
    "length (decoder_logits l') = length (decoder_logits l)"
proof -
  from assms have e: "l' = l\<lparr>encoder_hidden_states := encoder_hidden_states l',
            decoder_logits := decoder_logits l'\<rparr>"
    and ln: "length (encoder_hidden_states l') = length (encoder_hidden_states l)"
      "length (decoder_logits l') = length (decoder_logits l)"
    by (simp_all add: same_shape_def)
  show "encoder_input_buffers l' = encoder_input_buffers l" by (subst e) simp
  show "encoder_output_buffers l' = encoder_output_buffers l" by (subst e) simp
  show "decoder_input_buffers l' = decoder_input_buffers l" by (subst e) simp
  show "decoder_output_buffers l' = decoder_output_buffers l" by (subst e) simp
  show "compiled_encoder l' = compiled_encoder l" by (subst e) simp
  show "compiled_decoder l' = compiled_decoder l" by (subst e) simp
  show "length (encoder_hidden_states l') = length (encoder_hidden_states l)" by (rule ln)
  show "length (decoder_logits l') = length (decoder_logits l)" by (rule ln)
qed

lemma same_shape_update:
  assumes "same_shape l l'" "length h = length h'"
  shows "same_shape (l\<lparr>encoder_hidden_states := h\<rparr>) (l'\<lparr>encoder_hidden_states := h'\<rparr>)"
proof -
  from assms have e: "l' = l\<lparr>encoder_hidden_states := encoder_hidden_states l',
            decoder_logits := decoder_logits l'\<rparr>"
    and ln: "length (decoder_logits l') = length (decoder_logits l)"
    by (simp_all add: same_shape_def)
  have "l'\<lparr>encoder_hidden_states := h'\<rparr> =
      l\<lparr>encoder_hidden_states := h', decoder_logits := decoder_logits l'\<rparr>"
    by (subst e) simp
  then show ?thesis using assms(2) ln by (simp add: same_shape_def)
qed

lemma run_encoder_coupled:
  assumes ein: "encoder_input_buffers l = [e0]"
    and din: "decoder_input_buffers l = [d0, d1, d2]"
    and sh: "same_shape l l'"
    and da: "embeddings_data e' = embeddings_data e"
    and le: "length (embeddings_input e') = length (embeddings_input e)"
    and la: "length (attention_mask e') = length (attention_mask e)"
    and lo: "length out' = length out"
  shows "case run_encoder (pure_api base model accepts) b e l image_data out of
           Inl f \<Rightarrow> run_encoder (pure_api base model accepts) b' e' l' image_data out' = Inl f
         | Inr r \<Rightarrow>
            (case r of
               Inl early \<Rightarrow>
                 (\<exists>early'. run_encoder (pure_api base model accepts) b' e' l' image_data out' =
                             Inr (Inl early') \<and> fst early = 0 \<and> fst early' = 0)
             | Inr (l1, s0) \<Rightarrow>
                 (\<exists>l1' s0'. run_encoder (pure_api base model accepts) b' e' l' image_data out' =
                             Inr (Inr (l1', s0')) \<and> same_shape l1 l1' \<and>
                             same_decoding d0 s0 s0'))"
proof -
  let ?P = "pure_api base model accepts"
  note f = same_shape_fields [OF sh]
  let ?outs = "encoder_output_buffers l"
  let ?n = "length (encoder_hidden_states l)"
  have r0: "read_at (encoder_input_buffers l) 0 = Inr e0" by (simp add: ein read_at_def)
  have rd0: "read_at (decoder_input_buffers l) 0 = Inr d0" by (simp add: din read_at_def)
  show ?thesis
  proof (cases "span_of image_data (IMAGE_SIZE * IMAGE_SIZE * 3)")
    case (Inl x)
    then show ?thesis unfolding run_encoder_def f by (simp add: andthen_def r0)
  next
    case (Inr image)
    note sp = this
    show ?thesis
    proof (cases "accepts e0 image")
      case False
      then show ?thesis unfolding run_encoder_def f by (simp add: andthen_def r0 sp pure_write)
    next
      case a0: True
      show ?thesis
      proof (cases "compiled_encoder l")
        case None
        then show ?thesis unfolding run_encoder_def f
          by (simp add: andthen_def deref_def r0 sp pure_write a0)
      next
        case (Some encoder)
        note ce = this
        let ?b1 = "b(e0 := image)" and ?b1' = "b'(e0 := image)"
        have inp: "map ?b1' (encoder_input_buffers l) = map ?b1 (encoder_input_buffers l)"
          by (simp add: ein)
        have run: "CompiledModel_Run ?P ?b1' encoder (encoder_input_buffers l) ?outs =
            (case model encoder (map ?b1 (encoder_input_buffers l)) of
               None \<Rightarrow> (?b1', False)
             | Some ys \<Rightarrow> if length ys = length ?outs
                          then (store_outputs ?outs ys ?b1', True) else (?b1', False))"
          by (simp add: pure_run inp)
        show ?thesis
        proof (cases "model encoder (map ?b1 (encoder_input_buffers l))")
          case None
          have 1: "run_encoder ?P b e l image_data out = Inr (Inl (0, out, ?b1, e))"
            unfolding run_encoder_def
            by (simp add: andthen_def deref_def r0 sp pure_write a0 ce pure_run None)
          have 2: "run_encoder ?P b' e' l' image_data out' = Inr (Inl (0, out', ?b1', e'))"
            unfolding run_encoder_def f
            by (simp add: andthen_def deref_def r0 sp pure_write a0 ce run None)
          show ?thesis unfolding 1 2 by simp
        next
          case (Some ys)
          note m = this
          show ?thesis
          proof (cases "length ys = length ?outs")
            case False
            have 1: "run_encoder ?P b e l image_data out = Inr (Inl (0, out, ?b1, e))"
              unfolding run_encoder_def using False
              by (simp add: andthen_def deref_def r0 sp pure_write a0 ce pure_run m)
            have 2: "run_encoder ?P b' e' l' image_data out' = Inr (Inl (0, out', ?b1', e'))"
              unfolding run_encoder_def f using False
              by (simp add: andthen_def deref_def r0 sp pure_write a0 ce run m)
            show ?thesis unfolding 1 2 by simp
          next
            case len: True
            let ?b2 = "store_outputs ?outs ys ?b1" and ?b2' = "store_outputs ?outs ys ?b1'"
            have run1: "CompiledModel_Run ?P ?b1 encoder (encoder_input_buffers l) ?outs =
                (?b2, True)" by (simp add: pure_run m len)
            have run2: "CompiledModel_Run ?P ?b1' encoder (encoder_input_buffers l) ?outs =
                (?b2', True)" by (simp add: run m len)
            show ?thesis
            proof (cases "read_at ?outs 0")
              case (Inl x)
              then show ?thesis unfolding run_encoder_def f
                by (simp add: andthen_def deref_def r0 sp pure_write a0 ce run1 run2)
            next
              case (Inr t)
              note rt = this
              from store_outputs_covers [OF Inr len] obtain y
                where y: "map_of (rev (zip ?outs ys)) t = Some y" by blast
              have c: "?b2 t = y" "?b2' t = y" by (simp_all add: store_outputs_apply y)
              have rd1: "TensorBuffer_Read ?P ?b2 t ?n =
                  (?b2, if ?n \<le> length y then Some (take ?n y) else None)"
                by (simp add: pure_read c)
              have rd2: "TensorBuffer_Read ?P ?b2' t ?n =
                  (?b2', if ?n \<le> length y then Some (take ?n y) else None)"
                by (simp add: pure_read c)
              show ?thesis
              proof (cases "?n \<le> length y")
                case False
                then show ?thesis unfolding run_encoder_def f
                  by (simp add: andthen_def deref_def r0 sp pure_write a0 ce run1 run2 rt rd1 rd2)
              next
                case fits: True
                let ?hidden = "take ?n y"
                have h1: "span_store (encoder_hidden_states l) ?hidden = ?hidden"
                  using fits by (simp add: span_store_full)
                have h2: "span_store (encoder_hidden_states l') ?hidden = ?hidden"
                  using fits f(7) by (simp add: span_store_full)
                let ?l1 = "l\<lparr>encoder_hidden_states := ?hidden\<rparr>"
                let ?l1' = "l'\<lparr>encoder_hidden_states := ?hidden\<rparr>"
                have sh1: "same_shape ?l1 ?l1'" by (rule same_shape_update [OF sh]) simp
                let ?ze = "replicate (length (embeddings_input e)) (Fin 0)"
                let ?zm = "replicate (length (attention_mask e)) (Fin 0)"
                have pre: "run_encoder ?P b e l image_data out =
                     andthen (write_at out 0 START_TOKEN_ID) (\<lambda>out1.
                     andthen (UpdateEmbedding (embeddings_data e) ?ze START_TOKEN_ID 0) (\<lambda>emb1.
                     andthen (write_at ?zm 0 (Fin 1)) (\<lambda>mask1.
                     if \<not> accepts d0 ?hidden
                     then Inr (Inl (0, out1, ?b2,
                                 e\<lparr>litert := Some ?l1, embeddings_input := emb1,
                                   attention_mask := mask1\<rparr>))
                     else Inr (Inr (?l1,
                            \<lparr>ds_backend = ?b2(d0 := ?hidden), ds_decoder_logits = decoder_logits ?l1,
                             ds_embeddings_input = emb1, ds_attention_mask = mask1,
                             ds_out_tokens = out1, ds_token_count = 1\<rparr>)))))"
                  unfolding run_encoder_def
                  using fits
                  by (simp add: andthen_def deref_def Let_def r0 rd0 sp pure_write a0 ce run1 rt rd1 h1
                      split: sum.splits)
                have pre': "run_encoder ?P b' e' l' image_data out' =
                     andthen (write_at out' 0 START_TOKEN_ID) (\<lambda>out1.
                     andthen (UpdateEmbedding (embeddings_data e) ?ze START_TOKEN_ID 0) (\<lambda>emb1.
                     andthen (write_at ?zm 0 (Fin 1)) (\<lambda>mask1.
                     if \<not> accepts d0 ?hidden
                     then Inr (Inl (0, out1, ?b2',
                                 e'\<lparr>litert := Some ?l1', embeddings_input := emb1,
                                   attention_mask := mask1\<rparr>))
                     else Inr (Inr (?l1',
                            \<lparr>ds_backend = ?b2'(d0 := ?hidden), ds_decoder_logits = decoder_logits ?l1',
                             ds_embeddings_input = emb1, ds_attention_mask = mask1,
                             ds_out_tokens = out1, ds_token_count = 1\<rparr>)))))"
                  unfolding run_encoder_def f da le la
                  using fits
                  by (simp add: andthen_def deref_def Let_def r0 rd0 sp pure_write a0 ce run2 rt rd2 h2
                      split: sum.splits)
                show ?thesis
                proof (cases "out = []")
                  case True
                  then have "out' = []" using lo by simp
                  with True show ?thesis unfolding pre pre'
                    by (simp add: andthen_def write_at_def)
                next
                  case ne: False
                  then have ne': "out' \<noteq> []" using lo by auto
                  have w: "write_at out 0 START_TOKEN_ID = Inr (out[0 := START_TOKEN_ID])"
                    "write_at out' 0 START_TOKEN_ID = Inr (out'[0 := START_TOKEN_ID])"
                    using ne ne' by (simp_all add: write_at_def)
                  have tk: "take (Suc 0) (out'[0 := START_TOKEN_ID]) =
                      take (Suc 0) (out[0 := START_TOKEN_ID])"
                    using ne ne' by (cases out; cases out') simp_all
                  show ?thesis
                  proof (cases "UpdateEmbedding (embeddings_data e) ?ze START_TOKEN_ID 0")
                    case (Inl x)
                    then show ?thesis unfolding pre pre' by (simp add: andthen_def w)
                  next
                    case (Inr emb1)
                    note ue = this
                    show ?thesis
                    proof (cases "write_at ?zm 0 (Fin 1)")
                      case (Inl x)
                      then show ?thesis unfolding pre pre' by (simp add: andthen_def w ue)
                    next
                      case (Inr mask1)
                      then show ?thesis unfolding pre pre'
                        using sh1 tk lo f(8)
                        by (simp add: andthen_def w ue same_decoding_def)
                    qed
                  qed
                qed
              qed
            qed
          qed
        qed
      qed
    qed
  qed
qed

lemma decode_body_shape:
  assumes "same_shape l l'"
  shows "decode_body api l' data max_tokens s = decode_body api l data max_tokens s"
  unfolding decode_body_def run_decoder_def same_shape_fields [OF assms] ..

lemma decode_loop_shape:
  "same_shape l l' \<Longrightarrow>
   decode_loop api l' data max_tokens step s = decode_loop api l data max_tokens step s"
proof (induction api l data max_tokens step s rule: decode_loop.induct)
  case (1 api l data max_tokens step s)
  show ?case
    using 1
    by (simp add: decode_loop.simps [of api l' data max_tokens step s]
        decode_loop.simps [of api l data max_tokens step s] decode_body_shape
        split: sum.splits step_result.splits)
qed

lemma append_token_sizes:
  assumes "append_token data max_tokens s b4 ys = Inr r"
  shows "case r of Stopped reason t \<Rightarrow> same_sizes s t | Proceed t \<Rightarrow> same_sizes s t"
  using assms unfolding append_token_def andthen_def Let_def
  by (auto simp: same_sizes_def split: sum.splits if_splits
      dest: UpdateEmbedding_length write_at_Inr)

lemma decode_body_sizes:
  assumes "decode_body api l data max_tokens s = Inr r"
  shows "case r of Stopped reason t \<Rightarrow> same_sizes s t | Proceed t \<Rightarrow> same_sizes s t"
proof (cases "run_decoder api l s")
  case (Inl f)
  with assms show ?thesis by (simp add: decode_body_def andthen_def)
next
  case (Inr x)
  show ?thesis
  proof (cases x)
    case (Inl b)
    with Inr assms show ?thesis by (auto simp: decode_body_def andthen_def same_sizes_def)
  next
    case (Inr p)
    obtain b4 ys where p: "p = (b4, ys)" by (cases p)
    from assms \<open>run_decoder api l s = Inr x\<close> Inr p
    have "append_token data max_tokens s b4 ys = Inr r"
      by (simp add: decode_body_def andthen_def)
    then show ?thesis by (rule append_token_sizes)
  qed
qed

lemma decode_loop_sizes:
  "decode_loop api l data max_tokens step s = Inr t \<Longrightarrow> same_sizes s t"
proof (induction api l data max_tokens step s rule: decode_loop.induct)
  case (1 api l data max_tokens step s)
  show ?case
  proof (cases "step < MAX_SEQUENCE_LENGTH - 1")
    case False
    with "1.prems" show ?thesis
      by (simp add: decode_loop.simps [of api l data max_tokens step s] same_sizes_def)
  next
    case lt: True
    show ?thesis
    proof (cases "decode_body api l data max_tokens s")
      case (Inl f)
      with "1.prems" lt show ?thesis
        by (simp add: decode_loop.simps [of api l data max_tokens step s])
    next
      case (Inr r)
      note sz = decode_body_sizes [OF Inr]
      show ?thesis
      proof (cases r)
        case (Stopped reason u)
        with "1.prems" lt Inr sz show ?thesis
          by (simp add: decode_loop.simps [of api l data max_tokens step s])
      next
        case (Proceed u)
        with "1.prems" lt Inr
        have "decode_loop api l data max_tokens (step + 1) u = Inr t"
          by (simp add: decode_loop.simps [of api l data max_tokens step s])
        from "1.IH" [OF lt Inr Proceed this] sz Proceed show ?thesis
          by (simp add: same_sizes_def)
      qed
    qed
  qed
qed

lemma same_shape_refl: "same_shape l l"
  by (simp add: same_shape_def)

lemma same_shape_logits:
  assumes "same_shape l l'" "length g = length (decoder_logits l)"
  shows "same_shape l (l'\<lparr>decoder_logits := g\<rparr>)"
proof -
  from assms have e: "l' = l\<lparr>encoder_hidden_states := encoder_hidden_states l',
            decoder_logits := decoder_logits l'\<rparr>"
    and ln: "length (encoder_hidden_states l') = length (encoder_hidden_states l)"
    by (simp_all add: same_shape_def)
  have "l'\<lparr>decoder_logits := g\<rparr> =
      l\<lparr>encoder_hidden_states := encoder_hidden_states l', decoder_logits := g\<rparr>"
    by (subst e) simp
  then show ?thesis using assms(2) ln by (simp add: same_shape_def)
qed

lemma same_shape_hidden:
  assumes "length h = length (encoder_hidden_states l)"
  shows "same_shape l (l\<lparr>encoder_hidden_states := h\<rparr>)"
  using same_shape_update [where l = l and l' = l and h = "encoder_hidden_states l" and h' = h]
    assms
  by (simp add: same_shape_refl)

lemma same_engine_refl: "same_engine e e"
  by (simp add: same_engine_def same_shape_refl split: option.splits)

lemma run_encoder_early:
  assumes "run_encoder api b e l image_data out_tokens = Inr (Inl (n, toks, b1, e1))"
    and "litert e = Some l"
  shows "n = 0 \<and> same_engine e e1"
proof -
  have sh: "\<And>ys. same_shape l (l\<lparr>encoder_hidden_states := span_store (encoder_hidden_states l) ys\<rparr>)"
    by (rule same_shape_hidden) simp
  show ?thesis
    using assms sh unfolding run_encoder_def andthen_def deref_def Let_def
    by (auto simp: same_shape_refl same_engine_def
        split: sum.splits prod.splits option.splits if_splits
        dest: UpdateEmbedding_length write_at_Inr)
qed

lemma run_encoder_enter:
  assumes "run_encoder api b e l image_data out_tokens = Inr (Inr (l1, s0))"
  shows "same_shape l l1 \<and> length (ds_embeddings_input s0) = length (embeddings_input e) \<and>
         length (ds_attention_mask s0) = length (attention_mask e) \<and>
         ds_decoder_logits s0 = decoder_logits l"
proof -
  have sh: "\<And>ys. same_shape l (l\<lparr>encoder_hidden_states := span_store (encoder_hidden_states l) ys\<rparr>)"
    by (rule same_shape_hidden) simp
  show ?thesis
    using assms sh unfolding run_encoder_def andthen_def deref_def Let_def
    by (auto split: sum.splits prod.splits option.splits if_splits
        dest: UpdateEmbedding_length write_at_Inr)
qed

lemma InferTokens_same_engine:
  assumes r: "InferTokens api b e image_data out_tokens max_tokens = Inr (n, toks, b1, e1)"
  shows "same_engine e e1"
proof (cases "initialized e")
  case False
  with r show ?thesis by (simp add: InferTokens_def same_engine_refl)
next
  case ini: True
  show ?thesis
  proof (cases "litert e")
    case None
    with r ini show ?thesis by (simp add: InferTokens_def andthen_def deref_def)
  next
    case (Some l)
    note l = this
    show ?thesis
    proof (cases "run_encoder api b e l image_data out_tokens")
      case (Inl f)
      with r ini l show ?thesis by (simp add: InferTokens_def andthen_def deref_def)
    next
      case (Inr x)
      note re = this
      show ?thesis
      proof (cases x)
        case (Inl early)
        with r ini l re have "run_encoder api b e l image_data out_tokens =
            Inr (Inl (n, toks, b1, e1))"
          by (simp add: InferTokens_def andthen_def deref_def)
        from run_encoder_early [OF this l] show ?thesis by simp
      next
        case (Inr p)
        obtain l1 s0 where p: "p = (l1, s0)" by (cases p)
        from re Inr p have re': "run_encoder api b e l image_data out_tokens = Inr (Inr (l1, s0))"
          by simp
        note en = run_encoder_enter [OF re']
        show ?thesis
        proof (cases "decode_loop api l1 (embeddings_data e) max_tokens 0 s0")
          case (Inl f)
          with r ini l re' show ?thesis by (simp add: InferTokens_def andthen_def deref_def)
        next
          case (Inr s)
          from decode_loop_sizes [OF Inr] en
          have sz: "length (ds_embeddings_input s) = length (embeddings_input e)"
            "length (ds_attention_mask s) = length (attention_mask e)"
            "length (ds_decoder_logits s) = length (decoder_logits l)"
            by (simp_all add: same_sizes_def)
          from en have "same_shape l l1" by simp
          from same_shape_logits [OF this sz(3)]
          have sh: "same_shape l (l1\<lparr>decoder_logits := ds_decoder_logits s\<rparr>)" .
          from r ini l re' Inr
          have e1: "e1 = e\<lparr>litert := Some (l1\<lparr>decoder_logits := ds_decoder_logits s\<rparr>),
                 embeddings_input := ds_embeddings_input s,
                 attention_mask := ds_attention_mask s\<rparr>"
            by (simp add: InferTokens_def andthen_def deref_def)
          show ?thesis unfolding e1 using sh sz l by (simp add: same_engine_def)
        qed
      qed
    qed
  qed
qed

lemma InferTokens_coupled:
  assumes ms: "model_shape e" and se: "same_engine e e'"
    and lo: "length out_tokens' = length out_tokens"
    and r: "InferTokens (pure_api base model accepts) b e image_data out_tokens max_tokens =
              Inr (n, toks, b1, e1)"
  shows "\<exists>toks' b1' e1'.
           InferTokens (pure_api base model accepts) b' e' image_data out_tokens' max_tokens =
             Inr (n, toks', b1', e1') \<and>
           take (nat n) toks' = take (nat n) toks"
proof (cases "initialized e")
  case False
  with r se show ?thesis by (auto simp: InferTokens_def same_engine_def)
next
  case ini: True
  let ?P = "pure_api base model accepts"
  from se ini have ini': "initialized e'" by (simp add: same_engine_def)
  from se have da: "embeddings_data e' = embeddings_data e"
    and le: "length (embeddings_input e') = length (embeddings_input e)"
    and la: "length (attention_mask e') = length (attention_mask e)"
    by (simp_all add: same_engine_def)
  show ?thesis
  proof (cases "litert e")
    case None
    with r ini show ?thesis by (simp add: InferTokens_def andthen_def deref_def)
  next
    case (Some l)
    note l = this
    with se obtain l' where l': "litert e' = Some l'" and sh: "same_shape l l'"
      by (auto simp: same_engine_def split: option.splits)
    from ms l obtain e0 where ein: "encoder_input_buffers l = [e0]"
      by (cases "encoder_input_buffers l") (auto simp: model_shape_def)
    from ms l have "length (decoder_input_buffers l) = 3" by (simp add: model_shape_def)
    then obtain d0 d1 d2 where din: "decoder_input_buffers l = [d0, d1, d2]"
      by (auto simp: length_Suc_conv numeral_3_eq_3)
    note rc = run_encoder_coupled [OF ein din sh da le la lo, where base = base and model = model
        and accepts = accepts and b = b and b' = b' and image_data = image_data]
    show ?thesis
    proof (cases "run_encoder ?P b e l image_data out_tokens")
      case (Inl f)
      with r ini l show ?thesis by (simp add: InferTokens_def andthen_def deref_def)
    next
      case (Inr x)
      note re = this
      show ?thesis
      proof (cases x)
        case (Inl early)
        with rc re obtain early' where
          re': "run_encoder ?P b' e' l' image_data out_tokens' = Inr (Inl early')"
          and z: "fst early = 0" "fst early' = 0" by auto
        from r ini l re Inl have "early = (n, toks, b1, e1)"
          by (simp add: InferTokens_def andthen_def deref_def)
        with z have n: "n = 0" by simp
        obtain toks' b1' e1' where e': "early' = (0, toks', b1', e1')"
          using z(2) by (cases early') auto
        have "InferTokens ?P b' e' image_data out_tokens' max_tokens = Inr (0, toks', b1', e1')"
          using ini' l' re' e' by (simp add: InferTokens_def andthen_def deref_def)
        with n show ?thesis by simp
      next
        case (Inr p)
        obtain l1 s0 where p: "p = (l1, s0)" by (cases p)
        from rc re Inr p obtain l1' s0' where
          re': "run_encoder ?P b' e' l' image_data out_tokens' = Inr (Inr (l1', s0'))"
          and sh1: "same_shape l1 l1'" and sd: "same_decoding d0 s0 s0'" by auto
        from re Inr p have re1: "run_encoder ?P b e l image_data out_tokens = Inr (Inr (l1, s0))"
          by simp
        from run_encoder_enter [OF re1] have "same_shape l l1" by simp
        from same_shape_fields(3) [OF this] din
        have din1: "decoder_input_buffers l1 = [d0, d1, d2]" by simp
        note lc = decode_loop_coupled [OF din1 sd, where base = base and model = model
            and accepts = accepts and data = "embeddings_data e" and max_tokens = max_tokens
            and step = 0]
        have dl': "decode_loop ?P l1' (embeddings_data e') max_tokens 0 s0' =
            decode_loop ?P l1 (embeddings_data e) max_tokens 0 s0'"
          unfolding da by (rule decode_loop_shape [OF sh1])
        show ?thesis
        proof (cases "decode_loop ?P l1 (embeddings_data e) max_tokens 0 s0")
          case (Inl f)
          with r ini l re1 show ?thesis by (simp add: InferTokens_def andthen_def deref_def)
        next
          case (Inr t)
          with lc obtain t' where
            t': "decode_loop ?P l1 (embeddings_data e) max_tokens 0 s0' = Inr t'"
            and st: "same_tokens t t'" by auto
          from r ini l re1 Inr have n: "n = ds_token_count t" and tk: "toks = ds_out_tokens t"
            by (simp_all add: InferTokens_def andthen_def deref_def)
          have "InferTokens ?P b' e' image_data out_tokens' max_tokens =
              Inr (ds_token_count t', ds_out_tokens t', ds_backend t',
                   e'\<lparr>litert := Some (l1'\<lparr>decoder_logits := ds_decoder_logits t'\<rparr>),
                     embeddings_input := ds_embeddings_input t',
                     attention_mask := ds_attention_mask t'\<rparr>)"
            using ini' l' re' dl' t' by (simp add: InferTokens_def andthen_def deref_def)
          with st n tk show ?thesis by (simp add: same_tokens_def)
        qed
      qed
    qed
  qed
qed

lemma zero_write: "TensorBuffer_Write zero_api b t d = (b(t := d), True)"
  by (simp add: zero_api_def pure_write)

lemma zero_run:
  "CompiledModel_Run zero_api b m ins [t] =
     (b(t := replicate (if m = CompiledModel 0 then 1000 else 300 * 6144) (Fin 0)), True)"
  by (simp add: zero_api_def pure_run zero_model_def store_outputs_def)

lemma zero_read:
  "b t = replicate n (Fin 0) \<Longrightarrow> TensorBuffer_Read zero_api b t n = (b, Some (replicate n (Fin 0)))"
  by (simp add: zero_api_def pure_read)

lemma test_engine_shape: "model_shape test_engine"
  by (simp add: model_shape_def test_engine_def)

lemma InferTokens_zero_api:
  "\<exists>toks b1 e1. InferTokens zero_api empty_buffers test_engine test_image test_token_buffer 2 =
     Inr (2, toks, b1, e1)"
proof -
  obtain l where l: "litert test_engine = Some l"
    and ei: "encoder_input_buffers l = [TensorBuffer 0]"
    and eo: "encoder_output_buffers l = [TensorBuffer 1]"
    and di: "decoder_input_buffers l = [TensorBuffer 2, TensorBuffer 3, TensorBuffer 4]"
    and do: "decoder_output_buffers l = [TensorBuffer 5]"
    and ce: "compiled_encoder l = Some (CompiledModel 0)"
    and cd: "compiled_decoder l = Some (CompiledModel 1)"
    and eh: "length (encoder_hidden_states l) = 1000"
    and dl: "length (decoder_logits l) = 300 * 6144"
    by (simp add: test_engine_def)
  let ?data = "embeddings_data test_engine"
  have ini: "initialized test_engine" by (simp add: test_engine_def)
  let ?img = "take (nat (IMAGE_SIZE * IMAGE_SIZE * 3)) test_image"
  let ?b1 = "empty_buffers(TensorBuffer 0 := ?img)"
  let ?b2 = "?b1(TensorBuffer 1 := replicate 1000 (Fin 0))"
  let ?hid = "span_store (encoder_hidden_states l) (replicate 1000 (Fin 0))"
  let ?b4 = "?b2(TensorBuffer 2 := ?hid)"
  have r0: "read_at (encoder_input_buffers l) 0 = Inr (TensorBuffer 0)"
    and r1: "read_at (encoder_output_buffers l) 0 = Inr (TensorBuffer 1)"
    and r2: "read_at (decoder_input_buffers l) 0 = Inr (TensorBuffer 2)"
    by (simp_all add: ei eo di read_at_def)
  have rn: "CompiledModel_Run zero_api ?b1 (CompiledModel 0) (encoder_input_buffers l)
      (encoder_output_buffers l) = (?b2, True)"
    unfolding eo by (simp add: zero_run)
  have rd: "TensorBuffer_Read zero_api ?b2 (TensorBuffer 1) (length (encoder_hidden_states l)) =
      (?b2, Some (replicate 1000 (Fin 0)))"
    unfolding eh by (rule zero_read) simp
  from run_encoder_forward [OF test_engine_ready l test_image_size test_token_buffer_size
      r0 r1 r2 ce zero_write rn rd zero_write]
  obtain l1 s0 where
    re: "run_encoder zero_api empty_buffers test_engine l test_image test_token_buffer =
      Inr (Inr (l1, s0))"
    and sz: "sized l1 ?data s0" and tc: "ds_token_count s0 = 1" by blast
  from run_encoder_enter [OF re] have sh: "same_shape l l1"
    and lg: "ds_decoder_logits s0 = decoder_logits l" by simp_all
  note f = same_shape_fields [OF sh]
  let ?n = "length (ds_decoder_logits s0)"
  have n: "?n = 300 * 6144" by (simp add: lg dl)
  let ?c1 = "(ds_backend s0)(TensorBuffer 3 :=
      take (nat MAX_SEQUENCE_LENGTH) (ds_attention_mask s0))"
  let ?c2 = "?c1(TensorBuffer 4 :=
      take (nat (MAX_SEQUENCE_LENGTH * HIDDEN_SIZE)) (ds_embeddings_input s0))"
  let ?c3 = "?c2(TensorBuffer 5 := replicate ?n (Fin 0))"
  have q1: "read_at (decoder_input_buffers l1) 1 = Inr (TensorBuffer 3)"
    and q2: "read_at (decoder_input_buffers l1) 2 = Inr (TensorBuffer 4)"
    and q0: "read_at (decoder_output_buffers l1) 0 = Inr (TensorBuffer 5)"
    by (simp_all add: f di do read_at_def)
  have cd1: "compiled_decoder l1 = Some (CompiledModel 1)" by (simp add: f cd)
  have rn1: "CompiledModel_Run zero_api ?c2 (CompiledModel 1) (decoder_input_buffers l1)
      (decoder_output_buffers l1) = (?c3, True)"
    unfolding f do n by (simp add: zero_run)
  have rd1: "TensorBuffer_Read zero_api ?c3 (TensorBuffer 5) ?n = (?c3, Some (replicate ?n (Fin 0)))"
    by (rule zero_read) simp
  have ne: "FindMaxLogitToken (span_store (ds_decoder_logits s0) (replicate ?n (Fin 0)))
      (ds_token_count s0) \<noteq> Inr END_TOKEN_ID"
    using FindMaxLogitToken_replicate [of ?n "Fin 0" "ds_token_count s0" END_TOKEN_ID]
    by (auto simp: END_TOKEN_ID_def)
  have tc': "1 \<le> ds_token_count s0" "ds_token_count s0 < MAX_SEQUENCE_LENGTH"
    by (simp_all add: tc MAX_SEQUENCE_LENGTH_def)
  from decode_body_forward [OF sz tc' q1 q2 q0 cd1 zero_write zero_write rn1 rd1 ne,
      where max_tokens = 2]
  obtain s' where db: "decode_body zero_api l1 ?data 2 s0 = Inr (Stopped LimitReached s')"
    and tc2: "ds_token_count s' = 2"
    by (auto simp: tc)
  have "decode_loop zero_api l1 ?data 2 0 s0 = Inr s'"
    by (simp add: decode_loop.simps [of zero_api l1 ?data 2 0 s0] db MAX_SEQUENCE_LENGTH_def)
  then show ?thesis
    using ini l re tc2 by (simp add: InferTokens_def andthen_def deref_def)
qed

text \<open>
  Claim C4. On a runtime whose compiled models are pure functions from the contents of
  their input buffers to the contents of their output buffers, and for an engine with one
  encoder input buffer and three decoder input buffers (the buffers that \<^verbatim>\<open>InferTokens\<close>
  fills), the result of \<^verbatim>\<open>InferTokens\<close> depends on the image and on \<^verbatim>\<open>max_tokens\<close>
  only: when one call returns \<open>n\<close> tokens, every call with the same image and the same
  \<^verbatim>\<open>max_tokens\<close> returns \<open>n\<close> tokens too, and the same ones, whatever the buffers of the
  runtime and the working vectors of the engine hold when it starts and whatever the
  caller's array of the same size held. A call leaves the engine in such a state again, so
  this holds for each later call, the next one included.
\<close>

theorem InferTokens_deterministic:
  assumes "model_shape e" and "same_engine e e'"
    and "length out_tokens' = length out_tokens"
    and "InferTokens (pure_api base model accepts) b e image_data out_tokens max_tokens =
           Inr (n, toks, b1, e1)"
  shows "returned_count
           (InferTokens (pure_api base model accepts) b' e' image_data out_tokens' max_tokens) =
           Some n \<and>
         returned_tokens
           (InferTokens (pure_api base model accepts) b' e' image_data out_tokens' max_tokens) =
           Some (take (nat n) toks) \<and>
         same_engine e e1 \<and> model_shape e1"
proof -
  from InferTokens_coupled [OF assms, where b' = b'] obtain toks' b1' e1' where
    "InferTokens (pure_api base model accepts) b' e' image_data out_tokens' max_tokens =
       Inr (n, toks', b1', e1')" "take (nat n) toks' = take (nat n) toks" by blast
  then have "returned_count
           (InferTokens (pure_api base model accepts) b' e' image_data out_tokens' max_tokens) =
           Some n" "returned_tokens
           (InferTokens (pure_api base model accepts) b' e' image_data out_tokens' max_tokens) =
           Some (take (nat n) toks)"
    by (simp_all add: returned_count_def returned_tokens_def)
  moreover have se: "same_engine e e1" by (rule InferTokens_same_engine [OF assms(4)])
  moreover have "model_shape e1"
    using se assms(1) same_shape_fields(1,3)
    by (auto simp: same_engine_def model_shape_def split: option.splits)
  ultimately show ?thesis by simp
qed

theorem InferTokens_deterministic_witness:
  "\<exists>toks b1 e1.
     InferTokens zero_api empty_buffers test_engine test_image test_token_buffer 2 =
       Inr (2, toks, b1, e1) \<and>
     returned_count (InferTokens zero_api b1 e1 test_image test_token_buffer 2) = Some 2 \<and>
     returned_tokens (InferTokens zero_api b1 e1 test_image test_token_buffer 2) =
       Some (take 2 toks)"
proof -
  from InferTokens_zero_api obtain toks b1 e1 where
    r: "InferTokens zero_api empty_buffers test_engine test_image test_token_buffer 2 =
      Inr (2, toks, b1, e1)" by blast
  have se: "same_engine test_engine e1" by (rule InferTokens_same_engine [OF r])
  from InferTokens_deterministic [OF test_engine_shape se refl r [unfolded zero_api_def],
      where b' = b1]
  have "returned_count (InferTokens zero_api b1 e1 test_image test_token_buffer 2) = Some 2"
    "returned_tokens (InferTokens zero_api b1 e1 test_image test_token_buffer 2) =
       Some (take 2 toks)"
    by (simp_all add: zero_api_def)
  with r show ?thesis by blast
qed

section \<open>A bound on the returned count\<close>

text \<open>
  Whatever the runtime does, a call that returns hands back a count between 0 and
  \<open>max 2 (min max_tokens MAX_SEQUENCE_LENGTH)\<close>: the limit of the caller is kept from
  \<^verbatim>\<open>max_tokens = 2\<close> on.
\<close>

lemma decode_loop_count_bound:
  "decode_loop api l data max_tokens step s = Inr t \<Longrightarrow>
   ds_token_count s = 1 \<or>
     (1 \<le> ds_token_count s \<and> ds_token_count s < max_tokens \<and>
      ds_token_count s < MAX_SEQUENCE_LENGTH) \<Longrightarrow>
   1 \<le> ds_token_count t \<and> ds_token_count t \<le> max 2 (min max_tokens MAX_SEQUENCE_LENGTH)"
proof (induction api l data max_tokens step s rule: decode_loop.induct)
  case (1 api l data max_tokens step s)
  note inv = "1.prems"(2)
  show ?case
  proof (cases "step < MAX_SEQUENCE_LENGTH - 1")
    case False
    with "1.prems"(1) have "t = s"
      by (simp add: decode_loop.simps [of api l data max_tokens step s])
    with inv show ?thesis by (auto simp: MAX_SEQUENCE_LENGTH_def)
  next
    case lt: True
    show ?thesis
    proof (cases "decode_body api l data max_tokens s")
      case (Inl f)
      with "1.prems"(1) lt show ?thesis
        by (simp add: decode_loop.simps [of api l data max_tokens step s])
    next
      case (Inr r)
      show ?thesis
      proof (cases r)
        case (Stopped reason u)
        with "1.prems"(1) lt Inr have tu: "t = u"
          by (simp add: decode_loop.simps [of api l data max_tokens step s])
        from Inr Stopped tu have b: "decode_body api l data max_tokens s = Inr (Stopped reason t)"
          by simp
        show ?thesis
        proof (cases reason)
          case BufferError
          with decode_body_BufferError [of api l data max_tokens s t] b inv show ?thesis
            by (auto simp: MAX_SEQUENCE_LENGTH_def)
        next
          case EndToken
          with decode_body_EndToken [of api l data max_tokens s t] b inv show ?thesis
            by (auto simp: MAX_SEQUENCE_LENGTH_def)
        next
          case LimitReached
          with decode_body_LimitReached [of api l data max_tokens s t] b inv show ?thesis
            by (auto simp: MAX_SEQUENCE_LENGTH_def)
        qed
      next
        case (Proceed u)
        with "1.prems"(1) lt Inr
        have dl: "decode_loop api l data max_tokens (step + 1) u = Inr t"
          by (simp add: decode_loop.simps [of api l data max_tokens step s])
        from Inr Proceed have "decode_body api l data max_tokens s = Inr (Proceed u)" by simp
        from decode_body_Proceed [OF this] inv
        have "ds_token_count u = 1 \<or>
          (1 \<le> ds_token_count u \<and> ds_token_count u < max_tokens \<and>
           ds_token_count u < MAX_SEQUENCE_LENGTH)" by auto
        from "1.IH" [OF lt Inr Proceed dl this] show ?thesis .
      qed
    qed
  qed
qed

lemma InferTokens_count_bound:
  assumes r: "InferTokens api b e image_data out_tokens max_tokens = Inr (n, toks, b1, e1)"
  shows "0 \<le> n \<and> n \<le> max 2 (min max_tokens MAX_SEQUENCE_LENGTH)"
proof (cases "initialized e")
  case False
  with r show ?thesis by (auto simp: InferTokens_def)
next
  case ini: True
  show ?thesis
  proof (cases "litert e")
    case None
    with r ini show ?thesis by (simp add: InferTokens_def andthen_def deref_def)
  next
    case (Some l)
    note l = this
    show ?thesis
    proof (cases "run_encoder api b e l image_data out_tokens")
      case (Inl f)
      with r ini l show ?thesis by (simp add: InferTokens_def andthen_def deref_def)
    next
      case (Inr x)
      note re = this
      show ?thesis
      proof (cases x)
        case (Inl early)
        with r ini l re have "run_encoder api b e l image_data out_tokens =
            Inr (Inl (n, toks, b1, e1))"
          by (simp add: InferTokens_def andthen_def deref_def)
        from run_encoder_early [OF this l] show ?thesis by simp
      next
        case (Inr p)
        obtain l1 s0 where p: "p = (l1, s0)" by (cases p)
        from re Inr p have re': "run_encoder api b e l image_data out_tokens = Inr (Inr (l1, s0))"
          by simp
        note tc = run_encoder_start [OF re']
        show ?thesis
        proof (cases "decode_loop api l1 (embeddings_data e) max_tokens 0 s0")
          case (Inl f)
          with r ini l re' show ?thesis by (simp add: InferTokens_def andthen_def deref_def)
        next
          case (Inr s)
          from r ini l re' Inr have n: "n = ds_token_count s"
            by (simp add: InferTokens_def andthen_def deref_def)
          from decode_loop_count_bound [OF Inr] tc n show ?thesis by simp
        qed
      qed
    qed
  qed
qed

end
